(* ===== verification/Prelude.thy ===== *)
theory Prelude
  imports Complex_Main "HOL-Library.AList" "HOL-Library.Sublist" "HOL-Library.Multiset"
    "HOL-Library.Word" "HOL-Library.Product_Lexorder" "HOL-Library.List_Lexorder"
    "HOL-Library.Char_ord" "HOL-Library.Code_Target_Numeral"
begin

text \<open>
  Shared vocabulary of the development.

  A Go map is an association list with distinct keys (\<open>gomap\<close>): \<open>gm_put\<close>, \<open>gm_del\<close> and
  \<open>gm_get\<close> are the assignments, \<open>delete\<close> and the comma-ok read. Go leaves the iteration
  order of a map unspecified; a \<open>range\<close> loop of the source walks the list in its order, and a
  theorem quantifies over every list that represents the map, hence over every order.

  \<open>time.Time\<close> is the number of nanoseconds since Go's zero time, \<open>time.Duration\<close> is a
  nanosecond count whose products wrap at 64 bits and whose differences saturate, as the
  \<open>time\<close> package does.

  The collections \<open>inv_simps\<close>, \<open>inv_intros\<close> and \<open>frame_simps\<close> are filled by the component
  theories: unfoldings of invariants, preservation lemmas and unchanged-field lemmas.
\<close>

named_theorems inv_intros \<open>preservation lemmas of the component invariants\<close>
named_theorems frame_simps \<open>fields an operation leaves alone\<close>
named_theorems map_simps \<open>lookups after updates of Go maps\<close>

section \<open>Go maps\<close>

type_synonym ('k, 'v) gomap = "('k \<times> 'v) list"

abbreviation gm_get :: "('k, 'v) gomap \<Rightarrow> 'k \<Rightarrow> 'v option" where
  "gm_get m k \<equiv> map_of m k"

abbreviation gm_put :: "'k \<Rightarrow> 'v \<Rightarrow> ('k, 'v) gomap \<Rightarrow> ('k, 'v) gomap" where
  "gm_put k v m \<equiv> AList.update k v m"

abbreviation gm_del :: "'k \<Rightarrow> ('k, 'v) gomap \<Rightarrow> ('k, 'v) gomap" where
  "gm_del k m \<equiv> AList.delete k m"

abbreviation gm_wf :: "('k, 'v) gomap \<Rightarrow> bool" where
  "gm_wf m \<equiv> distinct (map fst m)"

abbreviation gm_mem :: "'k \<Rightarrow> ('k, 'v) gomap \<Rightarrow> bool" where
  "gm_mem k m \<equiv> gm_get m k \<noteq> None"

text \<open>Reading a map whose values have a zero value: a missing key reads as the zero value.\<close>

definition gm_get_or :: "'v \<Rightarrow> ('k, 'v) gomap \<Rightarrow> 'k \<Rightarrow> 'v" where
  "gm_get_or z m k = (case gm_get m k of None \<Rightarrow> z | Some v \<Rightarrow> v)"

lemma gm_get_put [map_simps, simp]:
  "gm_get (gm_put k v m) x = (if x = k then Some v else gm_get m x)"
  by (simp add: update_conv')

lemma gm_get_del [map_simps, simp]:
  "gm_get (gm_del k m) x = (if x = k then None else gm_get m x)"
  by (simp add: delete_conv')

lemma gm_wf_put [intro, simp]: "gm_wf m \<Longrightarrow> gm_wf (gm_put k v m)"
  by (rule distinct_update)

lemma gm_wf_del [intro, simp]: "gm_wf m \<Longrightarrow> gm_wf (gm_del k m)"
  by (simp add: distinct_delete)

lemma gm_wf_filter [intro, simp]: "gm_wf m \<Longrightarrow> gm_wf (filter P m)"
  by (rule distinct_map_filter)

lemma gm_get_filter_key:
  "gm_get (filter (\<lambda>(k, v). P k) m) x = (if P x then gm_get m x else None)"
  by (induction m) auto

lemma gm_get_filter:
  "gm_wf m \<Longrightarrow> gm_get (filter P m) x =
     (case gm_get m x of None \<Rightarrow> None | Some v \<Rightarrow> if P (x, v) then Some v else None)"
proof (induction m)
  case Nil
  then show ?case by simp
next
  case (Cons kv m)
  obtain k v where kv: "kv = (k, v)" by (cases kv)
  from Cons.prems kv have "gm_get m k = None"
    by (auto simp: map_of_eq_None_iff)
  with Cons kv show ?case by auto
qed

lemma map_fst_map_snd: "map fst (map (\<lambda>(k, v). (k, f v)) m) = map fst m"
  by (induction m) auto

lemma gm_get_map_snd: "gm_get (map (\<lambda>(k, v). (k, f v)) m) x = map_option f (gm_get m x)"
  by (induction m) auto

lemma gm_mem_iff: "gm_get m k \<noteq> None \<longleftrightarrow> k \<in> fst ` set m"
  by (auto simp: map_of_eq_None_iff)

lemma gm_in_set: "gm_wf m \<Longrightarrow> (k, v) \<in> set m \<longleftrightarrow> gm_get m k = Some v"
  by simp

declare map_of_eq_Some_iff [simp del] Some_eq_map_of_iff [simp del]

lemma gm_empty_iff: "m = [] \<longleftrightarrow> (\<forall>k. gm_get m k = None)"
  by (cases m) auto

lemma gm_del_absent: "gm_get m k = None \<Longrightarrow> gm_del k m = m"
  by (simp add: delete_idem map_of_eq_None_iff)

lemma gm_put_not_Nil [simp]: "gm_put k v m \<noteq> []"
  by (induction m) auto

lemma set_gm_del: "set (gm_del k m) = {kv \<in> set m. fst kv \<noteq> k}"
  by (auto simp: AList.delete_eq)

lemma gm_put_absent: "gm_get m k = None \<Longrightarrow> gm_put k v m = m @ [(k, v)]"
  by (induction m) (auto split: if_splits)

lemma in_gm_putD: "kv \<in> set (gm_put k v m) \<Longrightarrow> kv = (k, v) \<or> (kv \<in> set m \<and> (fst kv = k \<longrightarrow> \<not> gm_wf m))"
  by (induction m) (auto simp: image_iff split: if_splits)

lemma length_gm_del_le: "length (gm_del k m) \<le> length m"
  by (simp add: AList.delete_eq)

text \<open>Two lists of the same map, that is two iteration orders, have the same entries.\<close>

lemma gm_order_mset:
  assumes "gm_wf m" "gm_wf m'" "\<And>k. gm_get m k = gm_get m' k"
  shows "mset m = mset m'"
proof -
  have "set m = set m'"
  proof (rule set_eqI)
    fix kv :: "'a \<times> 'b"
    show "kv \<in> set m \<longleftrightarrow> kv \<in> set m'"
      using assms(3) [of "fst kv"] gm_in_set [OF assms(1)] gm_in_set [OF assms(2)]
      by (cases kv) simp
  qed
  moreover have "distinct m" "distinct m'"
    using assms(1,2) by (simp_all add: distinct_map)
  ultimately show ?thesis
    by (simp add: set_eq_iff_mset_eq_distinct)
qed

section \<open>Machine integers, durations and times\<close>

text \<open>\<open>int\<close> and \<open>int64\<close> values keep their mathematical value; a product that may leave the
  64-bit range is wrapped explicitly.\<close>

definition wrap64 :: "int \<Rightarrow> int" where
  "wrap64 x = (x + 2 ^ 63) mod 2 ^ 64 - 2 ^ 63"

lemma wrap64_id: "- (2 ^ 63) \<le> x \<Longrightarrow> x < 2 ^ 63 \<Longrightarrow> wrap64 x = x"
  by (simp add: wrap64_def)

lemma wrap64_range: "- (2 ^ 63) \<le> wrap64 x \<and> wrap64 x < 2 ^ 63"
proof -
  have "0 \<le> (x + 2 ^ 63) mod 2 ^ 64" "(x + 2 ^ 63) mod 2 ^ 64 < 2 ^ 64"
    by (auto intro: pos_mod_sign pos_mod_bound)
  then show ?thesis by (simp add: wrap64_def)
qed

type_synonym gotime = int
type_synonym duration = int

definition nanosecond :: duration where "nanosecond = 1"
definition millisecond :: duration where "millisecond = 1000000"
definition second :: duration where "second = 1000000000"
definition minute :: duration where "minute = 60000000000"
definition hour :: duration where "hour = 3600000000000"

lemmas duration_units = nanosecond_def millisecond_def second_def minute_def hour_def

definition max_duration :: duration where "max_duration = 2 ^ 63 - 1"
definition min_duration :: duration where "min_duration = - (2 ^ 63)"

text \<open>\<open>t.Sub(u)\<close> saturates at the ends of the \<open>Duration\<close> range.\<close>

definition time_sub :: "gotime \<Rightarrow> gotime \<Rightarrow> duration" where
  "time_sub t u = max min_duration (min max_duration (t - u))"

definition time_zero :: gotime where "time_zero = 0"

definition is_zero_time :: "gotime \<Rightarrow> bool" where
  "is_zero_time t \<longleftrightarrow> t = time_zero"

lemma time_sub_le_iff:
  "a \<le> max_duration \<Longrightarrow> min_duration < a \<Longrightarrow> a \<le> time_sub t u \<longleftrightarrow> u + a \<le> t"
  by (auto simp: time_sub_def)

lemma time_sub_less_iff:
  "a < max_duration \<Longrightarrow> min_duration \<le> a \<Longrightarrow> a < time_sub t u \<longleftrightarrow> u + a < t"
  by (auto simp: time_sub_def)

lemma time_sub_mono: "t \<le> t' \<Longrightarrow> time_sub t u \<le> time_sub t' u"
  by (auto simp: time_sub_def)

text \<open>A product with a positive unit that stays in range is exact.\<close>

lemma wrap64_seconds:
  "\<bar>n\<bar> \<le> 9000000000 \<Longrightarrow> wrap64 (n * second) = n * second"
  by (rule wrap64_id) (auto simp: second_def)

section \<open>Lists\<close>

lemma distinct_snoc [simp]: "distinct (xs @ [x]) \<longleftrightarrow> distinct xs \<and> x \<notin> set xs"
  by auto

lemma filter_order_sublist: "subseq (filter P xs) xs"
  by (rule subseq_filter_left)

end
