(* ===== verification/GoStrings.thy ===== *)
theory GoStrings
  imports Prelude
begin

text \<open>
  The operations on byte strings that the source takes from Go's \<open>strings\<close>, \<open>strconv\<close> and
  \<open>fmt\<close> packages. A Go string and a Go byte slice are both a list of bytes (\<open>char\<close> in HOL is
  an 8-bit byte). \<open>ToLower\<close> and \<open>EqualFold\<close> fold the ASCII letters; letters outside ASCII are
  left as they are.
\<close>

section \<open>Bytes and digits\<close>

abbreviation byte_val :: "char \<Rightarrow> nat" where
  "byte_val c \<equiv> of_char c"

definition digit_val :: "char \<Rightarrow> nat option" where
  "digit_val c = (if 48 \<le> byte_val c \<and> byte_val c \<le> 57 then Some (byte_val c - 48) else None)"

definition digit_char :: "nat \<Rightarrow> char" where
  "digit_char d = char_of (48 + d)"

lemma digit_val_char [simp]: "d < 10 \<Longrightarrow> digit_val (digit_char d) = Some d"
  by (simp add: digit_val_def digit_char_def)

definition is_letter :: "char \<Rightarrow> bool" where
  "is_letter c \<longleftrightarrow> (65 \<le> byte_val c \<and> byte_val c \<le> 90) \<or> (97 \<le> byte_val c \<and> byte_val c \<le> 122)"

definition is_alnum :: "char \<Rightarrow> bool" where
  "is_alnum c \<longleftrightarrow> is_letter c \<or> digit_val c \<noteq> None"

section \<open>strings\<close>

abbreviation contains :: "string \<Rightarrow> string \<Rightarrow> bool" where
  "contains s pat \<equiv> sublist pat s"

abbreviation has_prefix :: "string \<Rightarrow> string \<Rightarrow> bool" where
  "has_prefix s p \<equiv> prefix p s"

abbreviation has_suffix :: "string \<Rightarrow> string \<Rightarrow> bool" where
  "has_suffix s p \<equiv> suffix p s"

definition contains_any :: "string \<Rightarrow> string list \<Rightarrow> bool" where
  "contains_any s pats \<longleftrightarrow> list_ex (\<lambda>p. contains s p) pats"

definition lower_char :: "char \<Rightarrow> char" where
  "lower_char c = (if 65 \<le> byte_val c \<and> byte_val c \<le> 90 then char_of (byte_val c + 32) else c)"

definition to_lower :: "string \<Rightarrow> string" where
  "to_lower s = map lower_char s"

definition equal_fold :: "string \<Rightarrow> string \<Rightarrow> bool" where
  "equal_fold s t \<longleftrightarrow> to_lower s = to_lower t"

lemma lower_char_idem [simp]: "lower_char (lower_char c) = lower_char c"
  by (auto simp: lower_char_def)

lemma to_lower_idem [simp]: "to_lower (to_lower s) = to_lower s"
  by (simp add: to_lower_def)

text \<open>The UTF-8 encodings of the Unicode white-space runes.\<close>

definition space_rune :: "string \<Rightarrow> bool" where
  "space_rune r \<longleftrightarrow> (case map byte_val r of
      [a] \<Rightarrow> a = 32 \<or> (9 \<le> a \<and> a \<le> 13)
    | [a, b] \<Rightarrow> a = 194 \<and> (b = 133 \<or> b = 160)
    | [a, b, c] \<Rightarrow>
        (a = 225 \<and> b = 154 \<and> c = 128)
      \<or> (a = 226 \<and> b = 128 \<and> ((128 \<le> c \<and> c \<le> 138) \<or> c = 168 \<or> c = 169 \<or> c = 175))
      \<or> (a = 226 \<and> b = 129 \<and> c = 159)
      \<or> (a = 227 \<and> b = 128 \<and> c = 128)
    | _ \<Rightarrow> False)"

lemma space_rune_Nil [simp]: "\<not> space_rune []"
  by (simp add: space_rune_def)

text \<open>The number of bytes of the white-space rune a string starts with, zero if it starts with
  none; and the same at its end.\<close>

definition space_at :: "string \<Rightarrow> nat" where
  "space_at s = (if space_rune (take 1 s) then 1
     else if space_rune (take 2 s) then 2
     else if space_rune (take 3 s) then 3 else 0)"

definition space_at_end :: "string \<Rightarrow> nat" where
  "space_at_end s = (let r = rev s in
     if space_rune (rev (take 1 r)) then 1
     else if space_rune (rev (take 2 r)) then 2
     else if space_rune (rev (take 3 r)) then 3 else 0)"

lemma space_at_Nil [simp]: "space_at [] = 0"
  by (simp add: space_at_def)

lemma space_at_end_Nil [simp]: "space_at_end [] = 0"
  by (simp add: space_at_end_def)

function trim_left :: "string \<Rightarrow> string" where
  "trim_left s = (if space_at s = 0 then s else trim_left (drop (space_at s) s))"
  by pat_completeness auto
termination
  by (relation "measure length") (auto intro!: Nat.diff_less)

function trim_right :: "string \<Rightarrow> string" where
  "trim_right s =
     (if space_at_end s = 0 then s else trim_right (take (length s - space_at_end s) s))"
  by pat_completeness auto
termination
  by (relation "measure length") (auto intro!: Nat.diff_less)

declare trim_left.simps [simp del] trim_right.simps [simp del]

definition trim_space :: "string \<Rightarrow> string" where
  "trim_space s = trim_right (trim_left s)"

lemma trim_left_suffix: "suffix (trim_left s) s"
proof (induction s rule: trim_left.induct)
  case (1 s)
  show ?case
  proof (cases "space_at s = 0")
    case True
    then show ?thesis by (simp add: trim_left.simps [of s])
  next
    case False
    with 1 show ?thesis
      by (simp add: trim_left.simps [of s]) (meson suffix_drop suffix_order.trans)
  qed
qed

lemma trim_right_prefix: "prefix (trim_right s) s"
proof (induction s rule: trim_right.induct)
  case (1 s)
  show ?case
  proof (cases "space_at_end s = 0")
    case True
    then show ?thesis by (simp add: trim_right.simps [of s])
  next
    case False
    with 1 show ?thesis
      by (simp add: trim_right.simps [of s]) (meson take_is_prefix prefix_order.trans)
  qed
qed

lemma trim_right_end: "space_at_end (trim_right s) = 0"
proof (induction s rule: trim_right.induct)
  case (1 s)
  then show ?case
    by (cases "space_at_end s = 0") (simp_all add: trim_right.simps [of s])
qed

lemma trim_right_idem [simp]: "trim_right (trim_right s) = trim_right s"
  using trim_right_end [of s] by (simp add: trim_right.simps [of "trim_right s"])

lemma trim_space_Nil [simp]: "trim_space [] = []"
  by (simp add: trim_space_def trim_left.simps trim_right.simps)

fun split_on :: "char \<Rightarrow> string \<Rightarrow> string list" where
  "split_on c [] = [[]]"
| "split_on c (x # xs) =
     (if x = c then [] # split_on c xs
      else case split_on c xs of [] \<Rightarrow> [[x]] | y # ys \<Rightarrow> (x # y) # ys)"

fun join_with :: "string \<Rightarrow> string list \<Rightarrow> string" where
  "join_with sep [] = []"
| "join_with sep [x] = x"
| "join_with sep (x # y # ys) = x @ sep @ join_with sep (y # ys)"

lemma split_on_not_Nil [simp]: "split_on c s \<noteq> []"
  by (induction s) (auto split: list.splits)

lemma join_split [simp]: "join_with [c] (split_on c s) = s"
proof (induction s)
  case Nil
  then show ?case by simp
next
  case (Cons x xs)
  obtain y ys where y: "split_on c xs = y # ys"
    by (cases "split_on c xs") auto
  with Cons show ?case by (cases ys) auto
qed

lemma split_on_no_sep: "\<forall>p \<in> set (split_on c s). c \<notin> set p"
proof (induction s)
  case Nil
  then show ?case by simp
next
  case (Cons x xs)
  then show ?case by (cases "split_on c xs") auto
qed

lemma split_on_absent [simp]: "c \<notin> set s \<Longrightarrow> split_on c s = [s]"
  by (induction s) auto

lemma split_on_append:
  "c \<notin> set s \<Longrightarrow> split_on c (s @ c # t) = s # split_on c t"
  by (induction s) auto

text \<open>\<open>strings.Cut\<close> at the first separator and at the last one.\<close>

definition cut_first :: "char \<Rightarrow> string \<Rightarrow> (string \<times> string) option" where
  "cut_first c s = (if c \<in> set s
     then Some (takeWhile (\<lambda>x. x \<noteq> c) s, tl (dropWhile (\<lambda>x. x \<noteq> c) s)) else None)"

definition cut_last :: "char \<Rightarrow> string \<Rightarrow> (string \<times> string) option" where
  "cut_last c s = (case cut_first c (rev s) of None \<Rightarrow> None | Some (b, a) \<Rightarrow> Some (rev a, rev b))"

lemma cut_first_append: "c \<notin> set s \<Longrightarrow> cut_first c (s @ c # t) = Some (s, t)"
  by (induction s) (auto simp: cut_first_def)

lemma cut_last_append: "c \<notin> set t \<Longrightarrow> cut_last c (s @ c # t) = Some (s, t)"
  by (simp add: cut_last_def cut_first_append)

section \<open>strconv\<close>

fun nat_digits :: "nat \<Rightarrow> string" where
  "nat_digits n = (if n < 10 then [digit_char n] else nat_digits (n div 10) @ [digit_char (n mod 10)])"

declare nat_digits.simps [simp del]

definition itoa :: "int \<Rightarrow> string" where
  "itoa i = (if i < 0 then CHR ''-'' # nat_digits (nat (- i)) else nat_digits (nat i))"

datatype num_error = ErrSyntax | ErrRange

fun uint_loop :: "nat \<Rightarrow> string \<Rightarrow> num_error + nat" where
  "uint_loop n [] = Inr n"
| "uint_loop n (c # cs) =
     (case digit_val c of
        None \<Rightarrow> Inl ErrSyntax
      | Some d \<Rightarrow> if 10 * n + d > 2 ^ 64 - 1 then Inl ErrRange else uint_loop (10 * n + d) cs)"

definition parse_uint64 :: "string \<Rightarrow> num_error + nat" where
  "parse_uint64 s = (if s = [] then Inl ErrSyntax else uint_loop 0 s)"

definition atoi :: "string \<Rightarrow> num_error + int" where
  "atoi s = (let neg = (case s of c # _ \<Rightarrow> c = CHR ''-'' | [] \<Rightarrow> False);
                 body = (case s of c # cs \<Rightarrow> if c = CHR ''-'' \<or> c = CHR ''+'' then cs else s | [] \<Rightarrow> s)
             in case parse_uint64 body of
                  Inl e \<Rightarrow> Inl e
                | Inr u \<Rightarrow> if neg then (if u > 2 ^ 63 then Inl ErrRange else Inr (- int u))
                          else (if u \<ge> 2 ^ 63 then Inl ErrRange else Inr (int u)))"

lemma nat_digits_not_Nil [simp]: "nat_digits n \<noteq> []"
  by (subst nat_digits.simps) simp

lemma uint_loop_snoc:
  "uint_loop n (s @ [c]) = (case uint_loop n s of Inl e \<Rightarrow> Inl e | Inr m \<Rightarrow> uint_loop m [c])"
  by (induction n s rule: uint_loop.induct) (auto split: option.splits)

lemma uint_loop_digits: "n < 2 ^ 64 \<Longrightarrow> uint_loop 0 (nat_digits n) = Inr n"
proof (induction n rule: nat_digits.induct)
  case (1 n)
  show ?case
  proof (cases "n < 10")
    case True
    then show ?thesis by (simp add: nat_digits.simps [of n])
  next
    case False
    have "n div 10 < 2 ^ 64" using "1.prems" by simp
    with "1.IH" False have "uint_loop 0 (nat_digits (n div 10)) = Inr (n div 10)" by simp
    moreover have "10 * (n div 10) + n mod 10 = n" by simp
    ultimately show ?thesis
      using False "1.prems" by (simp add: nat_digits.simps [of n] uint_loop_snoc)
  qed
qed

lemma parse_uint64_digits [simp]: "n < 2 ^ 64 \<Longrightarrow> parse_uint64 (nat_digits n) = Inr n"
  by (simp add: parse_uint64_def uint_loop_digits)

lemma uint_loop_bound: "uint_loop n s = Inr m \<Longrightarrow> n < 2 ^ 64 \<Longrightarrow> m < 2 ^ 64"
  by (induction n s rule: uint_loop.induct) (auto split: option.splits if_splits)

lemma parse_uint64_bound: "parse_uint64 s = Inr m \<Longrightarrow> m < 2 ^ 64"
  using uint_loop_bound [of 0 s m] by (auto simp: parse_uint64_def split: if_splits)

lemma digit_char_inj: "a < 10 \<Longrightarrow> b < 10 \<Longrightarrow> digit_char a = digit_char b \<longleftrightarrow> a = b"
  by (metis digit_val_char option.inject)

lemma digit_char_val: "digit_val c \<noteq> None \<Longrightarrow> 48 \<le> byte_val c \<and> byte_val c \<le> 57"
  by (auto simp: digit_val_def split: if_splits)

lemma nat_digits_all_digits: "c \<in> set (nat_digits n) \<Longrightarrow> digit_val c \<noteq> None"
proof (induction n rule: nat_digits.induct)
  case (1 n)
  then show ?case
    by (cases "n < 10") (auto simp: nat_digits.simps [of n])
qed

lemma nat_digits_no_char:
  "digit_val c = None \<Longrightarrow> c \<notin> set (nat_digits n)"
  using nat_digits_all_digits by blast

lemma nat_digits_hd: "\<exists>c cs. nat_digits n = c # cs \<and> digit_val c \<noteq> None"
proof -
  obtain c cs where c: "nat_digits n = c # cs"
    by (cases "nat_digits n") auto
  then have "digit_val c \<noteq> None"
    using nat_digits_all_digits [of c n] by simp
  with c show ?thesis by blast
qed

lemma atoi_itoa: "- (2 ^ 63) \<le> i \<Longrightarrow> i < 2 ^ 63 \<Longrightarrow> atoi (itoa i) = Inr i"
proof -
  assume r: "- (2 ^ 63) \<le> i" "i < 2 ^ 63"
  obtain c cs where c: "nat_digits (nat i) = c # cs" "digit_val c \<noteq> None"
    using nat_digits_hd by blast
  have nsign: "c \<noteq> CHR ''-''" "c \<noteq> CHR ''+''"
    using c(2) by (auto simp: digit_val_def)
  show ?thesis
  proof (cases "i < 0")
    case True
    then have "nat (- i) < 2 ^ 64" "\<not> nat (- i) > 2 ^ 63" using r by auto
    with True show ?thesis by (simp add: atoi_def itoa_def)
  next
    case False
    then have "nat i < 2 ^ 64" "\<not> nat i \<ge> 2 ^ 63" using r by auto
    then have "parse_uint64 (c # cs) = Inr (nat i)"
      using c(1) parse_uint64_digits [of "nat i"] by simp
    with False c(1) nsign \<open>\<not> nat i \<ge> 2 ^ 63\<close> show ?thesis
      by (simp add: atoi_def itoa_def)
  qed
qed

lemma parse_uint64_neg [simp]: "parse_uint64 (CHR ''-'' # s) = Inl ErrSyntax"
  by (simp add: parse_uint64_def digit_val_def)

text \<open>Decimal printing is injective.\<close>

lemma nat_digits_inj: "nat_digits m = nat_digits n \<Longrightarrow> m = n"
proof (induction m arbitrary: n rule: nat_digits.induct)
  case (1 m)
  show ?case
  proof (cases "m < 10 \<or> n < 10")
    case True
    then show ?thesis
      using "1.prems" nat_digits_not_Nil [of "m div 10"] nat_digits_not_Nil [of "n div 10"]
      by (auto simp: nat_digits.simps [of m] nat_digits.simps [of n] digit_char_inj
          append_eq_Cons_conv Cons_eq_append_conv simp del: nat_digits_not_Nil split: if_splits)
  next
    case False
    then have "nat_digits (m div 10) = nat_digits (n div 10)"
      "digit_char (m mod 10) = digit_char (n mod 10)"
      using "1.prems" by (auto simp: nat_digits.simps [of m] nat_digits.simps [of n])
    then have "m div 10 = n div 10" "m mod 10 = n mod 10"
      using "1.IH" False by (auto simp: digit_char_inj)
    then show ?thesis by (metis div_mult_mod_eq)
  qed
qed

lemma itoa_inj: "itoa i = itoa j \<Longrightarrow> i = j"
proof -
  assume a: "itoa i = itoa j"
  have "CHR ''-'' \<notin> set (nat_digits n)" for n
    by (rule nat_digits_no_char) (simp add: digit_val_def)
  then have neq: "CHR ''-'' # xs \<noteq> nat_digits n" for xs n
    by (metis list.set_intros(1))
  show "i = j"
    using a neq neq [symmetric]
    by (auto simp: itoa_def split: if_splits dest!: nat_digits_inj)
qed

section \<open>fmt\<close>

definition hex_char :: "nat \<Rightarrow> char" where
  "hex_char d = (if d < 10 then char_of (48 + d) else char_of (87 + d))"

text \<open>\<open>%x\<close> on a string: two lower-case hexadecimal digits a byte.\<close>

definition hex_byte :: "char \<Rightarrow> string" where
  "hex_byte c = [hex_char (byte_val c div 16), hex_char (byte_val c mod 16)]"

definition hex_string :: "string \<Rightarrow> string" where
  "hex_string s = concat (map hex_byte s)"

lemma byte_val_less [simp]: "byte_val c < 256"
  using of_char_mod_256 [of c, where 'a = nat] mod_less_divisor [of 256 "byte_val c"] by linarith

lemma hex_char_inj: "a < 16 \<Longrightarrow> b < 16 \<Longrightarrow> hex_char a = hex_char b \<longleftrightarrow> a = b"
proof -
  assume r: "a < 16" "b < 16"
  have val: "d < 16 \<Longrightarrow> byte_val (hex_char d) = (if d < 10 then 48 + d else 87 + d)" for d
    by (simp add: hex_char_def)
  show ?thesis
  proof
    assume "hex_char a = hex_char b"
    then have "byte_val (hex_char a) = byte_val (hex_char b)" by simp
    then show "a = b"
      unfolding val [OF r(1)] val [OF r(2)] using r by (simp split: if_splits)
  qed simp
qed

lemma hex_byte_inj: "hex_byte a = hex_byte b \<longleftrightarrow> a = b"
proof
  assume h: "hex_byte a = hex_byte b"
  have "byte_val a div 16 < 16" "byte_val b div 16 < 16"
    using byte_val_less [of a] byte_val_less [of b] by (simp_all only: less_mult_imp_div_less)
  then have "byte_val a div 16 = byte_val b div 16" "byte_val a mod 16 = byte_val b mod 16"
    using h by (simp_all add: hex_byte_def hex_char_inj)
  then have "byte_val a = byte_val b" by (metis div_mult_mod_eq)
  then show "a = b" by (simp add: of_char_eq_iff)
qed simp

lemma hex_string_simps [simp]:
  "hex_string [] = []" "hex_string (c # s) = hex_byte c @ hex_string s"
  by (simp_all add: hex_string_def)

lemma length_hex_string [simp]: "length (hex_string s) = 2 * length s"
  by (induction s) (simp_all add: hex_byte_def)

lemma hex_string_inj: "hex_string s = hex_string t \<longleftrightarrow> s = t"
proof (induction s arbitrary: t)
  case Nil
  then show ?case by (cases t) (simp_all add: hex_byte_def)
next
  case (Cons c s)
  show ?case
  proof (cases t)
    case Nil
    then show ?thesis by (simp add: hex_byte_def)
  next
    case (Cons d u)
    have "length (hex_byte c) = length (hex_byte d)" by (simp add: hex_byte_def)
    with Cons Cons.IH show ?thesis
      by (simp add: append_eq_append_conv hex_byte_inj)
  qed
qed

end
