(* ===== verification/Wire.thy ===== *)
theory Wire
  imports GoStrings
begin

text \<open>
  Big-endian fields of a datagram, as \<open>binary.Write\<close> and \<open>binary.Read\<close> with
  \<open>binary.BigEndian\<close> produce and consume them. Fields keep the width they have in the code:
  \<open>u16\<close>, \<open>u32\<close> and \<open>u64\<close> are HOL words.
\<close>

type_synonym u16 = "16 word"
type_synonym u32 = "32 word"
type_synonym u64 = "64 word"
type_synonym bytes = string

fun be_enc :: "nat \<Rightarrow> nat \<Rightarrow> bytes" where
  "be_enc 0 n = []"
| "be_enc (Suc k) n = be_enc k (n div 256) @ [char_of n]"

definition be_dec :: "bytes \<Rightarrow> nat" where
  "be_dec s = foldl (\<lambda>a c. a * 256 + byte_val c) 0 s"

lemma be_dec_Nil [simp]: "be_dec [] = 0"
  by (simp add: be_dec_def)

lemma be_dec_snoc [simp]: "be_dec (s @ [c]) = be_dec s * 256 + byte_val c"
  by (simp add: be_dec_def)

lemma length_be_enc [simp]: "length (be_enc k n) = k"
  by (induction k arbitrary: n) auto

lemma be_dec_enc: "be_dec (be_enc k n) = n mod 256 ^ k"
proof (induction k arbitrary: n)
  case 0
  then show ?case by simp
next
  case (Suc k)
  have "n mod 256 ^ Suc k = (n div 256) mod 256 ^ k * 256 + n mod 256"
    by (simp add: mod_mult2_eq mult.commute)
  with Suc show ?case by simp
qed

lemma be_dec_bound: "be_dec s < 256 ^ length s"
proof (induction s rule: rev_induct)
  case Nil
  then show ?case by simp
next
  case (snoc c s)
  then have "be_dec s * 256 + 256 \<le> 256 ^ length s * 256"
    by (metis Suc_leI add.commute mult_Suc mult_le_mono1)
  moreover have "be_dec s * 256 + byte_val c < be_dec s * 256 + 256" by simp
  ultimately have "be_dec s * 256 + byte_val c < 256 ^ length s * 256" by linarith
  then show ?case by (simp add: mult.commute)
qed

lemma be_enc_dec: "length s = k \<Longrightarrow> be_enc k (be_dec s) = s"
proof (induction k arbitrary: s)
  case 0
  then show ?case by simp
next
  case (Suc k)
  then obtain t c where s: "s = t @ [c]" and t: "length t = k"
    by (metis length_Suc_conv_rev)
  have "(be_dec t * 256 + byte_val c) div 256 = be_dec t"
    by simp
  moreover have "char_of (be_dec t * 256 + byte_val c) = c"
    by (simp add: char_of_eq_iff take_bit_eq_mod)
  ultimately show ?case
    using s t Suc.IH by simp
qed

definition put_u16 :: "u16 \<Rightarrow> bytes" where "put_u16 w = be_enc 2 (unat w)"
definition put_u32 :: "u32 \<Rightarrow> bytes" where "put_u32 w = be_enc 4 (unat w)"
definition put_u64 :: "u64 \<Rightarrow> bytes" where "put_u64 w = be_enc 8 (unat w)"

definition get_u16 :: "bytes \<Rightarrow> u16" where "get_u16 s = of_nat (be_dec s)"
definition get_u32 :: "bytes \<Rightarrow> u32" where "get_u32 s = of_nat (be_dec s)"
definition get_u64 :: "bytes \<Rightarrow> u64" where "get_u64 s = of_nat (be_dec s)"

lemma length_put [simp]:
  "length (put_u16 a) = 2" "length (put_u32 b) = 4" "length (put_u64 c) = 8"
  by (simp_all add: put_u16_def put_u32_def put_u64_def)

lemma put_not_Nil [simp]: "put_u16 a \<noteq> []" "put_u32 b \<noteq> []" "put_u64 c \<noteq> []"
  by (metis length_put list.size(3) zero_neq_numeral)+

lemma get_put [simp]:
  "get_u16 (put_u16 a) = a" "get_u32 (put_u32 b) = b" "get_u64 (put_u64 c) = c"
proof -
  have "unat a < 256 ^ 2" "unat b < 256 ^ 4" "unat c < 256 ^ 8"
    using unsigned_less [of a, where ?'a = nat] unsigned_less [of b, where ?'a = nat]
      unsigned_less [of c, where ?'a = nat] by simp_all
  then show "get_u16 (put_u16 a) = a" "get_u32 (put_u32 b) = b" "get_u64 (put_u64 c) = c"
    unfolding get_u16_def put_u16_def get_u32_def put_u32_def get_u64_def put_u64_def be_dec_enc
    by simp_all
qed

lemma put_get:
  "length s = 2 \<Longrightarrow> put_u16 (get_u16 s) = s"
  "length s = 4 \<Longrightarrow> put_u32 (get_u32 s) = s"
  "length s = 8 \<Longrightarrow> put_u64 (get_u64 s) = s"
proof -
  have b: "length s = k \<Longrightarrow> be_dec s < 256 ^ k" for k
    using be_dec_bound [of s] by simp
  show "length s = 2 \<Longrightarrow> put_u16 (get_u16 s) = s"
    using b [of 2] by (simp add: put_u16_def get_u16_def unat_of_nat be_enc_dec)
  show "length s = 4 \<Longrightarrow> put_u32 (get_u32 s) = s"
    using b [of 4] by (simp add: put_u32_def get_u32_def unat_of_nat be_enc_dec)
  show "length s = 8 \<Longrightarrow> put_u64 (get_u64 s) = s"
    using b [of 8] by (simp add: put_u64_def get_u64_def unat_of_nat be_enc_dec)
qed

text \<open>A \<open>bytes.Reader\<close>: \<open>rd n\<close> reads the next \<open>n\<close> bytes or fails, as \<open>binary.Read\<close> does at
  the end of the data. \<open>bytes_at i n\<close> is the slice \<open>data[i:i+n]\<close>.\<close>

definition rd :: "nat \<Rightarrow> bytes \<Rightarrow> (bytes \<times> bytes) option" where
  "rd n s = (if length s < n then None else Some (take n s, drop n s))"

definition bytes_at :: "nat \<Rightarrow> nat \<Rightarrow> bytes \<Rightarrow> bytes" where
  "bytes_at i n s = take n (drop i s)"

lemma rd_append [simp]: "length a = n \<Longrightarrow> rd n (a @ b) = Some (a, b)"
  by (simp add: rd_def)

lemma rd_exact [simp]: "length a = n \<Longrightarrow> rd n a = Some (a, [])"
  by (simp add: rd_def)

lemma length_bytes_at: "i + n \<le> length s \<Longrightarrow> length (bytes_at i n s) = n"
  by (simp add: bytes_at_def)

lemma bytes_at_append: "length a = i \<Longrightarrow> length b = n \<Longrightarrow> bytes_at i n (a @ b @ c) = b"
  by (simp add: bytes_at_def)

text \<open>Reading fixed-size records until the data runs short.\<close>

function chunks :: "nat \<Rightarrow> bytes \<Rightarrow> bytes list" where
  "chunks w s = (if w = 0 \<or> length s < w then [] else take w s # chunks w (drop w s))"
  by pat_completeness auto
termination
  by (relation "measure (\<lambda>(w, s). length s)") auto

declare chunks.simps [simp del]

lemma chunks_short: "length s < w \<Longrightarrow> chunks w s = []"
  by (subst chunks.simps) simp

lemma chunks_append: "w > 0 \<Longrightarrow> length a = w \<Longrightarrow> chunks w (a @ s) = a # chunks w s"
  by (subst chunks.simps) simp

lemma chunks_concat:
  assumes "w > 0" "\<forall>x \<in> set xs. length x = w" "length tail < w"
  shows "chunks w (concat xs @ tail) = xs"
  using assms(2)
proof (induction xs)
  case Nil
  with assms(3) show ?case by (simp add: chunks_short)
next
  case (Cons x xs)
  with assms(1) show ?case by (simp add: chunks_append)
qed

lemma chunks_length: "c \<in> set (chunks w s) \<Longrightarrow> length c = w"
proof (induction w s rule: chunks.induct)
  case (1 w s)
  then show ?case
    by (cases "w = 0 \<or> length s < w") (auto simp: chunks.simps [of w s])
qed

lemma length_chunks: "w > 0 \<Longrightarrow> length (chunks w s) = length s div w"
proof (induction w s rule: chunks.induct)
  case (1 w s)
  show ?case
  proof (cases "length s < w")
    case True
    then show ?thesis by (simp add: chunks_short)
  next
    case False
    with 1 have "length (chunks w (drop w s)) = (length s - w) div w" by simp
    with False "1.prems" show ?thesis
      by (simp add: chunks.simps [of w s] le_div_geq)
  qed
qed

end
