(* ===== verification/NetIP.thy ===== *)
theory NetIP
  imports Wire
begin

text \<open>
  IP addresses as the source uses Go's \<open>net\<close> and \<open>net/netip\<close> packages: \<open>netip.ParseAddr\<close>,
  \<open>net.ParseIP\<close>, \<open>To4\<close>, \<open>To16\<close> and \<open>IP.String\<close>. A \<open>net.IP\<close> is its byte slice (nil is the
  empty list); a \<open>netip.Addr\<close> is a 4-byte address or a 16-byte address with its zone.
\<close>

type_synonym net_ip = bytes

datatype netip_addr = Addr4 bytes | Addr6 bytes string

definition byte :: "nat \<Rightarrow> char" where "byte n = char_of n"

section \<open>Parsing\<close>

definition parse_octet :: "string \<Rightarrow> char option" where
  "parse_octet s =
     (case s of
        [] \<Rightarrow> None
      | c # cs \<Rightarrow>
          if cs \<noteq> [] \<and> c = CHR ''0'' then None
          else (case uint_loop 0 s of Inl e \<Rightarrow> None
                | Inr n \<Rightarrow> if n > 255 then None else Some (byte n)))"

definition parse_ipv4 :: "string \<Rightarrow> bytes option" where
  "parse_ipv4 s =
     (case map parse_octet (split_on (CHR ''.'') s) of
        [Some a, Some b, Some c, Some d] \<Rightarrow> Some [a, b, c, d]
      | _ \<Rightarrow> None)"

definition hex_val :: "char \<Rightarrow> nat option" where
  "hex_val c = (let n = byte_val c in
     if 48 \<le> n \<and> n \<le> 57 then Some (n - 48)
     else if 97 \<le> n \<and> n \<le> 102 then Some (n - 87)
     else if 65 \<le> n \<and> n \<le> 70 then Some (n - 55) else None)"

definition hex_value :: "string \<Rightarrow> nat" where
  "hex_value s = foldl (\<lambda>a c. a * 16 + (case hex_val c of None \<Rightarrow> 0 | Some d \<Rightarrow> d)) 0 s"

text \<open>The loop over the colon-separated fields: the bytes parsed so far, the position of the
  ellipsis and the rest of the string. The first argument counts the fields still free.\<close>

fun parse_v6_fields :: "nat \<Rightarrow> bytes \<Rightarrow> nat option \<Rightarrow> string \<Rightarrow> (bytes \<times> nat option \<times> string) option"
where
  "parse_v6_fields 0 ip ell s = Some (ip, ell, s)"
| "parse_v6_fields (Suc k) ip ell s =
     (let h = takeWhile (\<lambda>c. hex_val c \<noteq> None) s; rest = drop (length h) s in
      if length h > 4 \<or> h = [] then None
      else if take 1 rest = ''.'' then
        (if ell = None \<and> length ip \<noteq> 12 then None
         else if length ip + 4 > 16 then None
         else case parse_ipv4 s of None \<Rightarrow> None | Some b \<Rightarrow> Some (ip @ b, ell, []))
      else (let ip' = ip @ be_enc 2 (hex_value h) in
        case rest of
          [] \<Rightarrow> Some (ip', ell, [])
        | c # s' \<Rightarrow>
            if c \<noteq> CHR '':'' then None
            else (case s' of
               [] \<Rightarrow> None
             | d # s'' \<Rightarrow>
                 if d = CHR '':'' then
                   (if ell \<noteq> None then None
                    else if s'' = [] then Some (ip', Some (length ip'), [])
                    else parse_v6_fields k ip' (Some (length ip')) s'')
                 else parse_v6_fields k ip' ell s')))"

definition expand_ellipsis :: "bytes \<times> nat option \<times> string \<Rightarrow> bytes option" where
  "expand_ellipsis r = (case r of (ip, ell, s) \<Rightarrow>
     if s \<noteq> [] then None
     else if length ip < 16 then
       (case ell of None \<Rightarrow> None
        | Some e \<Rightarrow> Some (take e ip @ replicate (16 - length ip) (byte 0) @ drop e ip))
     else if ell \<noteq> None then None else Some ip)"

definition parse_v6_body :: "string \<Rightarrow> bytes option" where
  "parse_v6_body s =
     (if has_prefix s ''::'' then
        (if length s = 2 then Some (replicate 16 (byte 0))
         else Option.bind (parse_v6_fields 8 [] (Some 0) (drop 2 s)) expand_ellipsis)
      else Option.bind (parse_v6_fields 8 [] None s) expand_ellipsis)"

definition parse_ipv6 :: "string \<Rightarrow> netip_addr option" where
  "parse_ipv6 inp =
     (case cut_first (CHR ''%'') inp of
        None \<Rightarrow> map_option (\<lambda>b. Addr6 b []) (parse_v6_body inp)
      | Some (s, zone) \<Rightarrow> if zone = [] then None
                          else map_option (\<lambda>b. Addr6 b zone) (parse_v6_body s))"

fun addr_kind :: "string \<Rightarrow> char option" where
  "addr_kind [] = None"
| "addr_kind (c # cs) = (if c = CHR ''.'' \<or> c = CHR '':'' \<or> c = CHR ''%'' then Some c else addr_kind cs)"

definition netip_parse_addr :: "string \<Rightarrow> netip_addr option" where
  "netip_parse_addr s =
     (case addr_kind s of
        None \<Rightarrow> None
      | Some c \<Rightarrow> if c = CHR ''.'' then map_option Addr4 (parse_ipv4 s)
                  else if c = CHR '':'' then parse_ipv6 s else None)"

definition v4_in_v6_prefix :: bytes where
  "v4_in_v6_prefix = replicate 10 (byte 0) @ [byte 255, byte 255]"

definition net_parse_ip :: "string \<Rightarrow> net_ip" where
  "net_parse_ip s =
     (case netip_parse_addr s of
        None \<Rightarrow> []
      | Some (Addr4 b) \<Rightarrow> v4_in_v6_prefix @ b
      | Some (Addr6 b z) \<Rightarrow> if z \<noteq> [] then [] else b)"

section \<open>Conversions\<close>

definition ip_to4 :: "net_ip \<Rightarrow> net_ip" where
  "ip_to4 ip = (if length ip = 4 then ip
     else if length ip = 16 \<and> take 12 ip = v4_in_v6_prefix then drop 12 ip else [])"

definition ip_to16 :: "net_ip \<Rightarrow> net_ip" where
  "ip_to16 ip = (if length ip = 4 then v4_in_v6_prefix @ ip
     else if length ip = 16 then ip else [])"

lemma length_v4_prefix [simp]: "length v4_in_v6_prefix = 12"
  by (simp add: v4_in_v6_prefix_def)

lemma ip_to4_v4 [simp]: "length b = 4 \<Longrightarrow> ip_to4 b = b"
  by (simp add: ip_to4_def)

lemma ip_to4_mapped [simp]: "length b = 4 \<Longrightarrow> ip_to4 (v4_in_v6_prefix @ b) = b"
  by (simp add: ip_to4_def)

lemma ip_to4_Nil [simp]: "ip_to4 [] = []"
  by (simp add: ip_to4_def)

lemma length_ip_to4: "ip_to4 ip \<noteq> [] \<Longrightarrow> length (ip_to4 ip) = 4"
  by (auto simp: ip_to4_def split: if_splits)

lemma length_ip_to16: "ip_to16 ip \<noteq> [] \<Longrightarrow> length (ip_to16 ip) = 16"
  by (auto simp: ip_to16_def split: if_splits)

section \<open>Printing\<close>

definition v4_string :: "bytes \<Rightarrow> string" where
  "v4_string b = join_with ''.'' (map (\<lambda>c. nat_digits (byte_val c)) b)"

fun hex_digits :: "nat \<Rightarrow> string" where
  "hex_digits n = (if n < 16 then [hex_char n] else hex_digits (n div 16) @ [hex_char (n mod 16)])"

declare hex_digits.simps [simp del]

definition v6_groups :: "bytes \<Rightarrow> nat list" where
  "v6_groups b = map be_dec (chunks 2 b)"

definition zero_run :: "nat list \<Rightarrow> nat \<Rightarrow> nat" where
  "zero_run gs i = length (takeWhile (\<lambda>g. g = 0) (drop i gs))"

text \<open>The first longest run of at least two zero groups, as its start and end.\<close>

definition longest_zeros :: "nat list \<Rightarrow> nat \<times> nat" where
  "longest_zeros gs = foldl (\<lambda>(zs, ze) i. let l = zero_run gs i in
     if l \<ge> 2 \<and> l > ze - zs then (i, i + l) else (zs, ze)) (255, 255) [0..<8]"

function v6_print :: "nat list \<Rightarrow> nat \<Rightarrow> nat \<Rightarrow> nat \<Rightarrow> string" where
  "v6_print gs zs ze i =
     (if i \<ge> 8 then []
      else if i = zs then ''::'' @
        (if ze \<ge> 8 then [] else hex_digits (gs ! ze) @ v6_print gs zs ze (Suc (max i ze)))
      else (if i > 0 then '':'' else []) @ hex_digits (gs ! i) @ v6_print gs zs ze (Suc i))"
  by pat_completeness auto
termination
  by (relation "measure (\<lambda>(gs, zs, ze, i). 8 - i)") auto

declare v6_print.simps [simp del]

definition v6_string :: "bytes \<Rightarrow> string" where
  "v6_string b = (let gs = v6_groups b; (zs, ze) = longest_zeros gs in v6_print gs zs ze 0)"

definition ip_string :: "net_ip \<Rightarrow> string" where
  "ip_string ip = (if ip = [] then ''<nil>''
     else if length ip \<noteq> 4 \<and> length ip \<noteq> 16 then ''?'' @ hex_string ip
     else if ip_to4 ip \<noteq> [] then v4_string (ip_to4 ip)
     else v6_string ip)"

section \<open>IPv4 round trip\<close>

lemma dot_not_digit: "digit_val (CHR ''.'') = None"
  by (simp add: digit_val_def)

lemma parse_octet_digits: "n < 256 \<Longrightarrow> parse_octet (nat_digits n) = Some (byte n)"
proof -
  assume n: "n < 256"
  obtain c cs where c: "nat_digits n = c # cs" by (cases "nat_digits n") auto
  have lead: "cs \<noteq> [] \<Longrightarrow> c \<noteq> CHR ''0''"
  proof -
    have "digit_val c \<noteq> Some 0" if "cs \<noteq> []" "nat_digits n = c # cs" "n > 0" for n c cs
      using that
    proof (induction n arbitrary: c cs rule: nat_digits.induct)
      case (1 n)
      show ?case
      proof (cases "n < 10")
        case True
        with "1.prems" show ?thesis by (simp add: nat_digits.simps [of n])
      next
        case False
        obtain d ds where d: "nat_digits (n div 10) = d # ds"
          by (cases "nat_digits (n div 10)") auto
        with False "1.prems" have cd: "c = d" by (simp add: nat_digits.simps [of n])
        show ?thesis
        proof (cases "ds = []")
          case True
          then have "n div 10 < 10"
            using d by (cases "n div 10 < 10") (auto simp: nat_digits.simps [of "n div 10"])
          then have "d = digit_char (n div 10)"
            using d by (simp add: nat_digits.simps [of "n div 10"])
          moreover have "n div 10 \<noteq> 0" using False by simp
          ultimately show ?thesis
            using cd \<open>n div 10 < 10\<close> by simp
        next
          case ds: False
          have "0 < n div 10" using False by simp
          with "1.IH" [OF False ds d] cd show ?thesis by simp
        qed
      qed
    qed
    moreover have "cs \<noteq> [] \<Longrightarrow> n > 0"
      using c by (cases "n = 0") (auto simp: nat_digits.simps [of 0])
    ultimately have "cs \<noteq> [] \<Longrightarrow> digit_val c \<noteq> Some 0" using c by blast
    then show "cs \<noteq> [] \<Longrightarrow> c \<noteq> CHR ''0''" by (auto simp: digit_val_def)
  qed
  have "uint_loop 0 (c # cs) = Inr n" using c n uint_loop_digits [of n] by simp
  with c lead n show ?thesis by (auto simp add: parse_octet_def simp del: uint_loop.simps)
qed

lemma dot_notin_digits: "CHR ''.'' \<notin> set (nat_digits n)"
  by (rule nat_digits_no_char) (rule dot_not_digit)

lemma length4E:
  assumes "length b = 4"
  obtains a1 a2 a3 a4 where "b = [a1, a2, a3, a4]"
  using assms by (auto simp: length_Suc_conv eval_nat_numeral)

lemma parse_ipv4_string: "length b = 4 \<Longrightarrow> parse_ipv4 (v4_string b) = Some b"
  by (erule length4E)
     (simp add: parse_ipv4_def v4_string_def split_on_append dot_notin_digits
        parse_octet_digits byte_def)

lemma addr_kind_v4: "CHR '':'' \<notin> set s \<Longrightarrow> CHR ''%'' \<notin> set s \<Longrightarrow>
    addr_kind s = (if CHR ''.'' \<in> set s then Some (CHR ''.'') else None)"
  by (induction s) auto

lemma addr_kind_v4_string: "length b = 4 \<Longrightarrow> addr_kind (v4_string b) = Some (CHR ''.'')"
proof -
  assume b: "length b = 4"
  have c: "CHR '':'' \<notin> set (nat_digits n)" "CHR ''%'' \<notin> set (nat_digits n)" for n
    by (rule nat_digits_no_char, simp add: digit_val_def)+
  from b show ?thesis
    by (rule length4E) (simp add: v4_string_def addr_kind_v4 c)
qed

lemma netip_parse_v4_string:
  "length b = 4 \<Longrightarrow> netip_parse_addr (v4_string b) = Some (Addr4 b)"
  by (simp add: netip_parse_addr_def addr_kind_v4_string parse_ipv4_string)

lemma net_parse_v4_string: "length b = 4 \<Longrightarrow> net_parse_ip (v4_string b) = v4_in_v6_prefix @ b"
  by (simp add: net_parse_ip_def netip_parse_v4_string)

lemma ip_string_v4: "length b = 4 \<Longrightarrow> ip_string b = v4_string b"
  by (auto simp: ip_string_def)

lemma parse_ipv4_length: "parse_ipv4 s = Some b \<Longrightarrow> length b = 4"
  by (auto simp: parse_ipv4_def split: list.splits option.splits)

text \<open>A parsed address has 4 or 16 bytes.\<close>

lemma parse_v6_fields_length:
  "parse_v6_fields k ip ell s = Some (ip', ell', s') \<Longrightarrow> length ip + 2 * k = 16 \<Longrightarrow>
     pred_option (\<lambda>e. e \<le> length ip) ell \<Longrightarrow>
     length ip' \<le> 16 \<and> pred_option (\<lambda>e. e \<le> length ip') ell'"
proof (induction k arbitrary: ip ell s)
  case 0
  then show ?case by simp
next
  case (Suc k)
  define h where "h = takeWhile (\<lambda>c. hex_val c \<noteq> None) s"
  define rest where "rest = drop (length h) s"
  define jp where "jp = ip @ be_enc 2 (hex_value h)"
  have jp: "length jp + 2 * k = 16" "length jp = length ip + 2" "length jp \<le> 16"
    using Suc.prems(2) by (simp_all add: jp_def)
  have ell: "pred_option (\<lambda>e. e \<le> length jp) ell" "pred_option (\<lambda>e. e \<le> length ip + 4) ell"
    using Suc.prems(3) jp(2) by (cases ell; auto)+
  have IH1: "parse_v6_fields k jp ell t = Some (ip', ell', s') \<Longrightarrow> ?thesis" for t
    using Suc.IH [of jp ell t] jp(1) ell(1) by blast
  have IH2: "parse_v6_fields k jp (Some (length jp)) t = Some (ip', ell', s') \<Longrightarrow> ?thesis" for t
    using Suc.IH [of jp "Some (length jp)" t] jp(1) by simp
  have eq: "parse_v6_fields (Suc k) ip ell s = Some (ip', ell', s')" by (rule Suc.prems(1))
  note step = eq [unfolded parse_v6_fields.simps Let_def, folded h_def, folded rest_def, folded jp_def]
  show ?case
  proof (cases "take 1 rest = ''.''")
    case True
    with step ell(2) show ?thesis
      by (auto split: if_splits option.splits dest: parse_ipv4_length)
  next
    case False
    then show ?thesis
    proof (cases rest)
      case Nil
      with step False jp(3) ell(1) show ?thesis by (simp split: if_splits)
    next
      case (Cons c t)
      show ?thesis
      proof (cases t)
        case Nil
        with step False Cons show ?thesis by (simp split: if_splits)
      next
        case t: (Cons d u)
        then have rest: "rest = c # d # u" using Cons by simp
        have c: "c = CHR '':''"
          using step False rest by (simp split: if_splits)
        show ?thesis
        proof (cases "d = CHR '':''")
          case True
          with step False rest c show ?thesis
            using IH2 [of u] jp(3) by (auto split: if_splits)
        next
          case d: False
          with step False rest c have "parse_v6_fields k jp ell (d # u) = Some (ip', ell', s')"
            by (simp split: if_splits)
          then show ?thesis by (rule IH1)
        qed
      qed
    qed
  qed
qed

lemma expand_ellipsis_length:
  "length ip \<le> 16 \<Longrightarrow> pred_option (\<lambda>e. e \<le> length ip) ell \<Longrightarrow>
     expand_ellipsis (ip, ell, s) = Some b \<Longrightarrow> length b = 16"
  by (auto simp: expand_ellipsis_def split: if_splits option.splits)

lemma parse_v6_body_length: "parse_v6_body s = Some b \<Longrightarrow> length b = 16"
proof -
  have step: "Option.bind (parse_v6_fields 8 [] ell t) expand_ellipsis = Some b \<Longrightarrow>
      pred_option (\<lambda>e. e = 0) ell \<Longrightarrow> length b = 16" for ell t
  proof -
    assume *: "Option.bind (parse_v6_fields 8 [] ell t) expand_ellipsis = Some b"
      "pred_option (\<lambda>e. e = 0) ell"
    then obtain ip' ell' t' where r: "parse_v6_fields 8 [] ell t = Some (ip', ell', t')"
      "expand_ellipsis (ip', ell', t') = Some b"
      by (auto simp: bind_eq_Some_conv)
    have "pred_option (\<lambda>e. e \<le> length ([] :: bytes)) ell"
      using *(2) by (cases ell) auto
    from parse_v6_fields_length [OF r(1) _ this] expand_ellipsis_length [OF _ _ r(2)]
    show ?thesis by simp
  qed
  assume "parse_v6_body s = Some b"
  then show ?thesis
    using step [of "Some 0" "drop 2 s"] step [of None s]
    by (auto simp: parse_v6_body_def split: if_splits)
qed

lemma parse_ipv6_length: "parse_ipv6 s = Some (Addr6 b z) \<Longrightarrow> length b = 16"
  by (auto simp: parse_ipv6_def split: option.splits if_splits dest: parse_v6_body_length)

lemma parse_ipv6_not_v4: "parse_ipv6 s \<noteq> Some (Addr4 b)"
  by (auto simp: parse_ipv6_def split: option.splits if_splits)

lemma netip_parse_length:
  "netip_parse_addr s = Some (Addr4 b) \<Longrightarrow> length b = 4"
  "netip_parse_addr s = Some (Addr6 b z) \<Longrightarrow> length b = 16"
  using parse_ipv6_not_v4 [of s b]
  by (auto simp: netip_parse_addr_def split: option.splits if_splits
      dest: parse_ipv4_length parse_ipv6_length)

lemma net_parse_ip_length: "net_parse_ip s \<noteq> [] \<Longrightarrow> length (net_parse_ip s) = 16"
  by (auto simp: net_parse_ip_def split: option.splits netip_addr.splits if_splits
      dest: netip_parse_length)

lemma ip_to16_parse [simp]: "ip_to16 (net_parse_ip s) = net_parse_ip s"
  using net_parse_ip_length [of s] by (cases "net_parse_ip s = []") (simp_all add: ip_to16_def)

end
