(* ===== verification/Protocol.thy ===== *)
theory Protocol
  imports NetIP
begin

text \<open>
  The package \<open>bittorrent/common\<close>: peers, addresses, info hashes and peer identifiers, with the
  client names and versions that \<open>DecodeClient\<close> reads off a peer identifier. \<open>InfoHash\<close>,
  \<open>PeerID\<close> and \<open>Address\<close> are strings in the source, hence byte lists here.
\<close>

section \<open>Peers and addresses\<close>

type_synonym info_hash = string
type_synonym peer_id = string
type_synonym address = string

record peer =
  p_id :: peer_id
  p_ip :: address
  p_port :: int

definition info_hash_valid :: "info_hash \<Rightarrow> bool" where
  "info_hash_valid ih \<longleftrightarrow> length ih = 20"

definition peer_id_valid :: "peer_id \<Rightarrow> bool" where
  "peer_id_valid p \<longleftrightarrow> length p = 20"

definition address_valid :: "address \<Rightarrow> bool" where
  "address_valid a \<longleftrightarrow> length a \<noteq> 0"

definition address_IPv4 :: "address \<Rightarrow> net_ip option" where
  "address_IPv4 a = (let ip = net_parse_ip a in
     if ip \<noteq> [] then (if ip_to4 ip \<noteq> [] then Some (ip_to4 ip) else None) else None)"

definition address_IPv6 :: "address \<Rightarrow> net_ip option" where
  "address_IPv6 a = (let ip = net_parse_ip a in
     if ip \<noteq> [] then (if ip_to16 ip \<noteq> [] then Some (ip_to16 ip) else None) else None)"

lemma address_IPv4_length: "address_IPv4 a = Some b \<Longrightarrow> length b = 4"
  by (auto simp: address_IPv4_def Let_def length_ip_to4 split: if_splits)

lemma address_IPv6_length: "address_IPv6 a = Some b \<Longrightarrow> length b = 16"
  by (auto simp: address_IPv6_def Let_def net_parse_ip_length split: if_splits)

lemma address_IPv4_v4_string [simp]: "length b = 4 \<Longrightarrow> address_IPv4 (v4_string b) = Some b"
  by (auto simp: address_IPv4_def net_parse_v4_string Let_def)

lemma address_IPv4_implies_IPv6: "address_IPv4 a \<noteq> None \<Longrightarrow> address_IPv6 a \<noteq> None"
  by (auto simp: address_IPv4_def address_IPv6_def Let_def split: if_splits)

section \<open>Client names\<close>

definition bit_comet_client :: string where
  "bit_comet_client = ''BitComet''"

definition unknown_client :: string where
  "unknown_client = ''unknown''"

definition client_names :: "(string \<times> string) list" where
  "client_names =
  [(''qB'', ''qBittorrent''), (''TR'', ''Transmission''),
   (''LT'', ''libtorrent''), (''UT'', ''uTorrent''),
   (''BT'', ''BitTorrent''), (''DE'', ''Deluge''),
   (''AZ'', ''Azureus/Vuze''), (''BC'', bit_comet_client),
   (''BS'', ''BTSlave''), (''CD'', ''Enhanced CTorrent''),
   (''KT'', ''KTorrent''), (''LH'', ''LH-ABC''),
   (''MP'', ''MooPolice''), (''MT'', ''MoonlightTorrent''),
   (''NX'', ''Net Transport''), (''PD'', ''Pando''),
   (''QT'', ''Qt 4 Torrent''), (''RT'', ''Retriever''),
   (''SZ'', ''Shareaza''), (''SB'', ''Swiftbit''),
   (''SS'', ''SwarmScope''), (''TN'', ''TorrentDotNET''),
   (''TS'', ''Torrentstorm''), (''XT'', ''XanTorrent''),
   (''ZT'', ''ZipTorrent''), (''AR'', ''Arctic''),
   (''AV'', ''Avicora''), (''AX'', ''BitPump''),
   (''BB'', ''BitBuddy''), (''BF'', ''Bitflu''),
   (''BG'', ''BTG''), (''BR'', ''BitRocket''),
   (''BX'', ''BittorrentX''), (''CT'', ''CTorrent''),
   (''DP'', ''Propagate Data Client''), (''EB'', ''EBit''),
   (''ES'', ''electric sheep''), (''FT'', ''FoxTorrent''),
   (''FW'', ''FrostWire''), (''FX'', ''Freebox BitTorrent''),
   (''GS'', ''GSTorrent''), (''HK'', ''Hekate''),
   (''HL'', ''Halite''), (''HM'', ''hMule''),
   (''HN'', ''Hydranode''), (''IL'', ''iLivid''),
   (''JS'', ''Justseed.it client''), (''KG'', ''KGet''),
   (''LC'', ''LeechCraft''), (''LP'', ''Lphant''),
   (''MO'', ''MonoTorrent''), (''MR'', ''Miro''),
   (''NB'', ''Net::BitTorrent''), (''OS'', ''OneSwarm''),
   (''OT'', ''OmegaTorrent''), (''PB'', ''Protocol::BitTorrent''),
   (''PI'', ''PicoTorrent''), (''QD'', ''QQDownload''),
   (''SD'', ''Thunder''), (''SM'', ''SoMud''),
   (''SP'', ''BitSpirit''), (''ST'', ''SymTorrent''),
   (''SX'', ''Seedbox''), (''TL'', ''Tribler''),
   (''TT'', ''TuoTu''), (''UL'', ''uLeecher!''),
   (''UM'', [CHR 0xC2] @ [CHR 0xB5] @ ''Torrent Mac''), (''VG'', ''Vagaa''),
   (''WT'', ''BitLet''), (''WW'', ''WebTorrent''),
   (''WY'', ''FireTorrent''), (''XL'', ''Xunlei''),
   (''XS'', ''XSwifter''), (''XX'', ''Xtorrent'')]"

definition shadow_clients :: "(string \<times> string) list" where
  "shadow_clients =
     [(''ex'', bit_comet_client), (''FC'', ''FileCroc''), (''FD'', ''Free Download Manager'')]"

text \<open>
  \<open>fmt.Sscanf\<close> with a format of \<open>%wd\<close> verbs: white space before a number is skipped and does
  not count for the width, a newline is an error, a sign counts for the width, and input after
  the last verb is ignored. The result is the list of numbers if every verb matched.
\<close>

function skip_scan_space :: "string \<Rightarrow> string option" where
  "skip_scan_space s =
     (if space_at s = 0 then Some s
      else if take 1 s = [CHR 0x0A] then None
      else skip_scan_space (drop (space_at s) s))"
  by pat_completeness auto
termination
  by (relation "measure length") (auto intro!: Nat.diff_less)

declare skip_scan_space.simps [simp del]

definition scan_int :: "nat \<Rightarrow> string \<Rightarrow> (int \<times> string) option" where
  "scan_int w s =
     (case skip_scan_space s of
        None \<Rightarrow> None
      | Some t \<Rightarrow>
          (let sign = (case t of c # _ \<Rightarrow> c = CHR ''+'' \<or> c = CHR ''-'' | [] \<Rightarrow> False);
               neg = (case t of c # _ \<Rightarrow> c = CHR ''-'' | [] \<Rightarrow> False);
               body = (if sign then drop 1 t else t);
               room = (if sign then w - 1 else w);
               ds = takeWhile (\<lambda>c. digit_val c \<noteq> None) (take room body)
           in if ds = [] then None
              else case uint_loop 0 ds of
                     Inl e \<Rightarrow> None
                   | Inr n \<Rightarrow> Some (if neg then - int n else int n, drop (length ds) body)))"

fun sscanf :: "nat list \<Rightarrow> string \<Rightarrow> int list option" where
  "sscanf [] s = Some []"
| "sscanf (w # ws) s =
     (case scan_int w s of
        None \<Rightarrow> None
      | Some (n, t) \<Rightarrow> (case sscanf ws t of None \<Rightarrow> None | Some ns \<Rightarrow> Some (n # ns)))"

definition dotted :: "int list \<Rightarrow> string" where
  "dotted ns = join_with ''.'' (map itoa ns)"

definition decodeVersion :: "string \<Rightarrow> string" where
  "decodeVersion v =
     (if length v \<noteq> 4 then []
      else if list_all (\<lambda>c. digit_val c \<noteq> None) v then
        (case sscanf [1, 1, 2] v of
           Some ns \<Rightarrow> dotted ns
         | None \<Rightarrow> (case sscanf [2, 2] v of Some ns \<Rightarrow> dotted ns | None \<Rightarrow> v))
      else
        (case sscanf [1, 1, 1] v of
           Some ns \<Rightarrow> dotted ns
         | None \<Rightarrow> (case sscanf [2, 1, 1] v of
             Some ns \<Rightarrow> dotted ns
           | None \<Rightarrow> (case sscanf [1, 2, 1] v of
               Some ns \<Rightarrow> dotted ns
             | None \<Rightarrow> (case sscanf [2, 2] v of
                 Some ns \<Rightarrow> dotted ns
               | None \<Rightarrow> v)))))"

definition decodeClient :: "peer_id \<Rightarrow> string" where
  "decodeClient p =
     (if length p < 8 then unknown_client
      else if p ! 0 = CHR ''-'' then
        (let clientID = take 2 (drop 1 p);
             versionStr = take 4 (drop 3 p);
             clientName = (case map_of client_names clientID of None \<Rightarrow> clientID | Some n \<Rightarrow> n);
             version = decodeVersion versionStr
         in if version \<noteq> [] then clientName @ '' '' @ version else clientName)
      else if p ! 0 = CHR ''M'' then ''Mainline''
      else (case map_of shadow_clients (take 2 p) of
              Some n \<Rightarrow> n
            | None \<Rightarrow> if has_prefix p ''exbc'' then bit_comet_client else unknown_client))"

lemma distinct_client_names: "gm_wf client_names"
  by (simp add: client_names_def)

section \<open>Versions\<close>

lemma space_at_digit: "digit_val c \<noteq> None \<Longrightarrow> space_at (c # s) = 0"
  by (auto simp: space_at_def space_rune_def digit_val_def split: list.splits if_splits)

lemma skip_scan_space_digit: "digit_val c \<noteq> None \<Longrightarrow> skip_scan_space (c # s) = Some (c # s)"
  by (subst skip_scan_space.simps) (simp add: space_at_digit)

lemma scan_one_digit: "d < 10 \<Longrightarrow> scan_int (Suc 0) (digit_char d # s) = Some (int d, s)"
proof -
  assume d: "d < 10"
  then have "digit_char d \<noteq> CHR ''+''" "digit_char d \<noteq> CHR ''-''"
    using digit_val_char [of d] by (auto simp: digit_val_def)
  with d show ?thesis
    by (simp add: scan_int_def skip_scan_space_digit)
qed

lemma scan_two_digits:
  "d < 10 \<Longrightarrow> e < 10 \<Longrightarrow>
     scan_int 2 (digit_char d # digit_char e # s) = Some (int (10 * d + e), s)"
proof -
  assume d: "d < 10" "e < 10"
  then have "digit_char d \<noteq> CHR ''+''" "digit_char d \<noteq> CHR ''-''"
    using digit_val_char [of d] by (auto simp: digit_val_def)
  with d show ?thesis
    by (simp add: scan_int_def skip_scan_space_digit)
qed

lemma decodeVersion_digits:
  assumes "a < 10" "b < 10" "c < 10" "d < 10"
  shows "decodeVersion (map digit_char [a, b, c, d]) =
           nat_digits a @ ''.'' @ nat_digits b @ ''.'' @ nat_digits (10 * c + d)"
  using assms
  by (simp add: decodeVersion_def scan_one_digit scan_two_digits dotted_def itoa_def nat_add_distrib nat_mult_distrib)

lemma decodeVersion_not_Nil: "length v = 4 \<Longrightarrow> decodeVersion v \<noteq> []"
proof -
  assume v: "length v = 4"
  have d: "dotted ns \<noteq> []" if "sscanf ws s = Some ns" "ws \<noteq> []" for ws s ns
  proof -
    from that obtain n ms where "ns = n # ms"
      by (cases ws) (auto split: option.splits)
    moreover have "itoa n \<noteq> []" by (simp add: itoa_def)
    ultimately show ?thesis by (cases ms) (simp_all add: dotted_def)
  qed
  from v have "v \<noteq> []" by auto
  with v show ?thesis
    by (simp add: decodeVersion_def d del: sscanf.simps split: option.split)
qed

text \<open>An Azureus-style identifier with a numeric version decodes to the client's name and the
  version \<open>major.minor.patch\<close>, the patch level being the last two digits.\<close>

lemma decodeClient_azureus:
  assumes "p = CHR ''-'' # x # y # map digit_char [a, b, c, d] @ rest" "rest \<noteq> []"
    and "map_of client_names [x, y] = Some name" "a < 10" "b < 10" "c < 10" "d < 10"
  shows "decodeClient p =
     name @ '' '' @ nat_digits a @ ''.'' @ nat_digits b @ ''.'' @ nat_digits (10 * c + d)"
proof -
  have len: "\<not> length p < 8" using assms(1,2) by (cases rest) auto
  have "take 4 (drop 3 p) = map digit_char [a, b, c, d]" "take 2 (drop 1 p) = [x, y]"
    using assms(1) by (simp_all add: eval_nat_numeral)
  then show ?thesis
    using len assms(1,3) decodeVersion_digits [OF assms(4-7)]
    by (simp add: decodeClient_def Let_def)
qed

end
