(* ===== verification/Float64.thy ===== *)
theory Float64
  imports Prelude
begin

text \<open>
  The \<open>float64\<close> arithmetic of the source: a finite double is the rational it denotes, and each
  operation is the exact result rounded by \<open>f64\<close> to 53 significant bits, ties to even. Exponents
  are unbounded: the values the code computes with (minutes, seconds, rates, token counts) stay
  far from overflow and from the subnormal range.
\<close>

fun ilog2 :: "nat \<Rightarrow> nat" where
  "ilog2 n = (if n < 2 then 0 else Suc (ilog2 (n div 2)))"

declare ilog2.simps [simp del]

definition two_pow :: "int \<Rightarrow> rat" where
  "two_pow e = (if 0 \<le> e then 2 ^ nat e else 1 / 2 ^ nat (- e))"

definition exponent :: "rat \<Rightarrow> int" where
  "exponent x =
     (let (p, q) = quotient_of x;
          e = int (ilog2 (nat p)) - int (ilog2 (nat q))
      in if two_pow e \<le> x then e else e - 1)"

definition round_even :: "rat \<Rightarrow> int" where
  "round_even r =
     (let n = \<lfloor>r\<rfloor>; d = r - of_int n
      in if d < 1 / 2 then n else if d > 1 / 2 then n + 1 else if even n then n else n + 1)"

definition f64_pos :: "rat \<Rightarrow> rat" where
  "f64_pos x = (let u = two_pow (exponent x - 52) in of_int (round_even (x / u)) * u)"

definition f64 :: "rat \<Rightarrow> rat" where
  "f64 x = (if x = 0 then 0 else if x > 0 then f64_pos x else - f64_pos (- x))"

section \<open>Exponents\<close>

lemma two_pow_pos [simp]: "0 < two_pow e"
  by (simp add: two_pow_def)

lemma two_pow_Suc: "two_pow (e + 1) = 2 * two_pow e"
proof (cases "0 \<le> e")
  case True
  then have "nat (e + 1) = Suc (nat e)" by simp
  with True show ?thesis by (simp add: two_pow_def)
next
  case False
  then have "nat (- e) = Suc (nat (- (e + 1)))" by simp
  with False show ?thesis by (auto simp: two_pow_def)
qed

lemma two_pow_add_nat: "two_pow (e + int k) = two_pow e * 2 ^ k"
proof (induction k)
  case (Suc k)
  have "e + int (Suc k) = (e + int k) + 1" by simp
  then show ?case using Suc by (simp only: two_pow_Suc power_Suc)
qed simp

lemma two_pow_mono: "a \<le> b \<Longrightarrow> two_pow a \<le> two_pow b"
proof -
  assume "a \<le> b"
  then obtain k where "b = a + int k" by (metis zle_iff_zadd)
  then show ?thesis by (simp add: two_pow_add_nat)
qed

lemma two_pow_less_iff: "two_pow a < two_pow b \<Longrightarrow> a < b"
  using two_pow_mono [of b a] by linarith

lemma two_pow_diff: "two_pow (a - int k) = two_pow a / 2 ^ k"
  using two_pow_add_nat [of "a - int k" k] by (simp add: field_simps)

lemma ilog2_bounds: "0 < n \<Longrightarrow> 2 ^ ilog2 n \<le> n \<and> n < 2 * 2 ^ ilog2 n"
proof (induction n rule: ilog2.induct)
  case (1 n)
  show ?case
  proof (cases "n < 2")
    case True
    with 1 show ?thesis by (auto simp: ilog2.simps)
  next
    case False
    have "2 ^ ilog2 (n div 2) \<le> n div 2 \<and> n div 2 < 2 * 2 ^ ilog2 (n div 2)"
      using 1 False by auto
    with False show ?thesis by (subst (1 2) ilog2.simps) auto
  qed
qed

lemma exponent_bounds:
  assumes "0 < x"
  shows "two_pow (exponent x) \<le> x \<and> x < two_pow (exponent x + 1)"
proof -
  obtain p q where pq: "quotient_of x = (p, q)" by force
  have q: "0 < q" using pq by (rule quotient_of_denom_pos)
  have x: "x = of_int p / of_int q" using pq by (rule quotient_of_div)
  have p: "0 < p" using assms q by (simp add: x zero_less_divide_iff)
  define a b where "a = ilog2 (nat p)" and "b = ilog2 (nat q)"
  define e where "e = int a - int b"
  have lp: "(2::rat) ^ a \<le> of_int p" "of_int p < 2 * (2::rat) ^ a"
    and lq: "(2::rat) ^ b \<le> of_int q" "of_int q < 2 * (2::rat) ^ b"
  proof -
    have conv: "(2::rat) ^ k \<le> of_int i \<and> of_int i < 2 * (2::rat) ^ k"
      if "2 ^ k \<le> nat i \<and> nat i < 2 * 2 ^ k" "0 < i" for k i
    proof -
      have "int (2 ^ k) \<le> int (nat i)" "int (nat i) < int (2 * 2 ^ k)"
        using that(1) by (simp_all only: of_nat_le_iff of_nat_less_iff)
      then have "(2::int) ^ k \<le> i \<and> i < 2 * 2 ^ k" using that(2) by simp
      then have "(of_int (2 ^ k)::rat) \<le> of_int i \<and> (of_int i::rat) < of_int (2 * 2 ^ k)"
        by (simp only: of_int_le_iff of_int_less_iff)
      then show ?thesis by simp
    qed
    show "(2::rat) ^ a \<le> of_int p" "of_int p < 2 * (2::rat) ^ a"
      using conv [OF ilog2_bounds [of "nat p"] p] p by (auto simp: a_def)
    show "(2::rat) ^ b \<le> of_int q" "of_int q < 2 * (2::rat) ^ b"
      using conv [OF ilog2_bounds [of "nat q"] q] q by (auto simp: b_def)
  qed
  have tp: "two_pow e = 2 ^ a / 2 ^ b"
    using two_pow_diff [of "int a" b] by (simp add: e_def two_pow_def)
  have hi: "x < 2 * two_pow e"
  proof -
    have "x < (2 * 2 ^ a) / of_int q" unfolding x using lp(2) q by (intro divide_strict_right_mono) auto
    also have "\<dots> \<le> (2 * 2 ^ a) / 2 ^ b" using lq(1) q by (intro divide_left_mono) auto
    finally show ?thesis by (simp add: tp)
  qed
  have lo: "two_pow e / 2 \<le> x"
  proof -
    have "two_pow e / 2 = 2 ^ a / (2 * 2 ^ b)" by (simp add: tp)
    also have "\<dots> \<le> 2 ^ a / of_int q" using lq q by (intro divide_left_mono) auto
    also have "\<dots> \<le> x" unfolding x using lp(1) q by (intro divide_right_mono) auto
    finally show ?thesis .
  qed
  have half: "two_pow (e - 1) = two_pow e / 2" using two_pow_Suc [of "e - 1"] by simp
  show ?thesis
    using hi lo half two_pow_Suc [of e]
    by (simp add: exponent_def pq Let_def a_def [symmetric] b_def [symmetric] e_def [symmetric])
qed

section \<open>Rounding\<close>

lemma round_even_bounds: "\<bar>of_int (round_even r) - r\<bar> \<le> 1 / 2"
proof -
  have "of_int \<lfloor>r\<rfloor> \<le> r" "r < of_int \<lfloor>r\<rfloor> + 1" by linarith+
  then show ?thesis by (auto simp: round_even_def Let_def)
qed

lemma round_even_le: "r \<le> of_int n \<Longrightarrow> round_even r \<le> n"
  and round_even_ge: "of_int n \<le> r \<Longrightarrow> n \<le> round_even r"
proof -
  have b: "of_int (round_even r) \<le> r + 1 / 2" "r - 1 / 2 \<le> of_int (round_even r)"
    using round_even_bounds [of r] by linarith+
  { assume "r \<le> of_int n"
    with b(1) have "of_int (round_even r) < (of_int (n + 1) :: rat)" by simp
    then show "round_even r \<le> n" by (simp only: of_int_less_iff) }
  { assume "of_int n \<le> r"
    with b(2) have "(of_int (n - 1) :: rat) < of_int (round_even r)" by simp
    then show "n \<le> round_even r" by (simp only: of_int_less_iff) }
qed

lemma f64_pos_error:
  assumes "0 < x" "x < two_pow (e + 1)"
  shows "\<bar>f64 x - x\<bar> \<le> two_pow (e - 53)"
proof -
  define u where "u = two_pow (exponent x - 52)"
  have u: "0 < u" by (simp add: u_def)
  have "\<bar>of_int (round_even (x / u)) * u - x\<bar> = \<bar>of_int (round_even (x / u)) - x / u\<bar> * u"
    using u by (simp add: abs_mult_pos field_simps)
  also have "\<dots> \<le> 1 / 2 * u"
    using round_even_bounds u by (intro mult_right_mono) auto
  also have "1 / 2 * u = two_pow (exponent x - 53)"
    using two_pow_Suc [of "exponent x - 53"] by (simp add: u_def)
  also have "\<dots> \<le> two_pow (e - 53)"
  proof (rule two_pow_mono)
    have "two_pow (exponent x) < two_pow (e + 1)"
      using exponent_bounds [OF assms(1)] assms(2) by linarith
    from two_pow_less_iff [OF this] show "exponent x - 53 \<le> e - 53" by linarith
  qed
  finally show ?thesis using assms(1) by (simp add: f64_def f64_pos_def Let_def u_def)
qed

text \<open>Rounding never crosses an integer that a double can hold exactly.\<close>

lemma int_over_ulp:
  assumes "0 < x" "x < 2 ^ 53"
  obtains k where "(of_int n :: rat) = of_int k * two_pow (exponent x - 52)"
proof -
  have "two_pow (exponent x) < two_pow 53"
    using exponent_bounds [OF assms(1)] assms(2) by (simp add: two_pow_def)
  then have "exponent x \<le> 52" using two_pow_less_iff by fastforce
  then obtain j where j: "52 - exponent x = int j" by (metis diff_ge_0_iff_ge nonneg_int_cases)
  then have "two_pow (exponent x - 52) * 2 ^ j = 1"
    using two_pow_add_nat [of "exponent x - 52" j] by (simp add: two_pow_def)
  then have "(of_int n :: rat) = of_int (n * 2 ^ j) * two_pow (exponent x - 52)" by (simp add: mult.commute)
  then show thesis by (rule that)
qed

lemma f64_le_int: "0 \<le> x \<Longrightarrow> x < 2 ^ 53 \<Longrightarrow> x \<le> of_int n \<Longrightarrow> f64 x \<le> of_int n"
proof (cases "x = 0")
  case False
  assume x: "0 \<le> x" "x < 2 ^ 53" "x \<le> of_int n"
  with False have pos: "0 < x" by simp
  from int_over_ulp [OF pos x(2), of n] obtain k where
    k: "(of_int n :: rat) = of_int k * two_pow (exponent x - 52)" .
  have "x / two_pow (exponent x - 52) \<le> of_int k" using x(3) k by (simp add: divide_le_eq)
  from round_even_le [OF this] have "of_int (round_even (x / two_pow (exponent x - 52))) \<le> (of_int k :: rat)"
    by simp
  then show ?thesis using pos by (simp add: f64_def f64_pos_def Let_def k mult_right_mono)
qed (simp add: f64_def)

lemma f64_ge_int: "0 \<le> x \<Longrightarrow> x < 2 ^ 53 \<Longrightarrow> of_int n \<le> x \<Longrightarrow> of_int n \<le> f64 x"
proof (cases "x = 0")
  case False
  assume x: "0 \<le> x" "x < 2 ^ 53" "of_int n \<le> x"
  with False have pos: "0 < x" by simp
  from int_over_ulp [OF pos x(2), of n] obtain k where
    k: "(of_int n :: rat) = of_int k * two_pow (exponent x - 52)" .
  have "of_int k \<le> x / two_pow (exponent x - 52)" using x(3) k by (simp add: le_divide_eq)
  from round_even_ge [OF this] have "(of_int k :: rat) \<le> of_int (round_even (x / two_pow (exponent x - 52)))"
    by simp
  then show ?thesis using pos by (simp add: f64_def f64_pos_def Let_def k mult_right_mono)
qed (simp add: f64_def)

lemma f64_int [simp]: "0 \<le> n \<Longrightarrow> n < 2 ^ 53 \<Longrightarrow> f64 (of_int n) = of_int n"
proof -
  assume n: "0 \<le> n" "n < 2 ^ 53"
  then have "(of_int n :: rat) < of_int (2 ^ 53)" by (simp only: of_int_less_iff)
  with n show ?thesis
    using f64_le_int [of "of_int n" n] f64_ge_int [of "of_int n" n] by simp
qed

section \<open>Durations as floating-point minutes and seconds\<close>

text \<open>\<open>d.Minutes()\<close> and \<open>d.Seconds()\<close> split the duration by truncated division.\<close>

definition dur_float :: "duration \<Rightarrow> duration \<Rightarrow> rat" where
  "dur_float u d =
     (let w = sgn d * (\<bar>d\<bar> div u); n = sgn d * (\<bar>d\<bar> mod u)
      in f64 (f64 (of_int w) + f64 (f64 (of_int n) / of_int u)))"

definition dur_minutes :: "duration \<Rightarrow> rat" where
  "dur_minutes = dur_float minute"

definition dur_seconds :: "duration \<Rightarrow> rat" where
  "dur_seconds = dur_float second"

text \<open>Comparing the minutes of a duration with a whole number of minutes, up to 45 days, is exact.\<close>

text \<open>The minutes of a duration: whole ones plus a rounded fraction in the unit interval, rounded again.\<close>

lemma dur_minutes_parts:
  assumes "0 \<le> d" "d \<le> max_duration"
  defines "w \<equiv> d div minute" and "n \<equiv> d mod minute"
  shows "dur_minutes d = f64 (of_int w + f64 (of_int n / of_int minute))"
    and "0 \<le> f64 (of_int n / of_int minute)" "f64 (of_int n / of_int minute) \<le> 1"
    and "0 \<le> of_int w + f64 (of_int n / of_int minute)" "of_int w + f64 (of_int n / of_int minute) < 2 ^ 53"
proof -
  define f where "f = f64 (of_int n / of_int minute)"
  have n: "0 \<le> n" "n < minute" by (simp_all add: n_def minute_def)
  have w: "0 \<le> w" "w < 2 ^ 28" using assms(1,2) by (auto simp: w_def minute_def max_duration_def)
  have "sgn d * (\<bar>d\<bar> div minute) = w" "sgn d * (\<bar>d\<bar> mod minute) = n"
    using assms(1) by (cases "d = 0"; simp add: w_def n_def)+
  moreover have "n < 2 ^ 53" "w < 2 ^ 53" using n(2) w(2) by (auto simp: minute_def)
  ultimately show "dur_minutes d = f64 (of_int w + f64 (of_int n / of_int minute))"
    using n w by (simp add: dur_minutes_def dur_float_def)
  have "0 \<le> (of_int n :: rat) / of_int minute" "(of_int n :: rat) / of_int minute \<le> of_int 1"
    using n by (auto simp: minute_def)
  then have f: "0 \<le> f" "f \<le> 1"
    using f64_ge_int [of "of_int n / of_int minute" 0] f64_le_int [of "of_int n / of_int minute" 1]
    by (auto simp: f_def)
  have "(of_int (w + 1) :: rat) \<le> of_int (2 ^ 28)" using w by (simp only: of_int_le_iff)
  then have "0 \<le> of_int w + f" "of_int w + f < 2 ^ 53" using f w by auto
  with f show "0 \<le> f64 (of_int n / of_int minute)" "f64 (of_int n / of_int minute) \<le> 1"
    "0 \<le> of_int w + f64 (of_int n / of_int minute)" "of_int w + f64 (of_int n / of_int minute) < 2 ^ 53"
    by (simp_all add: f_def)
qed

text \<open>Up to an age of 65535 minutes a nanosecond more is not rounded away.\<close>

lemma minute_fraction_survives:
  fixes n w :: int
  assumes "1 \<le> n" "n < minute" "0 \<le> w" "w \<le> 65535"
  defines "f \<equiv> f64 (of_int n / of_int minute)"
  assumes f: "f \<le> 1"
  shows "of_int w < f64 (of_int w + f)"
proof -
  have "(1 :: rat) \<le> of_int n" using assms(1) by simp
  then have x: "1 / 60000000000 \<le> (of_int n :: rat) / of_int minute" by (simp add: minute_def)
  have x1: "(of_int n :: rat) / of_int minute \<le> of_int 1" using assms(2) by (simp add: minute_def)
  have "(0 :: rat) < 1 / 60000000000" by simp
  with x have "0 < (of_int n :: rat) / of_int minute" by linarith
  then have "\<bar>f - of_int n / of_int minute\<bar> \<le> two_pow (0 - 53)"
    unfolding f_def using x1 by (intro f64_pos_error) (auto simp: two_pow_def)
  then have "of_int n / of_int minute - f \<le> 1 / 9007199254740992"
    using abs_le_D2 [of "f - of_int n / of_int minute" "two_pow (0 - 53)"] by (simp add: two_pow_def)
  then have f1: "1 / 70000000000 \<le> f" using x by linarith
  have w: "0 \<le> (of_int w :: rat)" "(of_int w :: rat) \<le> of_int 65535" using assms(3,4) by (simp_all only: of_int_le_iff of_int_0_le_iff)
  then have "of_int w + f < two_pow (16 + 1)" using f by (simp add: two_pow_def)
  moreover have "0 < of_int w + f" using w f1 by linarith
  ultimately have "\<bar>f64 (of_int w + f) - (of_int w + f)\<bar> \<le> two_pow (16 - 53)"
    by (intro f64_pos_error)
  then show ?thesis
    using f1 abs_le_D2 [of "f64 (of_int w + f) - (of_int w + f)" "two_pow (16 - 53)"] by (simp add: two_pow_def)
qed

lemma dur_minutes_greater:
  assumes d: "0 \<le> d" "d \<le> max_duration" and A: "0 \<le> A" "A \<le> 65535"
  shows "of_int A < dur_minutes d \<longleftrightarrow> A * minute < d"
proof -
  define w n where "w = d div minute" and "n = d mod minute"
  define f where "f = f64 (of_int n / of_int minute)"
  note parts = dur_minutes_parts [OF d, folded w_def n_def, folded f_def]
  have dwn: "d = w * minute + n" by (simp add: w_def n_def)
  have n: "0 \<le> n" "n < minute" by (simp_all add: n_def minute_def)
  consider (below) "w < A" | (same) "w = A" | (above) "A < w" by linarith
  then show ?thesis
  proof cases
    case below
    then have "(of_int (w + 1) :: rat) \<le> of_int A" by (simp only: of_int_le_iff)
    then have "f64 (of_int w + f) \<le> of_int A" using parts(3) by (intro f64_le_int parts(4,5)) simp
    moreover have "(w + 1) * minute \<le> A * minute" using below by (intro mult_right_mono) (simp_all add: minute_def)
    then have "d \<le> A * minute" using dwn n(2) by (simp add: algebra_simps)
    ultimately show ?thesis by (simp add: parts(1))
  next
    case same
    show ?thesis
    proof (cases "n = 0")
      case True
      then have "f64 (of_int w + f) \<le> of_int A" using same by (intro f64_le_int parts(4,5)) (simp add: f_def f64_def)
      then have "\<not> of_int A < dur_minutes d" by (simp add: parts(1))
      moreover have "\<not> A * minute < d" using True same dwn by simp
      ultimately show ?thesis by simp
    next
      case False
      then have "of_int w < f64 (of_int w + f)"
        using n A same minute_fraction_survives [of n w] parts(3) by (simp add: f_def)
      then have "of_int A < dur_minutes d" using same by (simp add: parts(1))
      moreover have "A * minute < d" using False n(1) same dwn by simp
      ultimately show ?thesis by simp
    qed
  next
    case above
    then have "(of_int (A + 1) :: rat) \<le> of_int w" by (simp only: of_int_le_iff)
    then have "of_int (A + 1) \<le> f64 (of_int w + f)" using parts(2) by (intro f64_ge_int parts(4,5)) simp
    moreover have "(A + 1) * minute \<le> w * minute" using above by (intro mult_right_mono) (simp_all add: minute_def)
    then have "A * minute < d" using dwn n(1) by (simp add: algebra_simps minute_def)
    ultimately show ?thesis by (simp add: parts(1))
  qed
qed

end
