(* ===== verification/Request.thy ===== *)
theory Request
  imports Protocol Float64
begin

text \<open>
  The package \<open>bittorrent/tracker\<close>: announce requests and \<open>MakeRequest\<close>, which validates the
  textual parameters of an announce. The clock is an argument. Error values carry which check
  failed; the message text is not modelled.
\<close>

definition default_num_want :: u64 where "default_num_want = 50"
definition max_num_want :: u64 where "max_num_want = 200"

definition normalizeNumWant :: "u64 \<Rightarrow> u64" where
  "normalizeNumWant v =
     (if v = 0 then default_num_want else if v > max_num_want then max_num_want else v)"

record request =
  rq_timestamp :: gotime
  rq_remote :: address
  rq_hash :: info_hash
  rq_peer_id :: peer_id
  rq_port :: int
  rq_uploaded :: u64
  rq_downloaded :: u64
  rq_left :: u64
  rq_ip :: address
  rq_num_want :: u64
  rq_compact :: bool
  rq_no_peer_id :: bool
  rq_event :: string
  rq_user_agent :: string

datatype request_error =
    InvalidInfoHash
  | InvalidPeerID
  | PortNotInRange int
  | CannotParse string num_error

definition ev_started :: string where "ev_started = ''started''"
definition ev_stopped :: string where "ev_stopped = ''stopped''"
definition ev_completed :: string where "ev_completed = ''completed''"

definition request_peer :: "request \<Rightarrow> peer" where
  "request_peer r =
     (let p = \<lparr>p_id = rq_peer_id r, p_ip = rq_ip r, p_port = rq_port r\<rparr>
      in if address_valid (p_ip p) then p else p\<lparr>p_ip := rq_remote r\<rparr>)"

text \<open>The age of a request in minutes, a \<open>float64\<close>.\<close>

definition timeStampDelta :: "gotime \<Rightarrow> request \<Rightarrow> rat" where
  "timeStampDelta now r = dur_minutes (time_sub now (rq_timestamp r))"

definition parse_field :: "string \<Rightarrow> string \<Rightarrow> request_error + u64" where
  "parse_field name s =
     (case parse_uint64 s of Inl e \<Rightarrow> Inl (CannotParse name e) | Inr n \<Rightarrow> Inr (of_nat n))"

definition known_event :: "string \<Rightarrow> bool" where
  "known_event e \<longleftrightarrow> e = [] \<or> e = ev_started \<or> e = ev_stopped \<or> e = ev_completed"

definition makeRequest ::
  "gotime \<Rightarrow> address \<Rightarrow> info_hash \<Rightarrow> peer_id \<Rightarrow> string \<Rightarrow> string \<Rightarrow> string \<Rightarrow> string \<Rightarrow>
   address \<Rightarrow> string \<Rightarrow> string \<Rightarrow> string \<Rightarrow> string \<Rightarrow> string \<Rightarrow> request_error + request" where
  "makeRequest now remote infoHash peerID port uploaded downloaded left ip numwant event ua
     compactFlag noPeerIDFlag =
     (if \<not> info_hash_valid infoHash then Inl InvalidInfoHash
      else if \<not> peer_id_valid peerID then Inl InvalidPeerID
      else case atoi port of
        Inl e \<Rightarrow> Inl (CannotParse ''port'' e)
      | Inr d \<Rightarrow>
          if d < 1 \<or> d > 65535 then Inl (PortNotInRange d)
          else case parse_field ''uploaded'' uploaded of
            Inl e \<Rightarrow> Inl e
          | Inr up \<Rightarrow> (case parse_field ''downloaded'' downloaded of
              Inl e \<Rightarrow> Inl e
            | Inr dn \<Rightarrow> (case parse_field ''left'' left of
                Inl e \<Rightarrow> Inl e
              | Inr lf \<Rightarrow>
                  (let want = (if numwant \<noteq> [] then
                                 (case parse_uint64 numwant of Inr n \<Rightarrow> of_nat n | Inl e \<Rightarrow> 0)
                               else 0)
                   in Inr \<lparr>rq_timestamp = now, rq_remote = remote, rq_hash = infoHash,
                           rq_peer_id = peerID, rq_port = d, rq_uploaded = up,
                           rq_downloaded = dn, rq_left = lf, rq_ip = ip,
                           rq_num_want = normalizeNumWant want,
                           rq_compact = (compactFlag = ''1''),
                           rq_no_peer_id = (noPeerIDFlag = ''1''),
                           rq_event = (if known_event event then event else []),
                           rq_user_agent = ua\<rparr>))))"

section \<open>Accepted requests are well formed\<close>

definition request_ok :: "request \<Rightarrow> bool" where
  "request_ok r \<longleftrightarrow>
     info_hash_valid (rq_hash r) \<and> peer_id_valid (rq_peer_id r)
     \<and> 1 \<le> rq_port r \<and> rq_port r \<le> 65535
     \<and> 1 \<le> rq_num_want r \<and> rq_num_want r \<le> max_num_want
     \<and> known_event (rq_event r)"

lemma normalizeNumWant_range: "1 \<le> normalizeNumWant v \<and> normalizeNumWant v \<le> max_num_want"
proof -
  have "1 \<le> v" if "v \<noteq> 0"
    using that word_less_1 [of v] by (simp add: not_less [symmetric])
  then show ?thesis
    by (auto simp: normalizeNumWant_def default_num_want_def max_num_want_def)
qed

lemma normalizeNumWant_of_nat:
  assumes "k < 2 ^ 64"
  shows "normalizeNumWant (of_nat k) = (if k = 0 then 50 else of_nat (min k 200))"
proof -
  have k: "unat (of_nat k :: u64) = k" using assms by (simp add: unat_of_nat)
  have "(of_nat k :: u64) = 0 \<longleftrightarrow> k = 0"
    by (subst unat_0_iff [symmetric], subst k) (rule refl)
  moreover have "(of_nat k :: u64) > 200 \<longleftrightarrow> k > 200"
    by (subst word_less_nat_alt, subst k) simp
  ultimately show ?thesis
    by (auto simp: normalizeNumWant_def default_num_want_def max_num_want_def min_def)
qed

lemma known_event_Nil [simp]: "known_event []"
  by (simp add: known_event_def)

lemma makeRequest_ok:
  "makeRequest now remote ih pid port up dn lf ip nw ev ua cf nf = Inr r \<Longrightarrow> request_ok r"
  by (auto simp: makeRequest_def request_ok_def Let_def normalizeNumWant_range
      split: if_splits sum.splits)

lemma makeRequest_fields:
  assumes "makeRequest now remote ih pid port up dn lf ip nw ev ua cf nf = Inr r"
  shows "rq_hash r = ih" "rq_peer_id r = pid" "rq_remote r = remote" "rq_ip r = ip"
    "rq_timestamp r = now" "atoi port = Inr (rq_port r)"
    "rq_event r = (if known_event ev then ev else [])" "rq_user_agent r = ua"
  using assms by (auto simp: makeRequest_def Let_def split: if_splits sum.splits)

text \<open>The complete characterisation of acceptance.\<close>

lemma makeRequest_accepts_iff:
  "(\<exists>r. makeRequest now remote ih pid port up dn lf ip nw ev ua cf nf = Inr r) \<longleftrightarrow>
     length ih = 20 \<and> length pid = 20 \<and> (\<exists>d. atoi port = Inr d \<and> 1 \<le> d \<and> d \<le> 65535)
     \<and> (\<exists>n. parse_uint64 up = Inr n) \<and> (\<exists>n. parse_uint64 dn = Inr n) \<and> (\<exists>n. parse_uint64 lf = Inr n)"
  by (auto simp: makeRequest_def parse_field_def Let_def info_hash_valid_def peer_id_valid_def
      split: if_splits sum.splits)

lemma request_peer_simps [simp]:
  "p_id (request_peer r) = rq_peer_id r"
  "p_port (request_peer r) = rq_port r"
  by (auto simp: request_peer_def Let_def)

lemma request_peer_ip: "p_ip (request_peer r) = (if rq_ip r = [] then rq_remote r else rq_ip r)"
  by (auto simp: request_peer_def Let_def address_valid_def)

end
