(* ===== verification/GoUrl.thy ===== *)
theory GoUrl
  imports NetIP
begin

text \<open>
  \<open>url.Parse\<close> of \<open>net/url\<close> as far as the source reads its result: scheme, host, path and raw
  query, with the checks that make it fail. The bracketed-host and colon checks are those of
  Go 1.26, the version go.mod names.
\<close>

record url =
  u_scheme :: string
  u_opaque :: string
  u_host :: string
  u_path :: string
  u_raw_query :: string

datatype url_mode = EncPath | EncHost | EncZone | EncUser | EncFragment

definition host_char :: "char \<Rightarrow> bool" where
  "host_char c \<longleftrightarrow> is_alnum c \<or> c \<in> set ''!$&()*+,;=:[]<>-_.~'' \<or> byte_val c = 39 \<or> byte_val c = 34"

text \<open>\<open>unescape\<close>: percent decoding with the checks of the host and zone modes.\<close>

function unescape :: "url_mode \<Rightarrow> string \<Rightarrow> string option" where
  "unescape m [] = Some []"
| "unescape m (c # s) =
     (if c = CHR ''%'' then
        (case s of
           a # b # t \<Rightarrow>
             (case (hex_val a, hex_val b) of
                (Some x, Some y) \<Rightarrow>
                  if m = EncHost \<and> x < 8 \<and> \<not> (a = CHR ''2'' \<and> b = CHR ''5'') then None
                  else if m = EncZone \<and> \<not> (a = CHR ''2'' \<and> b = CHR ''5'') \<and> 16 * x + y \<noteq> 32
                       \<and> \<not> host_char (char_of (16 * x + y)) then None
                  else map_option (\<lambda>r. char_of (16 * x + y) # r) (unescape m t)
              | _ \<Rightarrow> None)
         | _ \<Rightarrow> None)
      else if (m = EncHost \<or> m = EncZone) \<and> byte_val c < 128 \<and> \<not> host_char c then None
      else map_option (\<lambda>r. c # r) (unescape m s))"
  by pat_completeness auto
termination
  by (relation "measure (\<lambda>(m, s). length s)") auto

fun get_scheme_loop :: "string \<Rightarrow> string \<Rightarrow> (string \<times> string) option option" where
  \<comment> \<open>None: error; Some None: no scheme; otherwise the scheme and the rest\<close>
  "get_scheme_loop seen [] = Some None"
| "get_scheme_loop seen (c # s) =
     (if is_letter c then get_scheme_loop (seen @ [c]) s
      else if digit_val c \<noteq> None \<or> c = CHR ''+'' \<or> c = CHR ''-'' \<or> c = CHR ''.'' then
        (if seen = [] then Some None else get_scheme_loop (seen @ [c]) s)
      else if c = CHR '':'' then (if seen = [] then None else Some (Some (seen, s)))
      else Some None)"

definition get_scheme :: "string \<Rightarrow> (string \<times> string) option" where
  "get_scheme s = (case get_scheme_loop [] s of
     None \<Rightarrow> None | Some None \<Rightarrow> Some ([], s) | Some (Some r) \<Rightarrow> Some r)"

definition valid_optional_port :: "string \<Rightarrow> bool" where
  "valid_optional_port p \<longleftrightarrow> (case p of [] \<Rightarrow> True
     | c # cs \<Rightarrow> c = CHR '':'' \<and> list_all (\<lambda>d. digit_val d \<noteq> None) cs)"

text \<open>\<open>strings.Index(s, "%25")\<close> as the text before it.\<close>

fun before_pct25 :: "string \<Rightarrow> string \<Rightarrow> string option" where
  "before_pct25 seen [] = None"
| "before_pct25 seen (c # s) =
     (if has_prefix (c # s) ''%25'' then Some seen else before_pct25 (seen @ [c]) s)"

definition url_parse_host :: "string \<Rightarrow> string option" where
  "url_parse_host host =
     (case cut_last (CHR ''['') host of
        Some (pre, inner) \<Rightarrow>
          if pre \<noteq> [] then None
          else (case cut_last (CHR '']'') inner of
              None \<Rightarrow> None
            | Some (hostname, colonPort) \<Rightarrow>
                if \<not> valid_optional_port colonPort then None
                else (let un = (case before_pct25 [] hostname of
                         Some h \<Rightarrow> (case (unescape EncHost h, unescape EncZone (drop (length h) hostname)) of
                              (Some a, Some b) \<Rightarrow> Some (a @ b) | _ \<Rightarrow> None)
                       | None \<Rightarrow> unescape EncHost hostname)
                  in case un of
                       None \<Rightarrow> None
                     | Some h \<Rightarrow> (case netip_parse_addr h of
                           Some (Addr6 b z) \<Rightarrow> Some (''['' @ h @ '']'' @ colonPort)
                         | _ \<Rightarrow> None)))
      | None \<Rightarrow>
          (case cut_first (CHR '':'') host of
             Some (h, pt) \<Rightarrow> if valid_optional_port (CHR '':'' # pt) then unescape EncHost host else None
           | None \<Rightarrow> unescape EncHost host))"

definition valid_userinfo :: "string \<Rightarrow> bool" where
  "valid_userinfo s \<longleftrightarrow>
     list_all (\<lambda>c. is_alnum c \<or> c \<in> set ''-._:~!$&()*+,;=%@'' \<or> byte_val c = 39) s"

definition url_parse_authority :: "string \<Rightarrow> string option" where
  "url_parse_authority a =
     (case cut_last (CHR ''@'') a of
        None \<Rightarrow> url_parse_host a
      | Some (ui, h) \<Rightarrow>
          (case url_parse_host h of
             None \<Rightarrow> None
           | Some host \<Rightarrow>
               if \<not> valid_userinfo ui then None
               else (case cut_first (CHR '':'') ui of
                   None \<Rightarrow> (case unescape EncUser ui of None \<Rightarrow> None | Some _ \<Rightarrow> Some host)
                 | Some (u, p) \<Rightarrow> (case (unescape EncUser u, unescape EncUser p) of
                      (Some _, Some _) \<Rightarrow> Some host | _ \<Rightarrow> None))))"

definition has_ctl_byte :: "string \<Rightarrow> bool" where
  "has_ctl_byte s \<longleftrightarrow> list_ex (\<lambda>c. byte_val c < 32 \<or> byte_val c = 127) s"

definition url_parse_rest :: "string \<Rightarrow> string \<Rightarrow> url option" where
  "url_parse_rest scheme rest0 =
     (let (rest, query) = (case cut_first (CHR ''?'') rest0 of None \<Rightarrow> (rest0, []) | Some r \<Rightarrow> r);
          base = \<lparr>u_scheme = scheme, u_opaque = [], u_host = [], u_path = [], u_raw_query = query\<rparr>
      in if \<not> has_prefix rest ''/'' \<and> scheme \<noteq> [] then Some (base\<lparr>u_opaque := rest\<rparr>)
         else if \<not> has_prefix rest ''/'' \<and>
           CHR '':'' \<in> set (takeWhile (\<lambda>c. c \<noteq> CHR ''/'') rest) then None
         else if (scheme \<noteq> [] \<or> \<not> has_prefix rest ''///'') \<and> has_prefix rest ''//'' then
           (let body = drop 2 rest;
                authority = takeWhile (\<lambda>c. c \<noteq> CHR ''/'') body;
                path = drop (length authority) body
            in case url_parse_authority authority of
                 None \<Rightarrow> None
               | Some host \<Rightarrow> map_option (\<lambda>p. base\<lparr>u_host := host, u_path := p\<rparr>) (unescape EncPath path))
         else map_option (\<lambda>p. base\<lparr>u_path := p\<rparr>) (unescape EncPath rest))"

definition url_parse :: "string \<Rightarrow> url option" where
  "url_parse raw =
     (let (u, frag) = (case cut_first (CHR ''#'') raw of None \<Rightarrow> (raw, []) | Some r \<Rightarrow> r)
      in if has_ctl_byte u then None
         else if unescape EncFragment frag = None then None
         else if u = ''*'' then
           Some \<lparr>u_scheme = [], u_opaque = [], u_host = [], u_path = ''*'', u_raw_query = []\<rparr>
         else case get_scheme u of
            None \<Rightarrow> None
          | Some (scheme, rest) \<Rightarrow> url_parse_rest (to_lower scheme) rest)"

definition url_split_host_port :: "url \<Rightarrow> string \<times> string" where
  "url_split_host_port u =
     (let (h, p) = (case cut_last (CHR '':'') (u_host u) of
          Some (a, b) \<Rightarrow> if valid_optional_port (CHR '':'' # b) then (a, b) else (u_host u, [])
        | None \<Rightarrow> (u_host u, []))
      in (if has_prefix h ''['' \<and> has_suffix h '']'' then butlast (tl h) else h, p))"

definition url_hostname :: "url \<Rightarrow> string" where
  "url_hostname u = fst (url_split_host_port u)"

definition url_port :: "url \<Rightarrow> string" where
  "url_port u = snd (url_split_host_port u)"

lemma url_hostname_empty: "u_host u = [] \<Longrightarrow> url_hostname u = []"
  by (simp add: url_hostname_def url_split_host_port_def cut_last_def cut_first_def)

end
