(* ===== verification/Forwards.thy ===== *)
theory Forwards
  imports GoUrl
begin

text \<open>
  Forwarder definitions (common/forwards.go) and the pure parts of the start-up checks of
  forwarderManager.go: main domains, scores, the blocked addresses and the selection of one
  forwarder per main domain.
\<close>

section \<open>Forwarders\<close>

record forward =
  f_name :: string
  f_uri :: string
  f_ip :: string
  f_host :: string

definition protocol_udp :: string where "protocol_udp = ''udp''"
definition protocol_http :: string where "protocol_http = ''http''"
definition protocol_https :: string where "protocol_https = ''https''"

definition getName :: "forward \<Rightarrow> string" where
  "getName f =
     (if f_name f \<noteq> [] then f_name f
      else case url_parse (f_uri f) of
             Some u \<Rightarrow> if u_host u \<noteq> [] then u_host u else f_uri f
           | None \<Rightarrow> f_uri f)"

definition getProtocol :: "forward \<Rightarrow> string" where
  "getProtocol f =
     (case url_parse (f_uri f) of
        Some u \<Rightarrow> if u_scheme u = protocol_udp \<or> u_scheme u = protocol_https \<or> u_scheme u = protocol_http
                  then u_scheme u else protocol_http
      | None \<Rightarrow> protocol_http)"

lemma getProtocol_known: "getProtocol f \<in> {protocol_udp, protocol_http, protocol_https}"
  by (auto simp: getProtocol_def split: option.splits)

lemma getName_empty_iff: "getName f = [] \<longleftrightarrow> f_name f = [] \<and> f_uri f = []"
proof -
  have "url_parse [] = Some \<lparr>u_scheme = [], u_opaque = [], u_host = [], u_path = [], u_raw_query = []\<rparr>"
    by (simp add: url_parse_def cut_first_def has_ctl_byte_def get_scheme_def url_parse_rest_def
        to_lower_def Let_def)
  then show ?thesis
    by (auto simp: getName_def split: option.splits)
qed

section \<open>Blocked addresses\<close>

definition isBlockedIP :: "net_ip \<Rightarrow> bool" where
  "isBlockedIP ip =
     (if ip = [] then False
      else if ip_to4 ip = [] then False
      else (let first = byte_val (ip_to4 ip ! 0); second = byte_val (ip_to4 ip ! 1) in
        first = 127 \<or> first = 10
        \<or> (first = 172 \<and> second \<ge> 16 \<and> second \<le> 31)
        \<or> (first = 192 \<and> second = 168)))"

datatype 'e dns_error = EmptyHostname | LookupFailed 'e

text \<open>Name resolution is a service: \<open>lookup_ip\<close> is a parameter.\<close>

definition isBlockedByDNS ::
  "(string \<Rightarrow> 'e + net_ip list) \<Rightarrow> string \<Rightarrow> 'e dns_error + bool \<times> net_ip list" where
  "isBlockedByDNS lookup_ip hostname =
     (if hostname = [] then Inl EmptyHostname
      else case lookup_ip hostname of
             Inl e \<Rightarrow> Inl (LookupFailed e)
           | Inr ips \<Rightarrow> Inr (list_ex isBlockedIP ips, ips))"

text \<open>The blocked IPv4 addresses as a set of ranges of 32-bit addresses: the loopback block and
  the three private blocks of RFC 1918.\<close>

definition in_block :: "nat \<Rightarrow> nat \<Rightarrow> nat \<Rightarrow> bool" where
  "in_block base len a \<longleftrightarrow> a div 2 ^ (32 - len) = base div 2 ^ (32 - len)"

definition blocked_address :: "nat \<Rightarrow> bool" where
  "blocked_address a \<longleftrightarrow>
     in_block 0x7F000000 8 a \<or> in_block 0x0A000000 8 a
     \<or> in_block 0xAC100000 12 a \<or> in_block 0xC0A80000 16 a"

lemma be_dec4: "be_dec [a, b, c, d] =
    ((byte_val a * 256 + byte_val b) * 256 + byte_val c) * 256 + byte_val d"
  by (simp add: be_dec_def)

lemma be_dec4_div:
  "be_dec [a, b, c, d] div 16777216 = byte_val a"
  "be_dec [a, b, c, d] div 65536 = byte_val a * 256 + byte_val b"
  "be_dec [a, b, c, d] div 1048576 = (byte_val a * 256 + byte_val b) div 16"
proof -
  have c: "byte_val c * 256 + byte_val d < 65536"
    using byte_val_less [of c] byte_val_less [of d] by linarith
  have e: "be_dec [a, b, c, d] = (byte_val a * 256 + byte_val b) * 65536 + (byte_val c * 256 + byte_val d)"
    by (simp add: be_dec4)
  show d2: "be_dec [a, b, c, d] div 65536 = byte_val a * 256 + byte_val b"
    unfolding e using c by simp
  have "be_dec [a, b, c, d] div 16777216 = be_dec [a, b, c, d] div 65536 div 256"
    by (simp add: div_mult2_eq [symmetric])
  then show "be_dec [a, b, c, d] div 16777216 = byte_val a"
    unfolding d2 using byte_val_less [of b] by simp
  have "be_dec [a, b, c, d] div 1048576 = be_dec [a, b, c, d] div 65536 div 16"
    by (simp add: div_mult2_eq [symmetric])
  then show "be_dec [a, b, c, d] div 1048576 = (byte_val a * 256 + byte_val b) div 16"
    unfolding d2 .
qed

lemma isBlockedIP_ranges:
  assumes "length b = 4"
  shows "isBlockedIP b \<longleftrightarrow> blocked_address (be_dec b)"
proof -
  obtain x y z w where b: "b = [x, y, z, w]" using assms by (rule length4E)
  have y: "byte_val y < 256" by simp
  have arith: "m < 256 \<Longrightarrow> (n * 256 + m) div 16 = 2753 \<longleftrightarrow> n = 172 \<and> 16 \<le> m \<and> m \<le> 31"
    "m < 256 \<Longrightarrow> n * 256 + m = 49320 \<longleftrightarrow> n = 192 \<and> m = 168" for n m :: nat
  proof -
    assume m: "m < 256"
    have "(n * 256 + m) div 16 = 2753 \<longleftrightarrow> 44048 \<le> n * 256 + m \<and> n * 256 + m < 44064"
      using div_nat_eqI [of 16 2753 "n * 256 + m"] div_times_less_eq_dividend [of "n * 256 + m" 16]
        dividend_less_div_times [of 16 "n * 256 + m"] by auto
    also have "\<dots> \<longleftrightarrow> n = 172 \<and> 16 \<le> m \<and> m \<le> 31"
    proof
      assume r: "44048 \<le> n * 256 + m \<and> n * 256 + m < 44064"
      then have "n = 172" using m by linarith
      with r show "n = 172 \<and> 16 \<le> m \<and> m \<le> 31" by simp
    qed simp
    finally show "(n * 256 + m) div 16 = 2753 \<longleftrightarrow> n = 172 \<and> 16 \<le> m \<and> m \<le> 31" .
    show "n * 256 + m = 49320 \<longleftrightarrow> n = 192 \<and> m = 168"
    proof
      assume r: "n * 256 + m = 49320"
      then have "n = 192" using m by linarith
      with r show "n = 192 \<and> m = 168" by simp
    qed simp
  qed
  note d12 = arith(1) [OF y, of "byte_val x"] and d16 = arith(2) [OF y, of "byte_val x"]
  have "ip_to4 [x, y, z, w] = [x, y, z, w]" by simp
  then have lhs: "isBlockedIP b \<longleftrightarrow> byte_val x = 127 \<or> byte_val x = 10
      \<or> (byte_val x = 172 \<and> 16 \<le> byte_val y \<and> byte_val y \<le> 31)
      \<or> (byte_val x = 192 \<and> byte_val y = 168)"
    by (simp add: isBlockedIP_def b Let_def del: of_char_eq_iff)
  have rhs: "blocked_address (be_dec b) \<longleftrightarrow> byte_val x = 127 \<or> byte_val x = 10
      \<or> (byte_val x * 256 + byte_val y) div 16 = 2753 \<or> byte_val x * 256 + byte_val y = 49320"
    by (simp add: blocked_address_def in_block_def be_dec4_div b)
  show ?thesis by (simp only: lhs rhs d12 d16)
qed

lemma isBlockedIP_mapped: "length b = 4 \<Longrightarrow> isBlockedIP (v4_in_v6_prefix @ b) = isBlockedIP b"
  by (auto simp: isBlockedIP_def)

section \<open>One forwarder per main domain\<close>

definition extractMainDomain :: "string \<Rightarrow> string" where
  "extractMainDomain hostname =
     (if hostname = [] then []
      else (let parts = split_on (CHR ''.'') hostname in
        if length parts < 2 then hostname
        else join_with ''.'' (drop (length parts - 2) parts)))"

definition forwarderScore :: "forward \<Rightarrow> int" where
  "forwarderScore f =
     (case url_parse (f_uri f) of
        None \<Rightarrow> 0
      | Some u \<Rightarrow>
          (if u_scheme u = protocol_udp then 1000 else 0)
          + (if has_suffix (u_path u) ''/announce'' then 100 else 0)
          + (if url_port u = ''6969'' then 50 else 0)
          + (if has_prefix (url_hostname u) ''tracker.'' then 25 else 0)
          + int (length (f_uri f)))"

definition main_domain_of :: "forward \<Rightarrow> string option" where
  "main_domain_of f =
     (case url_parse (f_uri f) of
        None \<Rightarrow> None
      | Some u \<Rightarrow> (let h = url_hostname u in
          if h = [] then None
          else (let d = extractMainDomain h in if d = [] then None else Some d)))"

definition domain_groups :: "forward list \<Rightarrow> (string, forward list) gomap" where
  "domain_groups fs = foldl (\<lambda>m f. case main_domain_of f of
       None \<Rightarrow> m | Some d \<Rightarrow> gm_put d (gm_get_or [] m d @ [f]) m) [] fs"

text \<open>The scan for the highest score: an earlier forwarder wins a tie.\<close>

definition best_forwarder :: "forward \<Rightarrow> forward list \<Rightarrow> forward" where
  "best_forwarder f fs = fst (foldl (\<lambda>(b, sc) g.
     if forwarderScore g > sc then (g, forwarderScore g) else (b, sc)) (f, forwarderScore f) fs)"

text \<open>The loop over the groups: the number of removed forwarders, the addresses to keep and the
  names whose statistics are dropped.\<close>

fun dedupe_groups :: "(string, forward list) gomap \<Rightarrow> nat \<times> string list \<times> string list \<Rightarrow>
    nat \<times> string list \<times> string list" where
  "dedupe_groups [] r = r"
| "dedupe_groups ((d, []) # m) r = dedupe_groups m r"
| "dedupe_groups ((d, [f]) # m) (n, keep, names) = dedupe_groups m (n, f_uri f # keep, names)"
| "dedupe_groups ((d, f # g # fs) # m) (n, keep, names) =
     (let best = best_forwarder f (g # fs) in
      dedupe_groups m (n + Suc (length fs), f_uri best # keep,
        names @ map getName (filter (\<lambda>x. f_uri x \<noteq> f_uri best) (f # g # fs))))"

definition dedupe_by_domain :: "forward list \<Rightarrow> (forward list \<times> string list) option" where
  \<comment> \<open>None: nothing is removed; otherwise the new list and the names to drop\<close>
  "dedupe_by_domain fs =
     (case dedupe_groups (domain_groups fs) (0, [], []) of
        (n, keep, names) \<Rightarrow>
          if n = 0 then None else Some (filter (\<lambda>f. f_uri f \<in> set keep) fs, names))"

section \<open>What the selection keeps\<close>

lemma best_forwarder_fold:
  "sc = forwarderScore b \<Longrightarrow>
   (case foldl (\<lambda>(b, sc) g. if forwarderScore g > sc then (g, forwarderScore g) else (b, sc)) (b, sc) fs of
      (x, s) \<Rightarrow> s = forwarderScore x \<and> x \<in> insert b (set fs) \<and>
        (\<forall>g \<in> insert b (set fs). forwarderScore g \<le> forwarderScore x))"
proof (induction fs arbitrary: b sc)
  case Nil
  then show ?case by simp
next
  case (Cons g fs)
  show ?case
  proof (cases "forwarderScore g > sc")
    case True
    with Cons.IH [OF refl, of g] Cons.prems show ?thesis by (auto split: prod.splits)
  next
    case False
    with Cons.IH [OF Cons.prems] Cons.prems show ?thesis by (auto split: prod.splits)
  qed
qed

lemma best_forwarder_in: "best_forwarder f fs \<in> insert f (set fs)"
  using best_forwarder_fold [OF refl, of f fs] by (auto simp: best_forwarder_def split: prod.splits)

lemma best_forwarder_max: "g \<in> insert f (set fs) \<Longrightarrow> forwarderScore g \<le> forwarderScore (best_forwarder f fs)"
  using best_forwarder_fold [OF refl, of f fs] by (auto simp: best_forwarder_def split: prod.splits)

text \<open>The group of a domain lists exactly its forwarders, in order.\<close>

lemma domain_groups_fold:
  "gm_get (foldl (\<lambda>m f. case main_domain_of f of
       None \<Rightarrow> m | Some d \<Rightarrow> gm_put d (gm_get_or [] m d @ [f]) m) m fs) d =
     (let new = filter (\<lambda>f. main_domain_of f = Some d) fs in
      if new = [] then gm_get m d else Some (gm_get_or [] m d @ new))"
proof (induction fs arbitrary: m)
  case Nil
  then show ?case by simp
next
  case (Cons f fs)
  show ?case
    by (cases "main_domain_of f")
       (auto simp: Cons Let_def gm_get_or_def split: option.splits)
qed

lemma domain_groups_get:
  "gm_get (domain_groups fs) d =
     (let g = filter (\<lambda>f. main_domain_of f = Some d) fs in if g = [] then None else Some g)"
  by (simp add: domain_groups_def domain_groups_fold gm_get_or_def Let_def)

lemma domain_groups_wf: "gm_wf (domain_groups fs)"
proof -
  have "gm_wf m \<Longrightarrow> gm_wf (foldl (\<lambda>m f. case main_domain_of f of
       None \<Rightarrow> m | Some d \<Rightarrow> gm_put d (gm_get_or [] m d @ [f]) m) m fs)" for m
    by (induction fs arbitrary: m) (auto split: option.splits)
  then show ?thesis by (simp add: domain_groups_def)
qed

text \<open>The best forwarder of a group, for a group with at least one member.\<close>

definition group_best :: "forward list \<Rightarrow> forward" where
  "group_best g = best_forwarder (hd g) (tl g)"

lemma best_forwarder_single [simp]: "best_forwarder f [] = f"
  by (simp add: best_forwarder_def)

lemma dedupe_groups_keep:
  "dedupe_groups m (n, keep, names) = (n', keep', names') \<Longrightarrow>
     set keep' = set keep \<union> (\<lambda>x. f_uri (group_best (snd x))) ` set (filter (\<lambda>x. snd x \<noteq> []) m)
     \<and> n' = n + (\<Sum>(d, g) \<leftarrow> m. length g - 1)"
proof (induction m "(n, keep, names)" arbitrary: n keep names rule: dedupe_groups.induct)
  case 1
  then show ?case by simp
next
  case (2 d m)
  then show ?case by auto
next
  case (3 d f m n keep names)
  then show ?case by (auto simp: group_best_def)
next
  case (4 d f g fs m n keep names)
  have "dedupe_groups m (n + Suc (length fs), f_uri (best_forwarder f (g # fs)) # keep,
      names @ map getName (filter (\<lambda>x. f_uri x \<noteq> f_uri (best_forwarder f (g # fs))) (f # g # fs)))
      = (n', keep', names')"
    using "4.prems" by (simp add: Let_def)
  from "4.hyps" [OF refl this] show ?case by (auto simp: group_best_def)
qed

lemma dedupe_keep_char:
  assumes "dedupe_by_domain fs = Some (fs', names)"
  shows "fs' = filter (\<lambda>f. \<exists>d. filter (\<lambda>x. main_domain_of x = Some d) fs \<noteq> [] \<and>
           f_uri f = f_uri (group_best (filter (\<lambda>x. main_domain_of x = Some d) fs))) fs"
proof -
  obtain n keep nm where r: "dedupe_groups (domain_groups fs) (0, [], []) = (n, keep, nm)"
    by (metis prod_cases3)
  with assms have f: "fs' = filter (\<lambda>f. f_uri f \<in> set keep) fs"
    by (auto simp: dedupe_by_domain_def split: if_splits)
  have "set keep = {f_uri (group_best g) | d g. gm_get (domain_groups fs) d = Some g \<and> g \<noteq> []}"
  proof -
    have "set keep = (\<lambda>x. f_uri (group_best (snd x))) ` set (filter (\<lambda>x. snd x \<noteq> []) (domain_groups fs))"
      using dedupe_groups_keep [OF r] by simp
    also have "\<dots> = {f_uri (group_best g) | d g. (d, g) \<in> set (domain_groups fs) \<and> g \<noteq> []}"
      by force
    finally show ?thesis by (simp only: gm_in_set [OF domain_groups_wf])
  qed
  then show ?thesis
    unfolding f by (intro filter_cong refl) (auto simp: domain_groups_get Let_def split: if_splits)
qed

lemma main_domain_uri: "f_uri f = f_uri g \<Longrightarrow> main_domain_of f = main_domain_of g"
  by (simp add: main_domain_of_def)

lemma group_best_in: "g \<noteq> [] \<Longrightarrow> group_best g \<in> set g"
  using best_forwarder_in [of "hd g" "tl g"] by (cases g) (auto simp: group_best_def)

lemma group_best_max: "x \<in> set g \<Longrightarrow> forwarderScore x \<le> forwarderScore (group_best g)"
  using best_forwarder_max [of x "hd g" "tl g"] by (cases g) (auto simp: group_best_def)

text \<open>A removal keeps, for every main domain of the list, the address of a best-scoring
  forwarder, and of each domain only that address.\<close>

lemma dedupe_keeps_best:
  assumes "dedupe_by_domain fs = Some (fs', names)" "f \<in> set fs" "main_domain_of f = Some d"
  shows "\<exists>b \<in> set fs'. main_domain_of b = Some d \<and> forwarderScore f \<le> forwarderScore b
     \<and> (\<forall>g \<in> set fs'. main_domain_of g = Some d \<longrightarrow> f_uri g = f_uri b)"
proof -
  let ?g = "filter (\<lambda>x. main_domain_of x = Some d) fs"
  have f: "f \<in> set ?g" using assms(2,3) by simp
  then have ne: "?g \<noteq> []" by (metis empty_iff empty_set)
  let ?b = "group_best ?g"
  have b: "?b \<in> set ?g" by (rule group_best_in [OF ne])
  then have bd: "main_domain_of ?b = Some d" "?b \<in> set fs" by auto
  have fs': "x \<in> set fs' \<longleftrightarrow> x \<in> set fs \<and> (\<exists>e. filter (\<lambda>x. main_domain_of x = Some e) fs \<noteq> [] \<and>
      f_uri x = f_uri (group_best (filter (\<lambda>x. main_domain_of x = Some e) fs)))" for x
    unfolding dedupe_keep_char [OF assms(1)] by auto
  have "?b \<in> set fs'" unfolding fs' using bd ne by blast
  moreover have "f_uri g = f_uri ?b" if g: "g \<in> set fs'" "main_domain_of g = Some d" for g
  proof -
    obtain e where e: "filter (\<lambda>x. main_domain_of x = Some e) fs \<noteq> []"
      "f_uri g = f_uri (group_best (filter (\<lambda>x. main_domain_of x = Some e) fs))"
      using g(1) unfolding fs' by blast
    have "main_domain_of (group_best (filter (\<lambda>x. main_domain_of x = Some e) fs)) = Some e"
      using group_best_in [OF e(1)] by auto
    with main_domain_uri [OF e(2)] g(2) have "e = d" by simp
    with e(2) show ?thesis by simp
  qed
  ultimately show ?thesis
    using bd(1) group_best_max [OF f] by blast
qed

lemma dedupe_subseq: "dedupe_by_domain fs = Some (fs', names) \<Longrightarrow> subseq fs' fs"
  by (auto simp: dedupe_by_domain_def split: prod.splits if_splits)

text \<open>A forwarder without a main domain is kept as long as no duplicate is found, and dropped
  with the duplicates.\<close>

lemma dedupe_drops_domainless:
  assumes "dedupe_by_domain fs = Some (fs', names)" "f \<in> set fs" "main_domain_of f = None"
  shows "f \<notin> set fs'"
proof
  assume "f \<in> set fs'"
  then obtain d where d: "filter (\<lambda>x. main_domain_of x = Some d) fs \<noteq> []"
    "f_uri f = f_uri (group_best (filter (\<lambda>x. main_domain_of x = Some d) fs))"
    unfolding dedupe_keep_char [OF assms(1)] by auto
  have "main_domain_of (group_best (filter (\<lambda>x. main_domain_of x = Some d) fs)) = Some d"
    using group_best_in [OF d(1)] by auto
  with main_domain_uri [OF d(2)] assms(3) show False by simp
qed

end
