(* ===== verification/FwdStorage.thy ===== *)
theory FwdStorage
  imports Request Forwards
begin

text \<open>
  \<open>internal/server/forwarderStorage.go\<close>: per info hash and forwarder, the peers of the last
  response and the time of the next announce. The Go map of maps is a \<open>gomap\<close> of \<open>gomap\<close>s and
  every operation takes the time it reads as \<open>now\<close>. The locale \<open>cooldown\<close> is the interface the
  forwarder manager relies on: the next-announce times and how deferring and pruning move them.

  The announce jobs of the same file are here too: a job points at a \<open>job_state\<close> with an
  identity of its own and perhaps a peer session; the context of a session is the session's
  number, and \<open>done\<close> says which sessions have been cancelled.
\<close>

section \<open>Announce jobs\<close>

type_synonym session = nat

record announce_job_state =
  js_id :: nat
  js_peer_context :: "session option"

record announce_job =
  aj_hash :: info_hash
  aj_fwd :: string
  aj_peer :: peer_id
  aj_forwarder :: forward
  aj_request :: request
  aj_at :: gotime
  aj_state :: "announce_job_state option"

text \<open>\<open>None\<close> is \<open>context.Background()\<close>, which is never cancelled.\<close>

definition job_context :: "announce_job \<Rightarrow> session option" where
  "job_context job =
     (case aj_state job of None \<Rightarrow> None
      | Some st \<Rightarrow> (case js_peer_context st of Some c \<Rightarrow> Some c | None \<Rightarrow> None))"

definition ctx_done :: "(session \<Rightarrow> bool) \<Rightarrow> session option \<Rightarrow> bool" where
  "ctx_done don c = (case c of None \<Rightarrow> False | Some s \<Rightarrow> don s)"

definition canceled :: "(session \<Rightarrow> bool) \<Rightarrow> announce_job \<Rightarrow> bool" where
  "canceled don job = ctx_done don (job_context job)"

section \<open>State and operations\<close>

record fwd_entry =
  fe_peers :: "peer list"
  fe_interval :: int
  fe_last_update :: gotime
  fe_next :: gotime

record fwd_storage =
  fs_entries :: "(info_hash, (string, fwd_entry) gomap) gomap"
  fs_max_age :: duration

definition NewForwarderStorage :: fwd_storage where
  "NewForwarderStorage = \<lparr>fs_entries = [], fs_max_age = 3 * hour\<rparr>"

definition zero_entry :: fwd_entry where
  "zero_entry = \<lparr>fe_peers = [], fe_interval = 0, fe_last_update = time_zero, fe_next = time_zero\<rparr>"

text \<open>\<open>fs.Entries[h]\<close>, created when absent.\<close>

definition fs_inner :: "fwd_storage \<Rightarrow> info_hash \<Rightarrow> (string, fwd_entry) gomap" where
  "fs_inner fs h = gm_get_or [] (fs_entries fs) h"

definition fs_get :: "fwd_storage \<Rightarrow> info_hash \<Rightarrow> string \<Rightarrow> fwd_entry option" where
  "fs_get fs h n = gm_get (fs_inner fs h) n"

definition fs_put :: "info_hash \<Rightarrow> string \<Rightarrow> fwd_entry \<Rightarrow> fwd_storage \<Rightarrow> fwd_storage" where
  "fs_put h n e fs = fs\<lparr>fs_entries := gm_put h (gm_put n e (fs_inner fs h)) (fs_entries fs)\<rparr>"

definition next_after :: "gotime \<Rightarrow> int \<Rightarrow> gotime" where
  "next_after now interval = now + wrap64 (interval * second)"

definition UpdatePeers ::
  "gotime \<Rightarrow> info_hash \<Rightarrow> string \<Rightarrow> peer list \<Rightarrow> int \<Rightarrow> fwd_storage \<Rightarrow> fwd_storage" where
  "UpdatePeers now h n peers interval fs =
     fs_put h n \<lparr>fe_peers = peers, fe_interval = interval, fe_last_update = now,
                 fe_next = next_after now interval\<rparr> fs"

definition fs_expired :: "fwd_storage \<Rightarrow> fwd_entry \<Rightarrow> gotime \<Rightarrow> bool" where
  "fs_expired fs e now =
     (let age = (if fs_max_age fs \<le> 0 then 3 * hour else fs_max_age fs)
      in time_sub now (fe_last_update e) \<ge> age)"

definition GetAllPeers :: "gotime \<Rightarrow> fwd_storage \<Rightarrow> info_hash \<Rightarrow> peer list" where
  "GetAllPeers now fs h =
     concat (map (\<lambda>(n, e). if fs_expired fs e now then [] else fe_peers e) (fs_inner fs h))"

definition prune_entry :: "fwd_storage \<Rightarrow> gotime \<Rightarrow> fwd_entry \<Rightarrow> fwd_entry option" where
  "prune_entry fs now e =
     (if \<not> fs_expired fs e now then Some e
      else if fe_next e > now then Some (e\<lparr>fe_peers := []\<rparr>) else None)"

definition prune_inner ::
  "fwd_storage \<Rightarrow> gotime \<Rightarrow> (string, fwd_entry) gomap \<Rightarrow> (string, fwd_entry) gomap" where
  "prune_inner fs now m =
     List.map_filter (\<lambda>(n, e). map_option (Pair n) (prune_entry fs now e)) m"

definition Prune :: "gotime \<Rightarrow> fwd_storage \<Rightarrow> fwd_storage" where
  "Prune now fs =
     fs\<lparr>fs_entries := filter (\<lambda>(h, m). m \<noteq> [])
          (map (\<lambda>(h, m). (h, prune_inner fs now m)) (fs_entries fs))\<rparr>"

text \<open>\<open>DeferAnnounce\<close> creates the inner map before it looks at the entry, so an early return
  can leave an empty inner map behind.\<close>

definition DeferAnnounce ::
  "info_hash \<Rightarrow> string \<Rightarrow> gotime \<Rightarrow> fwd_storage \<Rightarrow> fwd_storage \<times> gotime" where
  "DeferAnnounce h n until fs =
     (let fs1 = fs\<lparr>fs_entries := gm_put h (fs_inner fs h) (fs_entries fs)\<rparr>;
          e = (case fs_get fs1 h n of None \<Rightarrow> zero_entry | Some e \<Rightarrow> e)
      in if fe_next e > until then (fs1, fe_next e)
         else (fs_put h n (e\<lparr>fe_next := until\<rparr>) fs1, until))"

text \<open>The jobs \<open>GetNextAnnounceJobs\<close> builds carry only the hash and the forwarder's name.\<close>

definition GetNextAnnounceJobs :: "gotime \<Rightarrow> fwd_storage \<Rightarrow> (info_hash \<times> string) list" where
  "GetNextAnnounceJobs now fs =
     concat (map (\<lambda>(h, m). map (\<lambda>(n, e). (h, n)) (filter (\<lambda>(n, e). fe_next e < now \<or> now = fe_next e) m))
       (fs_entries fs))"

definition MarkAnnounced :: "gotime \<Rightarrow> info_hash \<Rightarrow> string \<Rightarrow> fwd_storage \<Rightarrow> fwd_storage" where
  "MarkAnnounced now h n fs =
     (case gm_get (fs_entries fs) h of
        None \<Rightarrow> fs
      | Some m \<Rightarrow>
          (case gm_get m n of
             None \<Rightarrow> fs
           | Some e \<Rightarrow> fs_put h n (e\<lparr>fe_next := next_after now (fe_interval e)\<rparr>) fs))"

definition ShouldAnnounceNow :: "fwd_storage \<Rightarrow> info_hash \<Rightarrow> string \<Rightarrow> gotime \<Rightarrow> bool" where
  "ShouldAnnounceNow fs h n now =
     (case gm_get (fs_entries fs) h of
        None \<Rightarrow> True
      | Some m \<Rightarrow>
          (case gm_get m n of
             None \<Rightarrow> True
           | Some e \<Rightarrow> if is_zero_time (fe_next e) then True else \<not> fe_next e > now))"

definition GetAnnounceState :: "fwd_storage \<Rightarrow> info_hash \<Rightarrow> string \<Rightarrow> bool \<times> gotime" where
  "GetAnnounceState fs h n =
     (case gm_get (fs_entries fs) h of
        None \<Rightarrow> (False, time_zero)
      | Some m \<Rightarrow>
          (case gm_get m n of None \<Rightarrow> (False, time_zero) | Some e \<Rightarrow> (True, fe_next e)))"

definition HasInfoHash :: "fwd_storage \<Rightarrow> info_hash \<Rightarrow> bool" where
  "HasInfoHash fs h \<longleftrightarrow> gm_mem h (fs_entries fs)"

definition fs_cleanup :: "info_hash \<Rightarrow> fwd_storage \<Rightarrow> fwd_storage" where
  "fs_cleanup h fs = fs\<lparr>fs_entries := gm_del h (fs_entries fs)\<rparr>"

section \<open>Lookups after each operation\<close>

lemma fs_get_put: "fs_get (fs_put h n e fs) h' n' = (if h' = h \<and> n' = n then Some e else fs_get fs h' n')"
  by (auto simp: fs_get_def fs_put_def fs_inner_def gm_get_or_def)

lemma fs_get_update:
  "fs_get (UpdatePeers now h n peers interval fs) h' n' =
     (if h' = h \<and> n' = n
      then Some \<lparr>fe_peers = peers, fe_interval = interval, fe_last_update = now,
                 fe_next = next_after now interval\<rparr>
      else fs_get fs h' n')"
  by (simp add: UpdatePeers_def fs_get_put)

lemma fs_get_touch:
  "fs_get (fs\<lparr>fs_entries := gm_put h (fs_inner fs h) (fs_entries fs)\<rparr>) h' n' = fs_get fs h' n'"
  by (auto simp: fs_get_def fs_inner_def gm_get_or_def)

lemma fs_get_defer:
  "fs_get (fst (DeferAnnounce h n until fs)) h' n' =
     (if h' = h \<and> n' = n
      then (let e = case_option zero_entry id (fs_get fs h n)
            in if fe_next e > until then fs_get fs h n else Some (e\<lparr>fe_next := until\<rparr>))
      else fs_get fs h' n')"
  by (auto simp: DeferAnnounce_def Let_def fs_get_put fs_get_touch split: option.splits)

lemma snd_defer:
  "snd (DeferAnnounce h n until fs) = max until (fe_next (case_option zero_entry id (fs_get fs h n)))"
  by (auto simp: DeferAnnounce_def Let_def fs_get_touch split: option.splits)

lemma MarkAnnounced_get:
  "MarkAnnounced now h n fs =
     (case fs_get fs h n of None \<Rightarrow> fs
      | Some e \<Rightarrow> fs_put h n (e\<lparr>fe_next := next_after now (fe_interval e)\<rparr>) fs)"
  by (auto simp: MarkAnnounced_def fs_get_def fs_inner_def gm_get_or_def split: option.splits)

lemma fs_get_mark:
  "fs_get (MarkAnnounced now h n fs) h' n' =
     (if h' = h \<and> n' = n
      then map_option (\<lambda>e. e\<lparr>fe_next := next_after now (fe_interval e)\<rparr>) (fs_get fs h n)
      else fs_get fs h' n')"
  by (auto simp: MarkAnnounced_get fs_get_put split: option.splits)

lemma fs_get_cleanup: "fs_get (fs_cleanup h fs) h' n = (if h' = h then None else fs_get fs h' n)"
  by (simp add: fs_get_def fs_cleanup_def fs_inner_def gm_get_or_def)

lemma GetAnnounceState_get:
  "GetAnnounceState fs h n = (case fs_get fs h n of None \<Rightarrow> (False, time_zero) | Some e \<Rightarrow> (True, fe_next e))"
  by (auto simp: GetAnnounceState_def fs_get_def fs_inner_def gm_get_or_def split: option.splits)

lemma ShouldAnnounceNow_get:
  "ShouldAnnounceNow fs h n now \<longleftrightarrow>
     (case fs_get fs h n of None \<Rightarrow> True | Some e \<Rightarrow> fe_next e = time_zero \<or> fe_next e \<le> now)"
  by (auto simp: ShouldAnnounceNow_def fs_get_def fs_inner_def gm_get_or_def is_zero_time_def
      split: option.splits)

lemmas fs_lookups = fs_get_update fs_get_defer fs_get_mark fs_get_cleanup

section \<open>Well-formedness\<close>

text \<open>Keys are distinct at both levels and no inner map is empty.\<close>

definition fs_wf :: "fwd_storage \<Rightarrow> bool" where
  "fs_wf fs \<longleftrightarrow> gm_wf (fs_entries fs) \<and> (\<forall>(h, m) \<in> set (fs_entries fs). gm_wf m \<and> m \<noteq> [])"

lemma fs_wf_inner: "fs_wf fs \<Longrightarrow> gm_wf (fs_inner fs h)"
  by (auto simp: fs_wf_def fs_inner_def gm_get_or_def split: option.splits dest!: map_of_SomeD)

lemma fs_wf_new [inv_intros]: "fs_wf NewForwarderStorage"
  by (simp add: fs_wf_def NewForwarderStorage_def)

lemma fs_wf_put [inv_intros]: "fs_wf fs \<Longrightarrow> fs_wf (fs_put h n e fs)"
proof -
  assume wf: "fs_wf fs"
  then have "gm_wf (gm_put n e (fs_inner fs h))" by (simp add: fs_wf_inner)
  with wf show ?thesis
    unfolding fs_wf_def fs_put_def
    by (auto dest!: in_gm_putD)
qed

lemma fs_wf_update [inv_intros]: "fs_wf fs \<Longrightarrow> fs_wf (UpdatePeers now h n peers interval fs)"
  by (simp add: UpdatePeers_def fs_wf_put)

lemma fs_wf_mark [inv_intros]: "fs_wf fs \<Longrightarrow> fs_wf (MarkAnnounced now h n fs)"
  by (auto simp: MarkAnnounced_get fs_wf_put split: option.splits)

lemma fs_wf_cleanup [inv_intros]: "fs_wf fs \<Longrightarrow> fs_wf (fs_cleanup h fs)"
  by (auto simp: fs_wf_def fs_cleanup_def set_gm_del)

text \<open>Deferring to a time that is not before the zero time either stores the entry or finds one
  with a later time.\<close>

lemma DeferAnnounce_cases:
  assumes "fs_wf fs" "time_zero \<le> until"
  shows "fst (DeferAnnounce h n until fs) =
     (let e = case_option zero_entry id (fs_get fs h n)
      in if fe_next e > until then fs else fs_put h n (e\<lparr>fe_next := until\<rparr>) fs)"
proof -
  let ?fs1 = "fs\<lparr>fs_entries := gm_put h (fs_inner fs h) (fs_entries fs)\<rparr>"
  have put: "fs_put h n e ?fs1 = fs_put h n e fs" for e
    by (simp add: fs_put_def fs_inner_def gm_get_or_def)
  have same: "?fs1 = fs" if "fs_get fs h n \<noteq> None"
  proof -
    from that have "gm_get (fs_entries fs) h = Some (fs_inner fs h)"
      by (auto simp: fs_get_def fs_inner_def gm_get_or_def split: option.splits)
    then have "gm_put h (fs_inner fs h) (fs_entries fs) = fs_entries fs"
      by (rule update_triv)
    then show ?thesis by simp
  qed
  show ?thesis
    using assms(2) same
    by (cases "fs_get fs h n")
       (auto simp: DeferAnnounce_def Let_def fs_get_touch put zero_entry_def)
qed

lemma fs_wf_defer [inv_intros]:
  "fs_wf fs \<Longrightarrow> time_zero \<le> until \<Longrightarrow> fs_wf (fst (DeferAnnounce h n until fs))"
  by (simp add: DeferAnnounce_cases Let_def fs_wf_put)

lemma prune_inner_keys: "map fst (prune_inner fs now m) =
    filter (\<lambda>n. \<exists>e. (n, e) \<in> set m \<and> prune_entry fs now e \<noteq> None) (map fst m)"
  if "gm_wf m"
  using that
proof (induction m)
  case Nil
  then show ?case by (simp add: prune_inner_def)
next
  case (Cons ne m)
  obtain n e where ne: "ne = (n, e)" by (cases ne)
  have "filter (\<lambda>n'. \<exists>e'. (n', e') \<in> set (ne # m) \<and> prune_entry fs now e' \<noteq> None) (map fst m)
      = filter (\<lambda>n'. \<exists>e'. (n', e') \<in> set m \<and> prune_entry fs now e' \<noteq> None) (map fst m)"
    using Cons.prems ne by (intro filter_cong) auto
  moreover have "(\<exists>e'. (n, e') \<in> set (ne # m) \<and> prune_entry fs now e' \<noteq> None) \<longleftrightarrow> prune_entry fs now e \<noteq> None"
    using Cons.prems ne by (auto simp: image_iff)
  ultimately show ?case
    using Cons ne
    by (cases "prune_entry fs now e") (auto simp: prune_inner_def map_filter_simps)
qed

lemma prune_inner_wf: "gm_wf m \<Longrightarrow> gm_wf (prune_inner fs now m)"
  by (simp only: prune_inner_keys distinct_filter)

lemma gm_get_prune_inner:
  "gm_wf m \<Longrightarrow> gm_get (prune_inner fs now m) n = Option.bind (gm_get m n) (prune_entry fs now)"
proof (induction m)
  case Nil
  then show ?case by (simp add: prune_inner_def)
next
  case (Cons ne m)
  obtain k e where ne: "ne = (k, e)" by (cases ne)
  from Cons ne have IH: "gm_get (prune_inner fs now m) n = Option.bind (gm_get m n) (prune_entry fs now)"
    and "gm_get m k = None" by (auto simp: map_of_eq_None_iff)
  then show ?case
    by (cases "prune_entry fs now e") (auto simp: ne prune_inner_def map_filter_simps)
qed

lemma Prune_entries: "fs_entries (Prune now fs) =
    filter (\<lambda>(h, m). m \<noteq> []) (map (\<lambda>(h, m). (h, prune_inner fs now m)) (fs_entries fs))"
  by (simp add: Prune_def)

lemma fs_wf_prune [inv_intros]:
  assumes "fs_wf fs" shows "fs_wf (Prune now fs)"
proof -
  have "gm_wf (map (\<lambda>(h, m). (h, prune_inner fs now m)) (fs_entries fs))"
    using assms unfolding map_fst_map_snd by (simp add: fs_wf_def)
  then have "gm_wf (fs_entries (Prune now fs))"
    unfolding Prune_entries by (rule gm_wf_filter)
  moreover have "gm_wf m \<and> m \<noteq> []" if "(h, m) \<in> set (fs_entries (Prune now fs))" for h m
    using that assms prune_inner_wf by (fastforce simp: Prune_def fs_wf_def)
  ultimately show ?thesis by (auto simp: fs_wf_def)
qed

lemma fs_get_prune:
  assumes "fs_wf fs"
  shows "fs_get (Prune now fs) h n = Option.bind (fs_get fs h n) (prune_entry fs now)"
proof -
  let ?es = "map (\<lambda>(h, m). (h, prune_inner fs now m)) (fs_entries fs)"
  have look: "gm_get ?es h = map_option (prune_inner fs now) (gm_get (fs_entries fs) h)"
    by (rule gm_get_map_snd)
  have "gm_wf ?es"
    using assms unfolding map_fst_map_snd by (simp add: fs_wf_def)
  from gm_get_filter [OF this] have "gm_get (fs_entries (Prune now fs)) h =
      (case gm_get ?es h of None \<Rightarrow> None | Some m \<Rightarrow> if m \<noteq> [] then Some m else None)"
    unfolding Prune_entries by (simp split: option.splits del: map_map)
  then have "gm_get (fs_entries (Prune now fs)) h =
      (case gm_get (fs_entries fs) h of None \<Rightarrow> None
       | Some m \<Rightarrow> if prune_inner fs now m \<noteq> [] then Some (prune_inner fs now m) else None)"
    by (simp add: look split: option.splits)
  moreover have "prune_inner fs now [] = []"
    by (simp add: prune_inner_def map_filter_simps)
  ultimately have "fs_get (Prune now fs) h n = gm_get (prune_inner fs now (fs_inner fs h)) n"
    by (auto simp: fs_get_def fs_inner_def gm_get_or_def split: option.splits)
  also have "\<dots> = Option.bind (fs_get fs h n) (prune_entry fs now)"
    by (simp add: gm_get_prune_inner fs_wf_inner assms fs_get_def)
  finally show ?thesis .
qed

section \<open>The abstract cache\<close>

text \<open>What the storage promises: a finite map from hash and forwarder to entries.\<close>

type_synonym cache = "info_hash \<times> string \<Rightarrow> fwd_entry option"

definition abs_cache :: "fwd_storage \<Rightarrow> cache" where
  "abs_cache fs = (\<lambda>(h, n). fs_get fs h n)"

definition cache_defer :: "info_hash \<times> string \<Rightarrow> gotime \<Rightarrow> cache \<Rightarrow> cache" where
  "cache_defer k until c =
     (let e = case_option zero_entry id (c k) in c(k \<mapsto> e\<lparr>fe_next := max until (fe_next e)\<rparr>))"

definition cache_mark :: "info_hash \<times> string \<Rightarrow> gotime \<Rightarrow> cache \<Rightarrow> cache" where
  "cache_mark k now c = c(k := map_option (\<lambda>e. e\<lparr>fe_next := next_after now (fe_interval e)\<rparr>) (c k))"

lemma abs_update:
  "abs_cache (UpdatePeers now h n peers interval fs) =
     (abs_cache fs)((h, n) \<mapsto> \<lparr>fe_peers = peers, fe_interval = interval, fe_last_update = now,
        fe_next = next_after now interval\<rparr>)"
  by (auto simp: abs_cache_def fs_lookups)

lemma abs_defer:
  assumes "time_zero \<le> until"
  shows "abs_cache (fst (DeferAnnounce h n until fs)) = cache_defer (h, n) until (abs_cache fs)"
proof (rule ext)
  fix k
  show "abs_cache (fst (DeferAnnounce h n until fs)) k = cache_defer (h, n) until (abs_cache fs) k"
  proof (cases "fs_get fs h n")
    case None
    then show ?thesis using assms
      by (cases k) (auto simp: abs_cache_def cache_defer_def fs_lookups Let_def zero_entry_def)
  next
    case (Some e)
    then show ?thesis
      by (cases k) (auto simp: abs_cache_def cache_defer_def fs_lookups Let_def max_def)
  qed
qed

lemma abs_mark: "abs_cache (MarkAnnounced now h n fs) = cache_mark (h, n) now (abs_cache fs)"
  by (auto simp: abs_cache_def cache_mark_def fs_lookups)

lemma abs_prune:
  "fs_wf fs \<Longrightarrow> abs_cache (Prune now fs) = (\<lambda>k. Option.bind (abs_cache fs k) (prune_entry fs now))"
  by (auto simp: abs_cache_def fs_get_prune)

lemma abs_cleanup: "abs_cache (fs_cleanup h fs) = (\<lambda>k. if fst k = h then None else abs_cache fs k)"
  by (auto simp: abs_cache_def fs_lookups)

lemma abs_all_peers:
  assumes "fs_wf fs"
  shows "set (GetAllPeers now fs h) =
     {p. \<exists>n e. abs_cache fs (h, n) = Some e \<and> \<not> fs_expired fs e now \<and> p \<in> set (fe_peers e)}"
proof -
  have "set (GetAllPeers now fs h) =
      {p. \<exists>n e. (n, e) \<in> set (fs_inner fs h) \<and> \<not> fs_expired fs e now \<and> p \<in> set (fe_peers e)}"
    by (force simp: GetAllPeers_def split: if_splits)
  then show ?thesis
    by (simp add: abs_cache_def fs_get_def gm_in_set [OF fs_wf_inner [OF assms]])
qed

lemmas cache_refinement = abs_update abs_defer abs_mark abs_prune abs_cleanup

section \<open>Cooldowns\<close>

datatype 'k upkeep = Hold 'k gotime | Trim gotime

text \<open>The interface the announce scheduler needs: \<open>hold\<close> raises the next-announce time of a key,
  \<open>trim\<close> reclaims memory.\<close>

locale cooldown =
  fixes inv :: "'s \<Rightarrow> bool"
    and next_of :: "'s \<Rightarrow> 'k \<Rightarrow> gotime option"
    and hold :: "'k \<Rightarrow> gotime \<Rightarrow> 's \<Rightarrow> 's"
    and trim :: "gotime \<Rightarrow> 's \<Rightarrow> 's"
  assumes inv_hold: "inv s \<Longrightarrow> time_zero \<le> t \<Longrightarrow> inv (hold k t s)"
    and inv_trim: "inv s \<Longrightarrow> inv (trim now s)"
    and next_hold: "inv s \<Longrightarrow> time_zero \<le> t \<Longrightarrow>
      next_of (hold k t s) j = (if j = k then Some (max t (case_option time_zero id (next_of s k)))
                                else next_of s j)"
    and next_trim: "inv s \<Longrightarrow> next_of s k = Some t \<Longrightarrow> now < t \<Longrightarrow> next_of (trim now s) k = Some t"
    and trim_only: "inv s \<Longrightarrow> next_of (trim now s) k = Some t \<Longrightarrow> next_of s k = Some t"
begin

definition upkeep :: "'k upkeep \<Rightarrow> 's \<Rightarrow> 's" where
  "upkeep op s = (case op of Hold k t \<Rightarrow> hold k t s | Trim now \<Rightarrow> trim now s)"

lemma hold_ge: "inv s \<Longrightarrow> time_zero \<le> t \<Longrightarrow> \<exists>u. next_of (hold k t s) k = Some u \<and> t \<le> u"
  by (simp add: next_hold)

lemma upkeep_keeps:
  assumes "inv s" "next_of s k = Some t"
    and "case op of Hold j u \<Rightarrow> time_zero \<le> u | Trim now \<Rightarrow> now < t"
  shows "inv (upkeep op s) \<and> (\<exists>t'. next_of (upkeep op s) k = Some t' \<and> t \<le> t')"
proof (cases op)
  case (Hold j u)
  with assms show ?thesis by (auto simp: upkeep_def inv_hold next_hold)
next
  case (Trim now)
  with assms show ?thesis by (auto simp: upkeep_def inv_trim next_trim)
qed

lemma run_keeps:
  assumes "inv s" "next_of s k = Some t"
    and "\<And>op. op \<in> set ops \<Longrightarrow> case op of Hold j u \<Rightarrow> time_zero \<le> u | Trim now \<Rightarrow> now < t"
  shows "\<exists>t'. next_of (fold upkeep ops s) k = Some t' \<and> t \<le> t'"
  using assms
proof (induction ops arbitrary: s t)
  case (Cons op ops)
  from upkeep_keeps [OF Cons.prems(1,2)] Cons.prems(3) [of op]
  obtain t' where s': "inv (upkeep op s)" "next_of (upkeep op s) k = Some t'" "t \<le> t'" by auto
  have "\<exists>t''. next_of (fold upkeep ops (upkeep op s)) k = Some t'' \<and> t' \<le> t''"
    using s' Cons.prems(3) by (intro Cons.IH) (fastforce split: upkeep.splits)+
  with s'(3) show ?case by auto
qed simp

end

definition fs_next :: "fwd_storage \<Rightarrow> info_hash \<times> string \<Rightarrow> gotime option" where
  "fs_next fs k = map_option fe_next (fs_get fs (fst k) (snd k))"

definition fs_hold :: "info_hash \<times> string \<Rightarrow> gotime \<Rightarrow> fwd_storage \<Rightarrow> fwd_storage" where
  "fs_hold k t fs = fst (DeferAnnounce (fst k) (snd k) t fs)"

interpretation fsc: cooldown fs_wf fs_next fs_hold Prune
proof
  fix s :: fwd_storage and t now :: gotime and k j :: "info_hash \<times> string"
  assume wf: "fs_wf s"
  show "fs_wf (Prune now s)" using wf by (rule fs_wf_prune)
  show "time_zero \<le> t \<Longrightarrow> fs_wf (fs_hold k t s)"
    unfolding fs_hold_def using wf by (rule fs_wf_defer)
  show "time_zero \<le> t \<Longrightarrow> fs_next (fs_hold k t s) j =
      (if j = k then Some (max t (case_option time_zero id (fs_next s k))) else fs_next s j)"
    by (cases "fs_get s (fst k) (snd k)")
       (auto simp: fs_next_def fs_hold_def fs_lookups Let_def zero_entry_def prod_eq_iff)
  show "fs_next s k = Some t \<Longrightarrow> now < t \<Longrightarrow> fs_next (Prune now s) k = Some t"
    by (auto simp: fs_next_def fs_get_prune wf prune_entry_def)
  show "fs_next (Prune now s) k = Some t \<Longrightarrow> fs_next s k = Some t"
    by (auto simp: fs_next_def fs_get_prune wf prune_entry_def bind_eq_Some_conv split: if_splits)
qed

end
