(* ===== verification/Storage.thy ===== *)
theory Storage
  imports FwdStorage
begin

text \<open>
  \<open>internal/server/storage.go\<close>: the local peers. \<open>st_requests\<close> is the map from info hash to peer
  identifier to the last request; \<open>st_sessions\<close> gives each stored peer a context, which is a
  number drawn from \<open>st_fresh\<close>. \<open>st_ended\<close> lists the contexts whose cancel function has been
  called and \<open>st_stopped\<close> says that the parent context (\<open>tasks.ctx\<close>) is cancelled, which ends
  every context. \<open>st_fwd\<close> is the attached upstream cache (\<open>forwarderStorage\<close>), if any.

  The locale \<open>sessions\<close> is the interface the forwarding code relies on: a context that has ended
  never comes back, and a peer that returns gets a new one.
\<close>

type_synonym peer_key = "info_hash \<times> peer_id"

record storage =
  st_requests :: "(info_hash, (peer_id, request) gomap) gomap"
  st_sessions :: "(peer_key, session) gomap"
  st_fwd :: "fwd_storage option"
  st_age :: rat
  st_fresh :: session
  st_ended :: "session list"
  st_stopped :: bool

definition NewStorage :: "rat \<Rightarrow> storage" where
  "NewStorage age = \<lparr>st_requests = [], st_sessions = [], st_fwd = None, st_age = age,
     st_fresh = 0, st_ended = [], st_stopped = False\<rparr>"

text \<open>\<open>ctx.Err() != nil\<close> for the context of a session.\<close>

definition session_done :: "storage \<Rightarrow> session \<Rightarrow> bool" where
  "session_done st c \<longleftrightarrow> st_stopped st \<or> c \<in> set (st_ended st)"

definition st_inner :: "storage \<Rightarrow> info_hash \<Rightarrow> (peer_id, request) gomap" where
  "st_inner st h = gm_get_or [] (st_requests st) h"

definition st_get :: "storage \<Rightarrow> info_hash \<Rightarrow> peer_id \<Rightarrow> request option" where
  "st_get st h p = gm_get (st_inner st h) p"

section \<open>Operations\<close>

definition storage_update :: "request \<Rightarrow> storage \<Rightarrow> storage \<times> session" where
  "storage_update r st =
     (let st1 = (if gm_mem (rq_hash r) (st_requests st) then st
                 else st\<lparr>st_requests := gm_put (rq_hash r) [] (st_requests st)\<rparr>);
          st2 = st1\<lparr>st_requests := gm_put (rq_hash r)
                     (gm_put (rq_peer_id r) r (st_inner st1 (rq_hash r))) (st_requests st1)\<rparr>;
          key = (rq_hash r, rq_peer_id r)
      in case gm_get (st_sessions st2) key of
           Some c \<Rightarrow> (st2, c)
         | None \<Rightarrow> (st2\<lparr>st_sessions := gm_put key (st_fresh st2) (st_sessions st2),
                        st_fresh := st_fresh st2 + 1\<rparr>, st_fresh st2))"

definition end_session :: "peer_key \<Rightarrow> storage \<Rightarrow> storage" where
  "end_session key st =
     (case gm_get (st_sessions st) key of
        None \<Rightarrow> st
      | Some c \<Rightarrow> st\<lparr>st_ended := c # st_ended st, st_sessions := gm_del key (st_sessions st)\<rparr>)"

definition deleteLocked :: "info_hash \<Rightarrow> peer_id \<Rightarrow> storage \<Rightarrow> storage" where
  "deleteLocked h p st =
     (let st1 = end_session (h, p) st
      in case gm_get (st_requests st1) h of
           None \<Rightarrow> st1
         | Some requests \<Rightarrow>
             (let requests' = gm_del p requests
              in if requests' = []
                 then st1\<lparr>st_requests := gm_del h (st_requests st1),
                          st_fwd := map_option (fs_cleanup h) (st_fwd st1)\<rparr>
                 else st1\<lparr>st_requests := gm_put h requests' (st_requests st1)\<rparr>))"

definition storage_delete :: "request \<Rightarrow> storage \<Rightarrow> storage" where
  "storage_delete r st = deleteLocked (rq_hash r) (rq_peer_id r) st"

definition peerContext :: "storage \<Rightarrow> info_hash \<Rightarrow> peer_id \<Rightarrow> session option" where
  "peerContext st h p = gm_get (st_sessions st) (h, p)"

definition GetPeers :: "storage \<Rightarrow> info_hash \<Rightarrow> peer list" where
  "GetPeers st h = map (\<lambda>(p, r). request_peer r) (st_inner st h)"

text \<open>The keys that a sweep at \<open>now\<close> deletes, in the order it meets them; deleting the current
  entry of a map while ranging over it does not disturb the others.\<close>

definition expired_keys :: "gotime \<Rightarrow> storage \<Rightarrow> peer_key list" where
  "expired_keys now st =
     concat (map (\<lambda>(h, m). map (\<lambda>(p, r). (h, p)) (filter (\<lambda>(p, r). timeStampDelta now r > st_age st) m))
       (st_requests st))"

definition purgeExpired :: "gotime \<Rightarrow> storage \<Rightarrow> storage" where
  "purgeExpired now st = fold (\<lambda>(h, p). deleteLocked h p) (expired_keys now st) st"

definition storage_close :: "storage \<Rightarrow> storage" where
  "storage_close st =
     fold (\<lambda>(key, c). end_session key) (st_sessions st) (st\<lparr>st_stopped := True\<rparr>)"

section \<open>Lookups after each operation\<close>

lemma update_requests:
  "gm_get (st_requests (fst (storage_update r st))) h =
     (if h = rq_hash r then Some (gm_put (rq_peer_id r) r (st_inner st h)) else gm_get (st_requests st) h)"
proof -
  let ?st1 = "if gm_mem (rq_hash r) (st_requests st) then st
    else st\<lparr>st_requests := gm_put (rq_hash r) [] (st_requests st)\<rparr>"
  have "st_requests (fst (storage_update r st)) =
      gm_put (rq_hash r) (gm_put (rq_peer_id r) r (st_inner ?st1 (rq_hash r))) (st_requests ?st1)"
    by (simp add: storage_update_def Let_def split: option.splits)
  then show ?thesis by (auto simp: st_inner_def gm_get_or_def)
qed

lemma st_get_update:
  "st_get (fst (storage_update r st)) h p =
     (if h = rq_hash r \<and> p = rq_peer_id r then Some r else st_get st h p)"
  by (auto simp: st_get_def st_inner_def [of "fst (storage_update r st)"] gm_get_or_def update_requests
      split: option.splits) (simp_all add: st_inner_def gm_get_or_def)

lemma update_sessions:
  "st_sessions (fst (storage_update r st)) =
     (case peerContext st (rq_hash r) (rq_peer_id r) of
        Some c \<Rightarrow> st_sessions st
      | None \<Rightarrow> gm_put (rq_hash r, rq_peer_id r) (st_fresh st) (st_sessions st))"
  "snd (storage_update r st) =
     (case peerContext st (rq_hash r) (rq_peer_id r) of Some c \<Rightarrow> c | None \<Rightarrow> st_fresh st)"
  "st_fresh (fst (storage_update r st)) =
     (case peerContext st (rq_hash r) (rq_peer_id r) of Some c \<Rightarrow> st_fresh st | None \<Rightarrow> st_fresh st + 1)"
  "st_ended (fst (storage_update r st)) = st_ended st"
  "st_stopped (fst (storage_update r st)) = st_stopped st"
  "st_fwd (fst (storage_update r st)) = st_fwd st"
  "st_age (fst (storage_update r st)) = st_age st"
  by (simp_all add: storage_update_def peerContext_def Let_def split: option.splits)

lemma peerContext_update:
  "peerContext (fst (storage_update r st)) h p =
     (if h = rq_hash r \<and> p = rq_peer_id r then Some (snd (storage_update r st)) else peerContext st h p)"
  by (auto simp: peerContext_def update_sessions split: option.splits)

lemma end_session_requests [simp]:
  "st_requests (end_session k st) = st_requests st" "st_fwd (end_session k st) = st_fwd st"
  "st_age (end_session k st) = st_age st" "st_fresh (end_session k st) = st_fresh st"
  "st_stopped (end_session k st) = st_stopped st"
  by (simp_all add: end_session_def split: option.splits)

lemma end_session_get:
  "gm_get (st_sessions (end_session k st)) k' = (if k' = k then None else gm_get (st_sessions st) k')"
  by (auto simp: end_session_def split: option.splits)

lemma deleteLocked_fields [frame_simps]:
  "st_sessions (deleteLocked h p st) = st_sessions (end_session (h, p) st)"
  "st_ended (deleteLocked h p st) = st_ended (end_session (h, p) st)"
  "st_age (deleteLocked h p st) = st_age st" "st_fresh (deleteLocked h p st) = st_fresh st"
  "st_stopped (deleteLocked h p st) = st_stopped st"
  by (simp_all add: deleteLocked_def Let_def split: option.splits)

lemma st_get_delete:
  "st_get (deleteLocked h p st) h' p' = (if h' = h \<and> p' = p then None else st_get st h' p')"
proof (cases "gm_get (st_requests st) h")
  case None
  then show ?thesis
    by (auto simp: deleteLocked_def Let_def st_get_def st_inner_def gm_get_or_def)
next
  case (Some m)
  have "gm_get m q = None" if "gm_del p m = []" "q \<noteq> p" for q
    using that gm_get_del [of p m q] by simp
  with Some show ?thesis
    by (auto simp: deleteLocked_def Let_def st_get_def st_inner_def gm_get_or_def split: option.splits)
qed

lemma peerContext_delete:
  "peerContext (deleteLocked h p st) h' p' = (if h' = h \<and> p' = p then None else peerContext st h' p')"
  by (auto simp: peerContext_def deleteLocked_fields end_session_get)

section \<open>Invariants\<close>

definition requests_wf :: "storage \<Rightarrow> bool" where
  "requests_wf st \<longleftrightarrow> gm_wf (st_requests st)
     \<and> (\<forall>h m. gm_get (st_requests st) h = Some m \<longrightarrow> gm_wf m \<and> m \<noteq> [])
     \<and> (\<forall>h p r. st_get st h p = Some r \<longrightarrow> rq_hash r = h \<and> rq_peer_id r = p)"

text \<open>Contexts are numbered upwards, no two peers share one, and a stored context has not been
  cancelled on its own.\<close>

definition sessions_wf :: "storage \<Rightarrow> bool" where
  "sessions_wf st \<longleftrightarrow> gm_wf (st_sessions st)
     \<and> (\<forall>k c. gm_get (st_sessions st) k = Some c \<longrightarrow> c < st_fresh st \<and> c \<notin> set (st_ended st))
     \<and> (\<forall>k k' c. gm_get (st_sessions st) k = Some c \<and> gm_get (st_sessions st) k' = Some c \<longrightarrow> k = k')
     \<and> (\<forall>c \<in> set (st_ended st). c < st_fresh st)"

definition sessions_match :: "storage \<Rightarrow> bool" where
  "sessions_match st \<longleftrightarrow>
     (if st_stopped st then \<forall>h p. peerContext st h p = None \<or> st_get st h p \<noteq> None
      else \<forall>h p. st_get st h p = None \<longleftrightarrow> peerContext st h p = None)"

definition storage_wf :: "storage \<Rightarrow> bool" where
  "storage_wf st \<longleftrightarrow> requests_wf st \<and> sessions_wf st \<and> sessions_match st"

lemma storage_wf_new [inv_intros]: "storage_wf (NewStorage age)"
  by (auto simp: storage_wf_def requests_wf_def sessions_wf_def sessions_match_def NewStorage_def
      peerContext_def st_get_def st_inner_def gm_get_or_def)

lemma requests_wf_inner: "requests_wf st \<Longrightarrow> gm_wf (st_inner st h)"
  by (auto simp: requests_wf_def st_inner_def gm_get_or_def split: option.splits)

lemma gm_wf_requests_update:
  "gm_wf (st_requests st) \<Longrightarrow> gm_wf (st_requests (fst (storage_update r st)))"
  by (simp add: storage_update_def Let_def split: option.splits)

lemma requests_wf_update:
  assumes wf: "requests_wf st" shows "requests_wf (fst (storage_update r st))"
proof -
  have "gm_wf m \<and> m \<noteq> []" if "gm_get (st_requests (fst (storage_update r st))) h = Some m" for h m
    using that wf requests_wf_inner [OF wf, of "rq_hash r"]
    by (auto simp: requests_wf_def update_requests split: if_splits)
  moreover have "rq_hash q = h \<and> rq_peer_id q = p" if "st_get (fst (storage_update r st)) h p = Some q" for h p q
    using that wf by (auto simp: requests_wf_def st_get_update split: if_splits)
  ultimately show ?thesis
    using wf gm_wf_requests_update [of st r] by (simp add: requests_wf_def)
qed

lemma sessions_wf_update:
  assumes "sessions_wf st" shows "sessions_wf (fst (storage_update r st))"
proof (cases "peerContext st (rq_hash r) (rq_peer_id r)")
  case None
  with assms show ?thesis
    by (fastforce simp: sessions_wf_def update_sessions less_Suc_eq)
next
  case (Some c)
  with assms show ?thesis by (simp add: sessions_wf_def update_sessions)
qed

lemma sessions_match_update: "sessions_match st \<Longrightarrow> sessions_match (fst (storage_update r st))"
  by (auto simp: sessions_match_def st_get_update peerContext_update update_sessions(5) split: if_splits)

lemma storage_wf_update [inv_intros]: "storage_wf st \<Longrightarrow> storage_wf (fst (storage_update r st))"
  by (simp add: storage_wf_def requests_wf_update sessions_wf_update sessions_match_update)

lemma sessions_wf_known:
  "sessions_wf st \<Longrightarrow> peerContext st h p = Some c \<Longrightarrow> c < st_fresh st \<and> c \<notin> set (st_ended st)"
  by (simp add: sessions_wf_def peerContext_def)

lemma sessions_match_stop:
  assumes "sessions_match st" shows "sessions_match (st\<lparr>st_stopped := True\<rparr>)"
proof -
  have "peerContext st h p = None \<or> st_get st h p \<noteq> None" for h p
    using assms by (cases "st_stopped st") (auto simp: sessions_match_def)
  then show ?thesis by (simp add: sessions_match_def peerContext_def st_get_def st_inner_def)
qed

lemma sessions_wf_end: "sessions_wf st \<Longrightarrow> sessions_wf (end_session k st)"
  by (cases k) (fastforce simp: sessions_wf_def end_session_def split: option.splits)

lemma delete_requests:
  "gm_get (st_requests (deleteLocked h p st)) h' =
     (if h' \<noteq> h then gm_get (st_requests st) h'
      else case gm_get (st_requests st) h of None \<Rightarrow> None
           | Some m \<Rightarrow> if gm_del p m = [] then None else Some (gm_del p m))"
  by (auto simp: deleteLocked_def Let_def split: option.splits)

lemma requests_wf_delete:
  assumes wf: "requests_wf st" shows "requests_wf (deleteLocked h p st)"
proof -
  have "gm_wf m \<and> m \<noteq> []" if "gm_get (st_requests (deleteLocked h p st)) h' = Some m" for h' m
    using that wf by (auto simp: requests_wf_def delete_requests split: if_splits option.splits)
  moreover have "rq_hash q = h' \<and> rq_peer_id q = p'" if "st_get (deleteLocked h p st) h' p' = Some q" for h' p' q
    using that wf by (auto simp: requests_wf_def st_get_delete split: if_splits)
  moreover have "gm_wf (st_requests (deleteLocked h p st))"
    using wf by (simp add: requests_wf_def deleteLocked_def Let_def split: option.splits)
  ultimately show ?thesis by (simp add: requests_wf_def)
qed

lemma sessions_wf_delete: "sessions_wf st \<Longrightarrow> sessions_wf (deleteLocked h p st)"
  using sessions_wf_end [of st "(h, p)"] by (simp add: sessions_wf_def deleteLocked_fields)

lemma sessions_match_delete: "sessions_match st \<Longrightarrow> sessions_match (deleteLocked h p st)"
  by (auto simp: sessions_match_def st_get_delete peerContext_delete deleteLocked_fields split: if_splits)

lemma storage_wf_delete [inv_intros]: "storage_wf st \<Longrightarrow> storage_wf (deleteLocked h p st)"
  by (simp add: storage_wf_def requests_wf_delete sessions_wf_delete sessions_match_delete)

lemma fold_keeps:
  assumes "Q st" "\<And>k st. k \<in> set ks \<Longrightarrow> Q st \<Longrightarrow> Q (step k st)"
  shows "Q (fold step ks st)"
  using assms by (induction ks arbitrary: st) auto

lemma storage_wf_purge [inv_intros]: "storage_wf st \<Longrightarrow> storage_wf (purgeExpired now st)"
  unfolding purgeExpired_def by (rule fold_keeps) (auto intro: inv_intros)

lemma sessions_match_alt: "st_stopped st \<Longrightarrow>
    sessions_match st \<longleftrightarrow> (\<forall>h p. peerContext st h p = None \<or> st_get st h p \<noteq> None)"
  unfolding sessions_match_def by simp

lemma storage_wf_end_stopped:
  assumes "storage_wf st" "st_stopped st" shows "storage_wf (end_session k st)"
proof -
  have [simp]: "st_get (end_session k st) h p = st_get st h p" for h p
    by (simp add: st_get_def st_inner_def)
  have "peerContext (end_session k st) h p = None \<or> st_get st h p \<noteq> None" for h p
    using assms by (cases "k = (h, p)") (auto simp: storage_wf_def sessions_match_alt peerContext_def end_session_get)
  moreover have "requests_wf (end_session k st)"
    using assms(1) by (simp add: storage_wf_def requests_wf_def)
  ultimately show ?thesis
    using assms by (simp add: storage_wf_def sessions_wf_end sessions_match_alt)
qed

lemma storage_wf_close [inv_intros]: "storage_wf st \<Longrightarrow> storage_wf (storage_close st)"
  unfolding storage_close_def
proof (rule conjunct1 [where Q = "st_stopped (fold (\<lambda>(key, c). end_session key) (st_sessions st)
      (st\<lparr>st_stopped := True\<rparr>))"], rule fold_keeps)
  assume "storage_wf st"
  then show "storage_wf (st\<lparr>st_stopped := True\<rparr>) \<and> st_stopped (st\<lparr>st_stopped := True\<rparr>)"
    by (simp add: storage_wf_def sessions_match_stop)
       (simp add: requests_wf_def sessions_wf_def st_get_def st_inner_def)
next
  fix x and s :: storage
  assume "storage_wf s \<and> st_stopped s"
  then show "storage_wf ((\<lambda>(key, c). end_session key) x s) \<and> st_stopped ((\<lambda>(key, c). end_session key) x s)"
    using storage_wf_end_stopped [of s] by (cases x) simp
qed

section \<open>What a sweep removes\<close>

lemma fold_delete_get:
  "st_get (fold (\<lambda>(h, p). deleteLocked h p) ks st) h p = (if (h, p) \<in> set ks then None else st_get st h p)"
  by (induction ks arbitrary: st) (auto simp: st_get_delete split: if_splits)

lemma expired_keys_iff:
  assumes "requests_wf st"
  shows "(h, p) \<in> set (expired_keys now st) \<longleftrightarrow>
     (\<exists>r. st_get st h p = Some r \<and> timeStampDelta now r > st_age st)"
proof -
  have "(h, p) \<in> set (expired_keys now st) \<longleftrightarrow>
      (\<exists>m r. (h, m) \<in> set (st_requests st) \<and> (p, r) \<in> set m \<and> timeStampDelta now r > st_age st)"
    by (force simp: expired_keys_def)
  also have "\<dots> \<longleftrightarrow> (\<exists>m r. gm_get (st_requests st) h = Some m \<and> (p, r) \<in> set m \<and> timeStampDelta now r > st_age st)"
    unfolding gm_in_set [OF conjunct1 [OF assms [unfolded requests_wf_def]]] ..
  also have "\<dots> \<longleftrightarrow> (\<exists>r. (p, r) \<in> set (st_inner st h) \<and> timeStampDelta now r > st_age st)"
    by (cases "gm_get (st_requests st) h") (auto simp: st_inner_def gm_get_or_def)
  finally show ?thesis
    by (simp add: st_get_def gm_in_set [OF requests_wf_inner [OF assms]])
qed

lemma st_get_purge:
  "requests_wf st \<Longrightarrow> st_get (purgeExpired now st) h p =
     (case st_get st h p of None \<Rightarrow> None
      | Some r \<Rightarrow> if timeStampDelta now r > st_age st then None else Some r)"
  by (auto simp: purgeExpired_def fold_delete_get expired_keys_iff split: option.splits)

text \<open>A hash whose last peer goes takes its cached upstream responses with it; the cache of a hash
  that keeps a peer is untouched.\<close>

lemma delete_cache:
  assumes "st_fwd st = Some fs"
  shows "\<exists>fs'. st_fwd (deleteLocked h p st) = Some fs'
     \<and> (\<forall>h' n. fs_get fs' h' n =
          (if gm_mem h' (st_requests (deleteLocked h p st)) \<or> \<not> gm_mem h' (st_requests st)
           then fs_get fs h' n else None))"
  using assms
  by (auto simp: deleteLocked_def Let_def fs_get_cleanup split: option.splits)

section \<open>Contexts of peer sessions\<close>

datatype 'k session_op = OpenS 'k | CloseS 'k

locale sessions =
  fixes inv :: "'s \<Rightarrow> bool"
    and ctx_of :: "'s \<Rightarrow> 'k \<Rightarrow> nat option"
    and dead :: "'s \<Rightarrow> nat \<Rightarrow> bool"
    and known :: "'s \<Rightarrow> nat \<Rightarrow> bool"
    and opn :: "'k \<Rightarrow> 's \<Rightarrow> 's \<Rightarrow> bool"
    and cls :: "'k \<Rightarrow> 's \<Rightarrow> 's \<Rightarrow> bool"
  assumes inv_open: "inv s \<Longrightarrow> opn k s s' \<Longrightarrow> inv s'"
    and inv_close: "inv s \<Longrightarrow> cls k s s' \<Longrightarrow> inv s'"
    and ctx_known: "inv s \<Longrightarrow> ctx_of s k = Some c \<Longrightarrow> known s c"
    and open_ctx: "inv s \<Longrightarrow> opn k s s' \<Longrightarrow> \<exists>c. ctx_of s' k = Some c \<and> (ctx_of s k = Some c \<or> \<not> known s c)"
    and open_other: "inv s \<Longrightarrow> opn k s s' \<Longrightarrow> j \<noteq> k \<Longrightarrow> ctx_of s' j = ctx_of s j"
    and open_dead: "inv s \<Longrightarrow> opn k s s' \<Longrightarrow> known s c \<Longrightarrow> known s' c \<and> (dead s' c \<longleftrightarrow> dead s c)"
    and close_ctx: "inv s \<Longrightarrow> cls k s s' \<Longrightarrow> ctx_of s' j = (if j = k then None else ctx_of s j)"
    and close_dead: "inv s \<Longrightarrow> cls k s s' \<Longrightarrow> known s c \<Longrightarrow>
      known s' c \<and> (dead s' c \<longleftrightarrow> dead s c \<or> ctx_of s k = Some c)"
begin

inductive run :: "'k session_op list \<Rightarrow> 's \<Rightarrow> 's \<Rightarrow> bool" where
  run_nil: "run [] s s"
| run_open: "opn k s s' \<Longrightarrow> run ops s' s'' \<Longrightarrow> run (OpenS k # ops) s s''"
| run_close: "cls k s s' \<Longrightarrow> run ops s' s'' \<Longrightarrow> run (CloseS k # ops) s s''"

lemma run_stays_dead:
  "run ops s s' \<Longrightarrow> inv s \<Longrightarrow> known s c \<Longrightarrow> dead s c \<Longrightarrow> inv s' \<and> known s' c \<and> dead s' c"
proof (induction rule: run.induct)
  case (run_open k s s' ops s'')
  then show ?case using inv_open open_dead by blast
next
  case (run_close k s s' ops s'')
  then show ?case using inv_close close_dead by blast
qed simp

text \<open>After a session is closed, whatever happens next, its context stays cancelled.\<close>

lemma closed_for_good:
  assumes "inv s" "ctx_of s k = Some c" "cls k s s1" "run ops s1 s2"
  shows "dead s2 c"
proof -
  have "known s c" using assms(1,2) by (rule ctx_known)
  then have "inv s1" "known s1 c" "dead s1 c"
    using assms(1,2,3) inv_close close_dead by blast+
  with run_stays_dead [OF assms(4)] show ?thesis by blast
qed

text \<open>The same peer gets a different context when it comes back.\<close>

lemma reopen_differs:
  assumes "inv s" "ctx_of s k = Some c" "cls k s s1" "opn k s1 s2" "ctx_of s2 k = Some c'"
  shows "c' \<noteq> c"
proof -
  have k: "known s c" using assms(1,2) by (rule ctx_known)
  have "inv s1" using assms(1,3) by (rule inv_close)
  moreover have "known s1 c" "ctx_of s1 k = None"
    using k close_dead [OF assms(1,3)] close_ctx [OF assms(1,3)] by auto
  ultimately show ?thesis
    using open_ctx [of s1 k s2] assms(4,5) by auto
qed

end

definition opens :: "peer_key \<Rightarrow> storage \<Rightarrow> storage \<Rightarrow> bool" where
  "opens k st st' \<longleftrightarrow> (\<exists>r. (rq_hash r, rq_peer_id r) = k \<and> st' = fst (storage_update r st))"

definition closes :: "peer_key \<Rightarrow> storage \<Rightarrow> storage \<Rightarrow> bool" where
  "closes k st st' \<longleftrightarrow> st' = deleteLocked (fst k) (snd k) st"

lemma session_done_update [frame_simps]:
  "session_done (fst (storage_update r st)) c \<longleftrightarrow> session_done st c"
  by (simp add: session_done_def update_sessions)

lemma session_done_delete:
  "session_done (deleteLocked h p st) c \<longleftrightarrow> session_done st c \<or> peerContext st h p = Some c"
  by (auto simp: session_done_def deleteLocked_fields end_session_def peerContext_def split: option.splits)

text \<open>A sweep ends the sessions of its keys, and cancels their contexts only.\<close>

lemma fold_delete_context:
  "peerContext (fold (\<lambda>(h, p). deleteLocked h p) ks st) h p = (if (h, p) \<in> set ks then None else peerContext st h p)"
  by (induction ks arbitrary: st) (auto simp: peerContext_delete split: if_splits)

lemma fold_delete_done:
  "session_done (fold (\<lambda>(h, p). deleteLocked h p) ks st) c \<longleftrightarrow>
     session_done st c \<or> (\<exists>(h, p) \<in> set ks. peerContext st h p = Some c)"
proof (induction ks arbitrary: st)
  case (Cons k ks)
  obtain a b where k: "k = (a, b)" by (cases k)
  show ?case
    unfolding k by (auto simp: Cons.IH session_done_delete peerContext_delete split: if_splits)
qed simp

interpretation sts: sessions storage_wf "\<lambda>st k. peerContext st (fst k) (snd k)" session_done
    "\<lambda>st c. c < st_fresh st" opens closes
proof
  fix s s' :: storage and k j :: peer_key and c :: nat
  assume wf: "storage_wf s"
  show "opens k s s' \<Longrightarrow> storage_wf s'" "closes k s s' \<Longrightarrow> storage_wf s'"
    using wf by (auto simp: opens_def closes_def intro: inv_intros)
  show "peerContext s (fst k) (snd k) = Some c \<Longrightarrow> c < st_fresh s"
    using wf sessions_wf_known by (auto simp: storage_wf_def)
  show "opens k s s' \<Longrightarrow> \<exists>c. peerContext s' (fst k) (snd k) = Some c
      \<and> (peerContext s (fst k) (snd k) = Some c \<or> \<not> c < st_fresh s)"
    by (auto simp: opens_def peerContext_update update_sessions split: option.splits)
  show "opens k s s' \<Longrightarrow> j \<noteq> k \<Longrightarrow> peerContext s' (fst j) (snd j) = peerContext s (fst j) (snd j)"
    by (auto simp: opens_def peerContext_update prod_eq_iff)
  show "opens k s s' \<Longrightarrow> c < st_fresh s \<Longrightarrow> c < st_fresh s' \<and> (session_done s' c \<longleftrightarrow> session_done s c)"
    by (auto simp: opens_def frame_simps update_sessions(3) split: option.splits)
  show "closes k s s' \<Longrightarrow> peerContext s' (fst j) (snd j) =
      (if j = k then None else peerContext s (fst j) (snd j))"
    by (auto simp: closes_def peerContext_delete prod_eq_iff)
  show "closes k s s' \<Longrightarrow> c < st_fresh s \<Longrightarrow>
      c < st_fresh s' \<and> (session_done s' c \<longleftrightarrow> session_done s c \<or> peerContext s (fst k) (snd k) = Some c)"
    by (simp add: closes_def session_done_delete deleteLocked_fields)
qed

end
