(* ===== verification/Scrape.thy ===== *)
theory Scrape
  imports Storage
begin

text \<open>
  Counting seeders and leechers, and the scrape handler (\<open>internal/server/scrape.go\<close>). The loops
  count each non-empty address once, local peers first; the counting loop is shared with the
  announce response and the statistics.
\<close>

section \<open>Counting peers by address\<close>

type_synonym tally = "string list \<times> int \<times> int"

definition is_seeder :: "request \<Rightarrow> bool" where
  "is_seeder r \<longleftrightarrow> rq_event r = ev_completed \<or> rq_left r = 0"

fun count_local :: "request list \<Rightarrow> tally \<Rightarrow> tally" where
  "count_local [] s = s"
| "count_local (r # rs) (seen, c, i) =
     (let ip = p_ip (request_peer r) in
      if ip = [] then count_local rs (seen, c, i)
      else if ip \<in> set seen then count_local rs (seen, c, i)
      else if is_seeder r then count_local rs (ip # seen, c + 1, i)
      else count_local rs (ip # seen, c, i + 1))"

fun count_forwarded :: "peer list \<Rightarrow> tally \<Rightarrow> tally" where
  "count_forwarded [] s = s"
| "count_forwarded (p # ps) (seen, c, i) =
     (if p_ip p = [] then count_forwarded ps (seen, c, i)
      else if p_ip p \<in> set seen then count_forwarded ps (seen, c, i)
      else count_forwarded ps (p_ip p # seen, c + 1, i))"

definition local_requests :: "storage \<Rightarrow> info_hash \<Rightarrow> request list" where
  "local_requests st h = map snd (st_inner st h)"

definition fwd_peers :: "gotime \<Rightarrow> fwd_storage option \<Rightarrow> info_hash \<Rightarrow> peer list" where
  "fwd_peers now fs h = (case fs of None \<Rightarrow> [] | Some f \<Rightarrow> GetAllPeers now f h)"

definition tally_of :: "request list \<Rightarrow> peer list \<Rightarrow> tally" where
  "tally_of rs ps = count_forwarded ps (count_local rs ([], 0, 0))"

section \<open>Scrape\<close>

record scrape_stats =
  sc_complete :: int
  sc_incomplete :: int
  sc_downloaded :: int

definition zero_scrape :: scrape_stats where
  "zero_scrape = \<lparr>sc_complete = 0, sc_incomplete = 0, sc_downloaded = 0\<rparr>"

definition scrape_one :: "gotime \<Rightarrow> storage \<Rightarrow> fwd_storage option \<Rightarrow> info_hash \<Rightarrow> scrape_stats" where
  "scrape_one now st fs h =
     (case tally_of (local_requests st h) (fwd_peers now fs h) of
        (seen, c, i) \<Rightarrow> \<lparr>sc_complete = c, sc_incomplete = i, sc_downloaded = c\<rparr>)"

definition getScrapeStats ::
  "gotime \<Rightarrow> storage \<Rightarrow> fwd_storage option \<Rightarrow> info_hash list \<Rightarrow> (info_hash, scrape_stats) gomap" where
  "getScrapeStats now st fs hs =
     fold (\<lambda>h m. if \<not> info_hash_valid h then m else gm_put h (scrape_one now st fs h) m) hs []"

datatype scrape_error = NoInfohashes | BadInfohash

definition getScrapeResponse ::
  "gotime \<Rightarrow> storage \<Rightarrow> fwd_storage option \<Rightarrow> string list \<Rightarrow> scrape_error + (string, scrape_stats) gomap" where
  "getScrapeResponse now st fs hs =
     (if hs = [] then Inl NoInfohashes
      else if \<not> list_all info_hash_valid hs then Inl BadInfohash
      else (let stats = getScrapeStats now st fs hs
            in Inr (fold (\<lambda>h m. gm_put h (case gm_get stats h of Some s \<Rightarrow> s | None \<Rightarrow> zero_scrape) m) hs [])))"

section \<open>What the counts are\<close>

definition ips_of :: "request list \<Rightarrow> peer list \<Rightarrow> string set" where
  "ips_of rs ps = {ip. ip \<noteq> [] \<and> (ip \<in> (\<lambda>r. p_ip (request_peer r)) ` set rs \<or> ip \<in> p_ip ` set ps)}"

lemma ips_of_Cons: "ips_of (r # rs) ps =
    (if p_ip (request_peer r) = [] then ips_of rs ps else insert (p_ip (request_peer r)) (ips_of rs ps))"
  by (auto simp: ips_of_def)

lemma count_local_Cons:
  "count_local (r # rs) (seen, c, i) =
     (if p_ip (request_peer r) = [] \<or> p_ip (request_peer r) \<in> set seen then count_local rs (seen, c, i)
      else count_local rs (p_ip (request_peer r) # seen, c + of_bool (is_seeder r), i + of_bool (\<not> is_seeder r)))"
  by (simp add: Let_def)

lemma count_local_inv:
  "count_local rs (seen, c, i) = (seen', c', i') \<Longrightarrow>
     set seen' = set seen \<union> ips_of rs [] \<and> (distinct seen \<longrightarrow> distinct seen')
     \<and> c' + i' = c + i + (int (length seen') - int (length seen)) \<and> c \<le> c' \<and> i \<le> i'"
proof (induction rs arbitrary: seen c i)
  case Nil
  then show ?case by (auto simp: ips_of_def)
next
  case (Cons r rs)
  let ?ip = "p_ip (request_peer r)"
  show ?case
  proof (cases "?ip = [] \<or> ?ip \<in> set seen")
    case True
    then have "count_local rs (seen, c, i) = (seen', c', i')"
      using Cons.prems unfolding count_local_Cons by simp
    from Cons.IH [OF this] True show ?thesis by (auto simp: ips_of_Cons)
  next
    case False
    then have "count_local rs (?ip # seen, c + of_bool (is_seeder r), i + of_bool (\<not> is_seeder r)) = (seen', c', i')"
      using Cons.prems unfolding count_local_Cons by simp
    from Cons.IH [OF this] False show ?thesis
      by (cases "is_seeder r") (simp_all add: ips_of_Cons)
  qed
qed

lemma count_forwarded_inv:
  "count_forwarded ps (seen, c, i) = (seen', c', i') \<Longrightarrow>
     set seen' = set seen \<union> ips_of [] ps \<and> (distinct seen \<longrightarrow> distinct seen')
     \<and> c' = c + (int (length seen') - int (length seen)) \<and> c \<le> c' \<and> i' = i"
  by (induction ps "(seen, c, i)" arbitrary: seen c i rule: count_forwarded.induct)
     (auto simp: ips_of_def split: if_splits)

lemma tally_total:
  assumes "tally_of rs ps = (seen, c, i)"
  shows "c + i = int (card (ips_of rs ps))" "0 \<le> i" "0 \<le> c" "i \<le> int (card (ips_of rs []))"
proof -
  obtain s1 c1 i1 where l: "count_local rs ([], 0, 0) = (s1, c1, i1)" by (metis prod_cases3)
  have f: "count_forwarded ps (s1, c1, i1) = (seen, c, i)" using assms l by (simp add: tally_of_def)
  note L = count_local_inv [OF l] and F = count_forwarded_inv [OF f]
  have "set seen = ips_of rs ps" using L F by (auto simp: ips_of_def)
  moreover have "distinct seen" using L F by simp
  ultimately have n: "int (length seen) = int (card (ips_of rs ps))" by (metis distinct_card)
  then show "c + i = int (card (ips_of rs ps))" using L F by simp
  show "0 \<le> i" "0 \<le> c"
    using L F by simp_all
  have "int (length s1) = int (card (ips_of rs []))" using L by (metis Un_empty_left distinct.simps(1) distinct_card empty_set)
  then show "i \<le> int (card (ips_of rs []))" using L F by simp
qed

lemma fold_put_get:
  "gm_get (fold (\<lambda>h m. if P h then gm_put h (f h) m else m) hs m) x =
     (if x \<in> set hs \<and> P x then Some (f x) else gm_get m x)"
  by (induction hs arbitrary: m) auto

lemma getScrapeStats_get:
  "gm_get (getScrapeStats now st fs hs) h =
     (if h \<in> set hs \<and> info_hash_valid h then Some (scrape_one now st fs h) else None)"
proof -
  have "(\<lambda>h m. if \<not> info_hash_valid h then m else gm_put h (scrape_one now st fs h) m) =
      (\<lambda>h m. if info_hash_valid h then gm_put h (scrape_one now st fs h) m else m)" by (intro ext) simp
  then show ?thesis using fold_put_get [of info_hash_valid "scrape_one now st fs" hs "[]" h]
    by (simp add: getScrapeStats_def)
qed

lemma getScrapeResponse_get:
  assumes "getScrapeResponse now st fs hs = Inr files"
  shows "gm_get files h = (if h \<in> set hs then Some (scrape_one now st fs h) else None)"
proof -
  have v: "list_all info_hash_valid hs"
    and f: "files = fold (\<lambda>h m. gm_put h (case gm_get (getScrapeStats now st fs hs) h of
        Some s \<Rightarrow> s | None \<Rightarrow> zero_scrape) m) hs []"
    using assms by (auto simp: getScrapeResponse_def Let_def split: if_splits)
  have "gm_get files h = (if h \<in> set hs then Some (case gm_get (getScrapeStats now st fs hs) h of
        Some s \<Rightarrow> s | None \<Rightarrow> zero_scrape) else None)"
    unfolding f using fold_put_get [of "\<lambda>_. True" "\<lambda>h. case gm_get (getScrapeStats now st fs hs) h of
        Some s \<Rightarrow> s | None \<Rightarrow> zero_scrape" hs "[]" h] by simp
  then show ?thesis using v by (auto simp: getScrapeStats_get list_all_iff)
qed

text \<open>The total does not depend on the iteration orders of the maps; the split between seeders and
  leechers can, when two local peers share an address.\<close>

lemma tally_total_order:
  assumes "mset rs = mset rs'" "mset ps = mset ps'" "tally_of rs ps = (s, c, i)" "tally_of rs' ps' = (s', c', i')"
  shows "c + i = c' + i'"
proof -
  have "ips_of rs ps = ips_of rs' ps'"
    using mset_eq_setD [OF assms(1)] mset_eq_setD [OF assms(2)] by (simp add: ips_of_def)
  then show ?thesis using tally_total(1) [OF assms(3)] tally_total(1) [OF assms(4)] by simp
qed

end
