(* ===== verification/Config.thy ===== *)
theory Config
  imports Forwards
begin

text \<open>
  The configuration (\<open>internal/config/config.go\<close>) and the order in which its sources override
  each other (\<open>cmd/retracker/config.go\<close>): defaults, the YAML file, the environment, the flags
  that were supplied. Reading and decoding the YAML files is not part of the source; it is the
  parameters \<open>load_file\<close> and \<open>load_forwards\<close>.
\<close>

record config =
  cf_announce_interval :: int
  cf_retry_period :: int
  cf_tracker_id :: string
  cf_listen :: string
  cf_udp_listen :: string
  cf_debug :: bool
  cf_age :: rat
  cf_x_real_ip :: bool
  cf_forwards :: "forward list"
  cf_forwards_file :: string
  cf_forward_timeout :: int
  cf_forwarder_workers :: int
  cf_forwarder_queue_size :: int
  cf_max_forwarder_workers :: int
  cf_queue_scale_threshold_pct :: int
  cf_queue_rate_limit_threshold :: int
  cf_queue_throttle_threshold :: int
  cf_queue_throttle_top_n :: int
  cf_rate_limit_initial_per_sec :: int
  cf_rate_limit_initial_burst :: int
  cf_forwarder_suspend_seconds :: int
  cf_forwarder_fail_threshold :: int
  cf_forwarder_retry_attempts :: int
  cf_forwarder_retry_base_ms :: int
  cf_max_forwarders_per_announce :: int
  cf_stats_interval :: int
  cf_prometheus_enabled :: bool

definition defaultConfig :: config where
  "defaultConfig =
     \<lparr>cf_announce_interval = 1800, cf_retry_period = 300, cf_tracker_id = [],
      cf_listen = '':6969'', cf_udp_listen = [], cf_debug = False, cf_age = 180,
      cf_x_real_ip = False, cf_forwards = [], cf_forwards_file = [],
      cf_forward_timeout = 30, cf_forwarder_workers = 10, cf_forwarder_queue_size = 10000,
      cf_max_forwarder_workers = 20, cf_queue_scale_threshold_pct = 60,
      cf_queue_rate_limit_threshold = 80, cf_queue_throttle_threshold = 60,
      cf_queue_throttle_top_n = 20, cf_rate_limit_initial_per_sec = 10,
      cf_rate_limit_initial_burst = 200, cf_forwarder_suspend_seconds = 300,
      cf_forwarder_fail_threshold = 10, cf_forwarder_retry_attempts = 5,
      cf_forwarder_retry_base_ms = 500, cf_max_forwarders_per_announce = 0,
      cf_stats_interval = 60, cf_prometheus_enabled = False\<rparr>"

datatype 'e config_error =
    LoadConfig 'e
  | ParseDebugEnv
  | ParseDebugFlag
  | LoadForwarders 'e

text \<open>\<open>strconv.ParseBool\<close>.\<close>

definition parse_bool :: "string \<Rightarrow> bool option" where
  "parse_bool s =
     (if s \<in> {''1'', ''t'', ''T'', ''TRUE'', ''true'', ''True''} then Some True
      else if s \<in> {''0'', ''f'', ''F'', ''FALSE'', ''false'', ''False''} then Some False
      else None)"

definition LoadFromFile ::
  "(string \<Rightarrow> config \<Rightarrow> 'e + config) \<Rightarrow> string \<Rightarrow> config \<Rightarrow> 'e + config" where
  "LoadFromFile load_file path cfg = (if path = [] then Inr cfg else load_file path cfg)"

definition ReloadForwards ::
  "(string \<Rightarrow> 'e + forward list) \<Rightarrow> string \<Rightarrow> config \<Rightarrow> 'e + config" where
  "ReloadForwards load_forwards path cfg =
     (case load_forwards path of
        Inl e \<Rightarrow> Inl e
      | Inr fs \<Rightarrow> Inr (cfg\<lparr>cf_forwards := fs, cf_forwards_file := path\<rparr>))"

definition env_settings :: "(string \<Rightarrow> string option) \<Rightarrow> config \<Rightarrow> 'e config_error + config" where
  "env_settings lookupEnv cfg =
     (let listen = case_option [] id (lookupEnv ''RETRACKER_LISTEN'');
          cfg1 = (if listen \<noteq> [] then cfg\<lparr>cf_listen := listen\<rparr> else cfg);
          cfg2 = (case lookupEnv ''RETRACKER_UDP_LISTEN'' of
                    Some v \<Rightarrow> cfg1\<lparr>cf_udp_listen := v\<rparr> | None \<Rightarrow> cfg1);
          debug = case_option [] id (lookupEnv ''RETRACKER_DEBUG'')
      in if debug \<noteq> [] then
           (case parse_bool debug of
              None \<Rightarrow> Inl ParseDebugEnv
            | Some b \<Rightarrow> Inr (cfg2\<lparr>cf_debug := b\<rparr>))
         else Inr cfg2)"

definition flag_settings :: "(string, string) gomap \<Rightarrow> config \<Rightarrow> 'e config_error + config" where
  "flag_settings overrides cfg =
     (let cfg1 = (case gm_get overrides ''l'' of Some v \<Rightarrow> cfg\<lparr>cf_listen := v\<rparr> | None \<Rightarrow> cfg);
          cfg2 = (case gm_get overrides ''u'' of Some v \<Rightarrow> cfg1\<lparr>cf_udp_listen := v\<rparr> | None \<Rightarrow> cfg1)
      in case gm_get overrides ''d'' of
           None \<Rightarrow> Inr cfg2
         | Some v \<Rightarrow> (case parse_bool v of
                        None \<Rightarrow> Inl ParseDebugFlag
                      | Some b \<Rightarrow> Inr (cfg2\<lparr>cf_debug := b\<rparr>)))"

definition interval_defaults :: "config \<Rightarrow> config" where
  "interval_defaults cfg =
     (let cfg1 = (if cf_announce_interval cfg \<le> 0 then cfg\<lparr>cf_announce_interval := 1800\<rparr> else cfg)
      in if cf_retry_period cfg1 \<le> 0 then cfg1\<lparr>cf_retry_period := 300\<rparr> else cfg1)"

definition loadConfig ::
  "(string \<Rightarrow> config \<Rightarrow> 'e + config) \<Rightarrow> (string \<Rightarrow> 'e + forward list) \<Rightarrow>
   (string, string) gomap \<Rightarrow> (string \<Rightarrow> string option) \<Rightarrow> 'e config_error + config" where
  "loadConfig load_file load_forwards overrides lookupEnv =
     (let configPath = (case gm_get overrides ''c'' of
                          Some v \<Rightarrow> v | None \<Rightarrow> case_option [] id (lookupEnv ''RETRACKER_CONFIG''))
      in case LoadFromFile load_file configPath defaultConfig of
           Inl e \<Rightarrow> Inl (LoadConfig e)
         | Inr cfg \<Rightarrow>
             (case env_settings lookupEnv cfg of
                Inl e \<Rightarrow> Inl e
              | Inr cfg1 \<Rightarrow>
                  (case flag_settings overrides cfg1 of
                     Inl e \<Rightarrow> Inl e
                   | Inr cfg2 \<Rightarrow>
                       (let cfg3 = interval_defaults cfg2;
                            forwardsPath = (case gm_get overrides ''f'' of
                              Some v \<Rightarrow> v | None \<Rightarrow> case_option [] id (lookupEnv ''RETRACKER_FORWARDS''))
                        in if forwardsPath \<noteq> [] then
                             (case ReloadForwards load_forwards forwardsPath cfg3 of
                                Inl e \<Rightarrow> Inl (LoadForwarders e) | Inr cfg4 \<Rightarrow> Inr cfg4)
                           else Inr cfg3))))"

lemma interval_defaults_fields [simp]:
  "cf_listen (interval_defaults cfg) = cf_listen cfg"
  "cf_udp_listen (interval_defaults cfg) = cf_udp_listen cfg"
  "cf_debug (interval_defaults cfg) = cf_debug cfg"
  "0 < cf_announce_interval (interval_defaults cfg)"
  "0 < cf_retry_period (interval_defaults cfg)"
  by (simp_all add: interval_defaults_def Let_def)

lemma env_settings_ok:
  "env_settings lookupEnv cfg = Inr cfg' \<Longrightarrow>
     cf_listen cfg' = (case lookupEnv ''RETRACKER_LISTEN'' of
                         Some v \<Rightarrow> if v = [] then cf_listen cfg else v | None \<Rightarrow> cf_listen cfg)
     \<and> cf_udp_listen cfg' = case_option (cf_udp_listen cfg) id (lookupEnv ''RETRACKER_UDP_LISTEN'')"
  by (auto simp: env_settings_def Let_def split: option.splits if_splits)

lemma flag_settings_ok:
  "flag_settings overrides cfg = Inr cfg' \<Longrightarrow>
     cf_listen cfg' = case_option (cf_listen cfg) id (gm_get overrides ''l'')
     \<and> cf_udp_listen cfg' = case_option (cf_udp_listen cfg) id (gm_get overrides ''u'')"
  by (auto simp: flag_settings_def Let_def split: option.splits)

lemma reload_fields:
  "ReloadForwards load_forwards path cfg = Inr cfg' \<Longrightarrow>
     cf_listen cfg' = cf_listen cfg \<and> cf_udp_listen cfg' = cf_udp_listen cfg \<and> cf_debug cfg' = cf_debug cfg
     \<and> cf_announce_interval cfg' = cf_announce_interval cfg \<and> cf_retry_period cfg' = cf_retry_period cfg"
  by (auto simp: ReloadForwards_def split: sum.splits)

lemma loadConfig_stages:
  assumes "loadConfig load_file load_forwards overrides lookupEnv = Inr cfg"
  obtains base mid last where
    "env_settings lookupEnv base = (Inr mid :: 'e config_error + config)"
    "flag_settings overrides mid = (Inr last :: 'e config_error + config)"
    "cf_listen cfg = cf_listen last" "cf_udp_listen cfg = cf_udp_listen last"
    "cf_debug cfg = cf_debug last" "0 < cf_announce_interval cfg" "0 < cf_retry_period cfg"
    "LoadFromFile (load_file :: string \<Rightarrow> config \<Rightarrow> 'e + config)
       (case gm_get overrides ''c'' of Some v \<Rightarrow> v
        | None \<Rightarrow> case_option [] id (lookupEnv ''RETRACKER_CONFIG'')) defaultConfig = Inr base"
  using assms
  by (auto simp: loadConfig_def Let_def split: sum.splits if_splits dest!: reload_fields)

text \<open>Which source decides the listen addresses.\<close>

lemma loadConfig_listen:
  assumes "loadConfig load_file load_forwards overrides lookupEnv = Inr cfg"
  shows "gm_get overrides ''l'' = Some v \<Longrightarrow> cf_listen cfg = v"
    and "gm_get overrides ''l'' = None \<Longrightarrow> lookupEnv ''RETRACKER_LISTEN'' = Some e \<Longrightarrow> e \<noteq> [] \<Longrightarrow>
           cf_listen cfg = e"
    and "gm_get overrides ''u'' = Some v \<Longrightarrow> cf_udp_listen cfg = v"
    and "gm_get overrides ''u'' = None \<Longrightarrow> lookupEnv ''RETRACKER_UDP_LISTEN'' = Some e \<Longrightarrow>
           cf_udp_listen cfg = e"
    and "0 < cf_announce_interval cfg" and "0 < cf_retry_period cfg"
  by (rule loadConfig_stages [OF assms];
      auto dest!: env_settings_ok flag_settings_ok split: option.splits if_splits)+

end
