(* ===== verification/RateLimit.thy ===== *)
theory RateLimit
  imports Float64
begin

text \<open>
  The token bucket of \<open>internal/server/forwarderManager.go\<close>. Elapsed seconds and the refill are
  \<open>float64\<close> values; the conversion to \<open>int\<close> truncates.
\<close>

record token_bucket =
  tb_tokens :: int
  tb_rate :: int
  tb_burst :: int
  tb_last_tick :: gotime

definition tb_refill :: "token_bucket \<Rightarrow> duration \<Rightarrow> int" where
  "tb_refill tb elapsed = \<lfloor>f64 (dur_seconds elapsed * f64 (of_int (tb_rate tb)))\<rfloor>"

definition tb_first :: "gotime \<Rightarrow> token_bucket \<Rightarrow> token_bucket" where
  "tb_first now tb =
     (if is_zero_time (tb_last_tick tb) then tb\<lparr>tb_last_tick := now, tb_tokens := tb_burst tb\<rparr> else tb)"

definition tb_fill :: "gotime \<Rightarrow> token_bucket \<Rightarrow> token_bucket" where
  "tb_fill now tb =
     (let elapsed = time_sub now (tb_last_tick tb)
      in if elapsed > 0 \<and> tb_rate tb > 0 then
           (let refill = tb_refill tb elapsed
            in if refill > 0 then tb\<lparr>tb_tokens := min (tb_burst tb) (tb_tokens tb + refill), tb_last_tick := now\<rparr>
               else tb)
         else tb)"

definition allow :: "gotime \<Rightarrow> token_bucket \<Rightarrow> token_bucket \<times> bool" where
  "allow now tb =
     (let tb' = tb_fill now (tb_first now tb)
      in if tb_tokens tb' > 0 then (tb'\<lparr>tb_tokens := tb_tokens tb' - 1\<rparr>, True) else (tb', False))"

text \<open>A run of calls, at the given times.\<close>

fun allow_run :: "gotime list \<Rightarrow> token_bucket \<Rightarrow> token_bucket \<times> nat" where
  "allow_run [] tb = (tb, 0)"
| "allow_run (t # ts) tb =
     (let (tb1, ok) = allow t tb; (tb2, n) = allow_run ts tb1 in (tb2, if ok then n + 1 else n))"

definition tb_ok :: "token_bucket \<Rightarrow> bool" where
  "tb_ok tb \<longleftrightarrow> 0 \<le> tb_tokens tb \<and> tb_tokens tb \<le> tb_burst tb"

lemma tb_fill_fields [simp]:
  "tb_rate (tb_fill now tb) = tb_rate tb" "tb_burst (tb_fill now tb) = tb_burst tb"
  "tb_rate (tb_first now tb) = tb_rate tb" "tb_burst (tb_first now tb) = tb_burst tb"
  by (simp_all add: tb_fill_def tb_first_def Let_def)

lemma allow_fields [simp]:
  "tb_rate (fst (allow now tb)) = tb_rate tb" "tb_burst (fst (allow now tb)) = tb_burst tb"
  by (simp_all add: allow_def Let_def)

lemma tb_ok_fill: "tb_ok tb \<Longrightarrow> tb_ok (tb_fill now tb)"
  by (auto simp: tb_ok_def tb_fill_def Let_def)

lemma tb_ok_first: "tb_ok tb \<Longrightarrow> tb_ok (tb_first now tb)"
  by (auto simp: tb_ok_def tb_first_def)

lemma tb_ok_allow [inv_intros]: "tb_ok tb \<Longrightarrow> tb_ok (fst (allow now tb))"
  using tb_ok_fill [OF tb_ok_first, of tb now now]
  by (auto simp: allow_def Let_def tb_ok_def)

text \<open>With the clock standing still at most \<open>burst\<close> calls are allowed.\<close>

lemma tb_fill_now: "tb_last_tick tb = now \<Longrightarrow> tb_fill now tb = tb"
  by (simp add: tb_fill_def time_sub_def Let_def max_duration_def min_duration_def)

lemma allow_still:
  "tb_last_tick tb = now \<Longrightarrow> \<not> is_zero_time now \<Longrightarrow> allow now tb =
     (if tb_tokens tb > 0 then (tb\<lparr>tb_tokens := tb_tokens tb - 1\<rparr>, True) else (tb, False))"
  by (simp add: allow_def tb_first_def tb_fill_now)

lemma allow_run_still:
  assumes "tb_last_tick tb = now" "\<not> is_zero_time now" "0 \<le> tb_tokens tb"
  shows "int (snd (allow_run (replicate k now) tb)) = min (int k) (tb_tokens tb)"
  using assms
proof (induction k arbitrary: tb)
  case (Suc k)
  show ?case
  proof (cases "tb_tokens tb > 0")
    case True
    have "int (snd (allow_run (replicate k now) (tb\<lparr>tb_tokens := tb_tokens tb - 1\<rparr>))) =
        min (int k) (tb_tokens tb - 1)"
      using Suc.IH [of "tb\<lparr>tb_tokens := tb_tokens tb - 1\<rparr>"] Suc.prems True by simp
    then show ?thesis using True Suc.prems by (simp add: allow_still split_beta Let_def)
  next
    case False
    then show ?thesis using Suc.IH [of tb] Suc.prems by (simp add: allow_still split_beta Let_def)
  qed
qed simp

end
