(* ===== verification/Errors.thy ===== *)
theory Errors
  imports GoStrings
begin

text \<open>
  internal/server/errors.go: the typed forwarder error, its classification into retryable,
  permanent and rate limited, and the reason text shown for a disabled forwarder.

  A Go error is a value of \<open>go_error\<close>: a text, a wrapped error (\<open>fmt.Errorf\<close> with \<open>%w\<close>), a
  system error number, the \<open>net.DNSError\<close> and \<open>net.OpError\<close> of the \<open>net\<close> package, or a
  \<open>ForwarderError\<close>. Each carries the text its \<open>Error\<close> method prints; nil is \<open>None\<close>.
\<close>

datatype ferr_type = Untyped | Retryable | Permanent | RateLimited

datatype errno = ECONNREFUSED | EACCES | EPERM | OtherErrno

datatype go_error =
    ErrText string
  | ErrWrap string go_error
  | ErrErrno errno string
  | ErrDNS string
  | ErrOp string "go_error option"
  | ErrForwarder ferr_type string "go_error option"

fun error_string :: "go_error \<Rightarrow> string" where
  "error_string (ErrText m) = m"
| "error_string (ErrWrap m e) = m"
| "error_string (ErrErrno n m) = m"
| "error_string (ErrDNS m) = m"
| "error_string (ErrOp m e) = m"
| "error_string (ErrForwarder t m c) =
     (if m \<noteq> [] then m else case c of Some e \<Rightarrow> error_string e | None \<Rightarrow> ''forwarder error'')"

text \<open>\<open>Unwrap\<close> and the chain that \<open>errors.As\<close> and \<open>errors.Is\<close> walk.\<close>

fun error_chain :: "go_error \<Rightarrow> go_error list" where
  "error_chain (ErrWrap m e) = ErrWrap m e # error_chain e"
| "error_chain (ErrOp m (Some e)) = ErrOp m (Some e) # error_chain e"
| "error_chain (ErrForwarder t m (Some e)) = ErrForwarder t m (Some e) # error_chain e"
| "error_chain e = [e]"

definition is_forwarder_error :: "go_error \<Rightarrow> bool" where
  "is_forwarder_error e = (case e of ErrForwarder _ _ _ \<Rightarrow> True | _ \<Rightarrow> False)"

definition is_dns_error :: "go_error \<Rightarrow> bool" where
  "is_dns_error e = (case e of ErrDNS _ \<Rightarrow> True | _ \<Rightarrow> False)"

definition is_op_error :: "go_error \<Rightarrow> bool" where
  "is_op_error e = (case e of ErrOp _ _ \<Rightarrow> True | _ \<Rightarrow> False)"

definition errors_is_errno :: "errno \<Rightarrow> go_error \<Rightarrow> bool" where
  "errors_is_errno n e \<longleftrightarrow>
     list_ex (\<lambda>x. case x of ErrErrno k _ \<Rightarrow> k = n | _ \<Rightarrow> False) (error_chain e)"

definition isPermanentErr :: "go_error option \<Rightarrow> bool" where
  "isPermanentErr e = (case e of Some (ErrForwarder t _ _) \<Rightarrow> t = Permanent | _ \<Rightarrow> False)"

definition shouldSuspendErr :: "go_error option \<Rightarrow> bool" where
  "shouldSuspendErr e = (case e of Some (ErrForwarder t _ _) \<Rightarrow> t = RateLimited | _ \<Rightarrow> False)"

section \<open>Classification of messages\<close>

definition hasTrackerContext :: "string \<Rightarrow> bool" where
  "hasTrackerContext m = contains_any m [''tracker error'', ''tracker failure'', ''http status'']"

definition isRateLimitMessage :: "string \<Rightarrow> bool" where
  "isRateLimitMessage m = contains_any m
     [''http status 429'', ''too many requests'', ''rate limit'', ''ratelimit'', ''rate-limited'',
      ''slow down'', ''slowdown'', ''throttl'', ''retry later'', ''flood'']"

definition isPermanentMessage :: "string \<Rightarrow> bool" where
  "isPermanentMessage m = contains_any m
     [''http status 400'', ''http status 403'', ''http status 404'', ''tracker rejection'',
      ''no such host'', ''unknown host'', ''connection refused'', ''permission denied'',
      ''tls: unrecognized name'', ''x509:'', ''certificate is not valid for'',
      ''tls: failed to verify certificate'', ''no route to host'', ''network is unreachable'']"

definition classifyForwarderErrorMessage :: "string \<Rightarrow> ferr_type" where
  "classifyForwarderErrorMessage message =
     (let m = to_lower (trim_space message) in
      if m = [] then Retryable
      else if hasTrackerContext m \<and> isRateLimitMessage m then RateLimited
      else if isPermanentMessage m then Permanent else Retryable)"

definition isPermanentTransportError :: "go_error \<Rightarrow> bool" where
  "isPermanentTransportError err =
     (if list_ex is_dns_error (error_chain err) then True
      else case find is_op_error (error_chain err) of
        Some (ErrOp _ (Some e)) \<Rightarrow>
          errors_is_errno ECONNREFUSED e \<or> errors_is_errno EACCES e \<or> errors_is_errno EPERM e
          \<or> contains (to_lower (error_string e)) ''no such host''
      | _ \<Rightarrow> False)"

definition classifyForwarderError :: "go_error option \<Rightarrow> go_error option" where
  "classifyForwarderError err =
     (case err of
        None \<Rightarrow> None
      | Some e \<Rightarrow> (case find is_forwarder_error (error_chain e) of
          Some (ErrForwarder t m c) \<Rightarrow>
            Some (ErrForwarder
              (if t = Untyped then classifyForwarderErrorMessage (error_string (ErrForwarder t m c)) else t) m c)
        | _ \<Rightarrow>
            (let msg = trim_space (error_string e);
                 t = (if isPermanentTransportError e then Permanent
                      else classifyForwarderErrorMessage msg)
             in Some (ErrForwarder t msg (Some e)))))"

definition isTrackerRejection :: "int \<Rightarrow> bool" where
  "isTrackerRejection code \<longleftrightarrow> code = 400 \<or> code = 403 \<or> code = 404"

definition disableReasonForError :: "go_error option \<Rightarrow> string" where
  "disableReasonForError err =
     (case classifyForwarderError err of
        None \<Rightarrow> ''permanent forwarder error''
      | Some classified \<Rightarrow>
          (let m = to_lower (error_string classified) in
           if contains m ''http status 400'' then ''HTTP 400 (tracker rejection)''
           else if contains m ''http status 403'' then ''HTTP 403 (tracker rejection)''
           else if contains m ''http status 404'' then ''HTTP 404 (tracker rejection)''
           else if contains m ''tracker rejection'' then ''tracker rejection''
           else if contains m ''no such host'' \<or> contains m ''unknown host'' then ''DNS lookup failed''
           else if contains m ''tls: unrecognized name'' then ''TLS server name mismatch''
           else if contains m ''x509:'' \<or> contains m ''certificate is not valid for''
             \<or> contains m ''tls: failed to verify certificate'' then ''TLS certificate validation failed''
           else if contains m ''permission denied'' then ''permission denied''
           else if contains m ''connection refused'' then ''connection refused''
           else if contains m ''no route to host'' \<or> contains m ''network is unreachable''
             then ''network unreachable''
           else if isPermanentErr (Some classified) then ''permanent forwarder error''
           else error_string classified))"

section \<open>The classification is a function of the innermost typed error\<close>

lemma classify_message_typed: "classifyForwarderErrorMessage m \<noteq> Untyped"
  by (simp add: classifyForwarderErrorMessage_def Let_def)

lemma find_forwarder_form:
  "find is_forwarder_error es = Some x \<Longrightarrow> \<exists>t m c. x = ErrForwarder t m c"
proof -
  assume "find is_forwarder_error es = Some x"
  then have "is_forwarder_error x" by (auto simp: find_Some_iff)
  then show ?thesis by (cases x) (auto simp: is_forwarder_error_def)
qed

lemma classify_form:
  assumes "classifyForwarderError (Some e) = Some x"
  shows "\<exists>t m c. x = ErrForwarder t m c \<and> t \<noteq> Untyped"
proof (cases "find is_forwarder_error (error_chain e)")
  case None
  with assms show ?thesis
    by (auto simp: classifyForwarderError_def Let_def classify_message_typed)
next
  case (Some y)
  then obtain t m c where "y = ErrForwarder t m c" using find_forwarder_form by blast
  with Some assms show ?thesis
    by (auto simp: classifyForwarderError_def classify_message_typed simp del: error_string.simps)
qed

lemma classify_total: "\<exists>t m c. classifyForwarderError (Some e) = Some (ErrForwarder t m c) \<and> t \<noteq> Untyped"
proof -
  have "classifyForwarderError (Some e) \<noteq> None"
    by (auto simp: classifyForwarderError_def Let_def split: option.splits go_error.splits)
  then obtain x where "classifyForwarderError (Some e) = Some x" by blast
  with classify_form [OF this] show ?thesis by auto
qed

lemma error_chain_forwarder:
  "\<exists>es. error_chain (ErrForwarder t m c) = ErrForwarder t m c # es"
  by (cases c) auto

lemma classify_typed:
  "t \<noteq> Untyped \<Longrightarrow> classifyForwarderError (Some (ErrForwarder t m c)) = Some (ErrForwarder t m c)"
  using error_chain_forwarder [of t m c]
  by (auto simp: classifyForwarderError_def is_forwarder_error_def simp del: error_chain.simps)

text \<open>Classifying twice changes nothing, and a suspended forwarder is never also disabled.\<close>

lemma classify_idem:
  "classifyForwarderError (classifyForwarderError err) = classifyForwarderError err"
proof (cases err)
  case None
  then show ?thesis by (simp add: classifyForwarderError_def)
next
  case (Some e)
  then obtain t m c where "classifyForwarderError err = Some (ErrForwarder t m c)" "t \<noteq> Untyped"
    using classify_total by blast
  then show ?thesis by (simp add: classify_typed)
qed

lemma suspend_not_permanent: "shouldSuspendErr e \<Longrightarrow> \<not> isPermanentErr e"
  by (auto simp: shouldSuspendErr_def isPermanentErr_def split: option.splits go_error.splits)

section \<open>What survives trimming\<close>

definition plain_char :: "char \<Rightarrow> bool" where
  "plain_char c \<longleftrightarrow> 33 \<le> byte_val c \<and> byte_val c \<le> 126"

lemma space_rune_not_plain: "space_rune r \<Longrightarrow> c \<in> set r \<Longrightarrow> \<not> plain_char c"
  by (auto simp: space_rune_def plain_char_def split: list.splits)

lemma space_at_plain: "plain_char c \<Longrightarrow> space_at (c # s) = 0"
proof -
  assume "plain_char c"
  then have "\<not> space_rune (take n (c # s))" for n
    using space_rune_not_plain [of "take n (c # s)" c] by (cases n) auto
  from this [of 1] this [of 2] this [of 3] show ?thesis
    unfolding space_at_def by (simp only: if_False)
qed

lemma trim_left_plain: "plain_char c \<Longrightarrow> trim_left (c # s) = c # s"
  by (subst trim_left.simps) (simp add: space_at_plain)

lemma space_at_end_rune:
  "space_at_end s \<noteq> 0 \<Longrightarrow> space_rune (drop (length s - space_at_end s) s)"
  by (auto simp: space_at_end_def Let_def rev_take split: if_splits)

lemma trim_right_keeps:
  "plain_char c \<Longrightarrow> prefix (a @ [c]) (trim_right (a @ c # b))"
proof (induction "a @ c # b" arbitrary: b rule: trim_right.induct)
  case 1
  let ?s = "a @ c # b"
  show ?case
  proof (cases "space_at_end ?s = 0")
    case True
    then show ?thesis by (simp add: trim_right.simps [of ?s])
  next
    case False
    let ?n = "length ?s - space_at_end ?s"
    have "\<not> plain_char x" if "x \<in> set (drop ?n ?s)" for x
      using that space_rune_not_plain space_at_end_rune [OF False] by blast
    with \<open>plain_char c\<close> have "c \<notin> set (drop ?n ?s)" by blast
    then have n: "length a < ?n" by (auto simp: drop_Cons' split: if_splits)
    then have "take ?n ?s = a @ c # take (?n - Suc (length a)) b"
      by (simp add: take_Cons')
    with "1.hyps" [OF False this] "1.prems" False show ?thesis
      by (simp add: trim_right.simps [of ?s])
  qed
qed

text \<open>A status line of a forwarder's answer is classified by its code: the three rejection codes
  are permanent, 429 is a rate limit whatever text follows it.\<close>

definition status_text :: "int \<Rightarrow> string \<Rightarrow> string" where
  "status_text code status = ''HTTP status '' @ itoa code @ '': '' @ status"

definition rejection_text :: "int \<Rightarrow> string" where
  "rejection_text code = ''HTTP status '' @ itoa code @ '' (tracker rejection)''"

lemma classify_rejection_text:
  "isTrackerRejection code \<Longrightarrow> classifyForwarderErrorMessage (rejection_text code) = Permanent"
proof -
  have "classifyForwarderErrorMessage (rejection_text 400) = Permanent"
    "classifyForwarderErrorMessage (rejection_text 403) = Permanent"
    "classifyForwarderErrorMessage (rejection_text 404) = Permanent"
    by code_simp+
  moreover assume "isTrackerRejection code"
  ultimately show ?thesis by (auto simp: isTrackerRejection_def)
qed

definition prefix_429 :: string where "prefix_429 = ''HTTP status 429''"

lemma trim_429: "\<exists>r'. trim_space (prefix_429 @ r) = prefix_429 @ r'"
proof -
  let ?a = "''HTTP status 42''" and ?s = "prefix_429 @ r"
  have s: "?s = ?a @ CHR ''9'' # r" by (simp add: prefix_429_def)
  have tl: "trim_left ?s = ?s"
    unfolding s by (simp add: trim_left_plain plain_char_def)
  have "plain_char (CHR ''9'')" by (simp add: plain_char_def)
  from trim_right_keeps [OF this, of ?a r]
  have "prefix (?a @ [CHR ''9'']) (trim_space ?s)"
    unfolding trim_space_def tl unfolding s .
  then show ?thesis by (auto simp: prefix_def prefix_429_def)
qed

lemma classify_prefix_429: "classifyForwarderErrorMessage (prefix_429 @ r) = RateLimited"
proof -
  obtain r' where r': "trim_space (prefix_429 @ r) = prefix_429 @ r'" using trim_429 by blast
  have "to_lower prefix_429 = ''http status 429''" by code_simp
  then have low: "to_lower (trim_space (prefix_429 @ r)) = ''http status 429'' @ to_lower r'"
    unfolding r' by (simp add: to_lower_def)
  have "contains (''http status 429'' @ to_lower r') ''http status 429''"
    "contains (''http status 429'' @ to_lower r') ''http status''"
    by (auto simp: sublist_def intro: exI [of _ "[]"])
  then show ?thesis
    unfolding classifyForwarderErrorMessage_def low
    by (simp add: Let_def hasTrackerContext_def isRateLimitMessage_def contains_any_def)
qed

lemma status_text_429: "status_text 429 status = prefix_429 @ '': '' @ status"
proof -
  have "itoa 429 = ''429''" by code_simp
  then show ?thesis by (simp add: status_text_def prefix_429_def)
qed

lemma classify_429: "classifyForwarderErrorMessage (status_text 429 status) = RateLimited"
  unfolding status_text_429 by (rule classify_prefix_429)

text \<open>The same for the error values.\<close>

lemma classify_text: "classifyForwarderError (Some (ErrText m)) =
    Some (ErrForwarder (classifyForwarderErrorMessage (trim_space m)) (trim_space m) (Some (ErrText m)))"
  by (simp add: classifyForwarderError_def is_forwarder_error_def isPermanentTransportError_def
      is_dns_error_def is_op_error_def Let_def)

lemma classify_429_error: "shouldSuspendErr (classifyForwarderError (Some (ErrText (status_text 429 status))))"
proof -
  obtain r' where "trim_space (status_text 429 status) = prefix_429 @ r'"
    unfolding status_text_429 using trim_429 by blast
  then show ?thesis by (simp add: classify_text classify_prefix_429 shouldSuspendErr_def)
qed

lemma classify_rejection_error:
  "isTrackerRejection code \<Longrightarrow> isPermanentErr (classifyForwarderError (Some (ErrText (rejection_text code))))"
proof -
  have "isPermanentErr (classifyForwarderError (Some (ErrText (rejection_text 400))))"
    "isPermanentErr (classifyForwarderError (Some (ErrText (rejection_text 403))))"
    "isPermanentErr (classifyForwarderError (Some (ErrText (rejection_text 404))))"
    by code_simp+
  moreover assume "isTrackerRejection code"
  ultimately show ?thesis by (auto simp: isTrackerRejection_def)
qed

end
