(* ===== verification/Manager.thy ===== *)
theory Manager
  imports Storage Config RateLimit Errors
begin

text \<open>
  \<open>internal/server/forwarderManager.go\<close>, first part: the state of the forwarder manager, its
  constructor, the bookkeeping of failing, disabled and suspended forwarders and the changes of
  the forwarder list. Queueing, scheduling and the workers are in \<open>JobQueue\<close>.

  The manager's fields are those of \<open>fmgr\<close>; the buffered channels \<open>jobQueue\<close> and
  \<open>scaleDownChan\<close> are a list with a capacity and a count of signals. The upstream cache that the
  manager shares with the peer storage is passed beside the manager. Log and metric calls are
  not modelled; the second duplicate check of \<open>AddRuntimeForwarder\<close>, which guards against a
  concurrent insertion between two lock regions, is the first one when operations are atomic.
\<close>

section \<open>State\<close>

record forwarder_stats =
  fst_avg :: duration
  fst_last_interval :: int
  fst_last_announce :: gotime
  fst_samples :: int

record disabled_forwarder =
  df_reason :: string
  df_at :: int
  df_failures :: int

record suspended_forwarder =
  sf_reason :: string
  sf_at :: gotime
  sf_until :: gotime

record fmgr =
  fm_config :: config
  fm_forwarders :: "forward list"
  fm_base_workers :: int
  fm_queue :: "announce_job list"
  fm_capacity :: nat
  fm_stopped :: bool
  fm_pending :: "(string, announce_job_state) gomap"
  fm_next_state :: nat
  fm_stats :: "(string, forwarder_stats) gomap"
  fm_fail_counts :: "(string, int) gomap"
  fm_disabled :: "(string, disabled_forwarder) gomap"
  fm_suspended :: "(string, suspended_forwarder) gomap"
  fm_max_workers :: int
  fm_scale_threshold :: int
  fm_rate_limit_thresh :: int
  fm_throttle_thresh :: int
  fm_throttle_top_n :: int
  fm_max_per_announce :: int
  fm_last_throttle_log :: int
  fm_worker_count :: int
  fm_scale_down :: nat
  fm_limiter :: token_bucket
  fm_dropped_full :: nat
  fm_rate_limited :: nat
  fm_scheduled :: "(gotime, announce_job list) gomap"

definition zero_stats :: forwarder_stats where
  "zero_stats = \<lparr>fst_avg = 0, fst_last_interval = 0, fst_last_announce = time_zero, fst_samples = 0\<rparr>"

text \<open>\<open>t.Unix()\<close>: seconds since 1970.\<close>

definition unix_seconds :: "gotime \<Rightarrow> int" where
  "unix_seconds t = t div second - 62135596800"

section \<open>Failures\<close>

definition maxReasonLength :: nat where "maxReasonLength = 200"

definition truncate_reason :: "string \<Rightarrow> string" where
  "truncate_reason r = (if length r > maxReasonLength then take maxReasonLength r @ ''...'' else r)"

text \<open>The removal of one forwarder's entries from the cache, which also drops inner maps that
  become empty.\<close>

definition fs_forget :: "string \<Rightarrow> fwd_storage \<Rightarrow> fwd_storage" where
  "fs_forget name fs =
     fs\<lparr>fs_entries := filter (\<lambda>(h, m). m \<noteq> [])
          (map (\<lambda>(h, m). (h, gm_del name m)) (fs_entries fs))\<rparr>"

fun remove_first :: "(forward \<Rightarrow> bool) \<Rightarrow> forward list \<Rightarrow> forward list" where
  "remove_first P [] = []"
| "remove_first P (f # fs) = (if P f then fs else f # remove_first P fs)"

definition disableForwarder ::
  "gotime \<Rightarrow> string \<Rightarrow> string \<Rightarrow> fmgr \<times> fwd_storage \<Rightarrow> fmgr \<times> fwd_storage" where
  "disableForwarder now name reason = (\<lambda>(fm, fs).
     (let failureCount = gm_get_or 0 (fm_fail_counts fm) name;
          fm1 = fm\<lparr>fm_fail_counts := gm_del name (fm_fail_counts fm)\<rparr>;
          fm2 = (if list_ex (\<lambda>f. getName f = name) (fm_forwarders fm1) then
                   fm1\<lparr>fm_disabled := gm_put name
                          \<lparr>df_reason = truncate_reason reason, df_at = unix_seconds now,
                           df_failures = failureCount\<rparr> (fm_disabled fm1),
                       fm_forwarders := remove_first (\<lambda>f. getName f = name) (fm_forwarders fm1)\<rparr>
                 else fm1)
      in (fm2\<lparr>fm_stats := gm_del name (fm_stats fm2)\<rparr>, fs_forget name fs)))"

definition threshold_reason :: string where
  "threshold_reason = ''repeated failures (threshold reached)''"

definition registerFailure :: "gotime \<Rightarrow> string \<Rightarrow> fmgr \<times> fwd_storage \<Rightarrow> fmgr \<times> fwd_storage" where
  "registerFailure now name = (\<lambda>(fm, fs).
     (let threshold = cf_forwarder_fail_threshold (fm_config fm)
      in if threshold \<le> 0 then (fm, fs)
         else (let count = gm_get_or 0 (fm_fail_counts fm) name + 1;
                   fm1 = fm\<lparr>fm_fail_counts := gm_put name count (fm_fail_counts fm)\<rparr>
               in if count \<ge> threshold then disableForwarder now name threshold_reason (fm1, fs)
                  else (fm1, fs))))"

definition resetFailure :: "string \<Rightarrow> fmgr \<Rightarrow> fmgr" where
  "resetFailure name fm = fm\<lparr>fm_fail_counts := gm_del name (fm_fail_counts fm)\<rparr>"

definition getFailureCount :: "fmgr \<Rightarrow> string \<Rightarrow> int" where
  "getFailureCount fm name = gm_get_or 0 (fm_fail_counts fm) name"

definition isDisabled :: "fmgr \<Rightarrow> string \<Rightarrow> bool" where
  "isDisabled fm name \<longleftrightarrow> gm_mem name (fm_disabled fm)"

section \<open>Suspension\<close>

text \<open>Asking for a suspension that is over removes it.\<close>

definition getSuspendedUntil :: "string \<Rightarrow> gotime \<Rightarrow> fmgr \<Rightarrow> fmgr \<times> gotime option" where
  "getSuspendedUntil name now fm =
     (case gm_get (fm_suspended fm) name of
        None \<Rightarrow> (fm, None)
      | Some e \<Rightarrow>
          (if now > sf_until e then (fm\<lparr>fm_suspended := gm_del name (fm_suspended fm)\<rparr>, None)
           else (fm, Some (sf_until e))))"

definition isSuspended :: "gotime \<Rightarrow> string \<Rightarrow> fmgr \<Rightarrow> fmgr \<times> bool" where
  "isSuspended now name fm =
     (case getSuspendedUntil name now fm of (fm', u) \<Rightarrow> (fm', u \<noteq> None))"

definition suspendForwarderWithReason :: "gotime \<Rightarrow> string \<Rightarrow> duration \<Rightarrow> string \<Rightarrow> fmgr \<Rightarrow> fmgr" where
  "suspendForwarderWithReason now name d reason fm =
     fm\<lparr>fm_suspended := gm_put name
          \<lparr>sf_reason = truncate_reason reason, sf_at = now, sf_until = now + d\<rparr> (fm_suspended fm)\<rparr>"

definition suspendForwarder :: "gotime \<Rightarrow> string \<Rightarrow> duration \<Rightarrow> fmgr \<Rightarrow> fmgr" where
  "suspendForwarder now name d fm = suspendForwarderWithReason now name d ''temporary suspension'' fm"

definition suspended_at :: "fmgr \<Rightarrow> string \<Rightarrow> gotime \<Rightarrow> bool" where
  "suspended_at fm name now \<longleftrightarrow>
     (case gm_get (fm_suspended fm) name of None \<Rightarrow> False | Some e \<Rightarrow> now \<le> sf_until e)"

section \<open>The list of forwarders\<close>

datatype add_error =
    ManagerStopped
  | MissingUrl
  | InvalidUrl
  | UnsupportedProtocol string
  | MissingHostname
  | MissingPort string
  | AlreadyExists string

definition forwarder_clash :: "string \<Rightarrow> string \<Rightarrow> forward \<Rightarrow> bool" where
  "forwarder_clash uri name f \<longleftrightarrow> equal_fold (f_uri f) uri \<or> getName f = name"

definition AddRuntimeForwarder :: "string \<Rightarrow> fmgr \<Rightarrow> fmgr \<times> (add_error + forward)" where
  "AddRuntimeForwarder forwarderURL fm =
     (if fm_stopped fm then (fm, Inl ManagerStopped)
      else (let uri = trim_space forwarderURL in
        if uri = [] then (fm, Inl MissingUrl)
        else case url_parse uri of
          None \<Rightarrow> (fm, Inl InvalidUrl)
        | Some u \<Rightarrow>
            if u_scheme u \<noteq> protocol_http \<and> u_scheme u \<noteq> protocol_https \<and> u_scheme u \<noteq> protocol_udp
            then (fm, Inl (UnsupportedProtocol (u_scheme u)))
            else if url_hostname u = [] then (fm, Inl MissingHostname)
            else if u_scheme u = protocol_udp \<and> url_port u = [] then (fm, Inl (MissingPort (url_hostname u)))
            else (let f = \<lparr>f_name = [], f_uri = uri, f_ip = [], f_host = []\<rparr>; name = getName f in
              case find (forwarder_clash uri name) (fm_forwarders fm) of
                Some g \<Rightarrow> (fm, Inl (AlreadyExists (getName g)))
              | None \<Rightarrow>
                  (fm\<lparr>fm_disabled := gm_del name (fm_disabled fm),
                      fm_fail_counts := gm_del name (fm_fail_counts fm),
                      fm_suspended := gm_del name (fm_suspended fm),
                      fm_forwarders := fm_forwarders fm @ [f],
                      fm_stats := (if gm_mem name (fm_stats fm) then fm_stats fm
                                   else gm_put name zero_stats (fm_stats fm))\<rparr>, Inr f))))"

text \<open>The start-up checks walk a copy of the list and disable what they reject.\<close>

definition missing_port_reason :: "string \<Rightarrow> string" where
  "missing_port_reason hostname = ''invalid UDP URL: missing port (hostname: '' @ hostname @ '')''"

definition udp_without_port :: "forward \<Rightarrow> string option" where
  "udp_without_port f =
     (case url_parse (f_uri f) of
        None \<Rightarrow> None
      | Some u \<Rightarrow> if u_scheme u = protocol_udp \<and> url_port u = [] then Some (url_hostname u) else None)"

definition validateAndRemoveInvalidForwarders ::
  "gotime \<Rightarrow> fmgr \<times> fwd_storage \<Rightarrow> fmgr \<times> fwd_storage" where
  "validateAndRemoveInvalidForwarders now s =
     fold (\<lambda>f s. case udp_without_port f of
             None \<Rightarrow> s
           | Some hostname \<Rightarrow> disableForwarder now (getName f) (missing_port_reason hostname) s)
       (fm_forwarders (fst s)) s"

definition blocked_reason :: "net_ip list \<Rightarrow> string" where
  "blocked_reason ips =
     ''blocked by DNS: resolves to localhost/private IPs ('' @
     (CHR ''['' # join_with '' '' (map ip_string ips) @ '']'') @ '')''"

definition blocked_forwarder ::
  "(string \<Rightarrow> 'e + net_ip list) \<Rightarrow> forward \<Rightarrow> net_ip list option" where
  "blocked_forwarder lookup_ip f =
     (case url_parse (f_uri f) of
        None \<Rightarrow> None
      | Some u \<Rightarrow>
          (if url_hostname u = [] then None
           else case isBlockedByDNS lookup_ip (url_hostname u) of
                  Inl e \<Rightarrow> None
                | Inr (blocked, ips) \<Rightarrow> if blocked then Some ips else None))"

definition checkAndRemoveBlockedForwarders ::
  "(string \<Rightarrow> 'e + net_ip list) \<Rightarrow> gotime \<Rightarrow> fmgr \<times> fwd_storage \<Rightarrow> fmgr \<times> fwd_storage" where
  "checkAndRemoveBlockedForwarders lookup_ip now s =
     fold (\<lambda>f s. case blocked_forwarder lookup_ip f of
             None \<Rightarrow> s
           | Some ips \<Rightarrow> disableForwarder now (getName f) (blocked_reason ips) s)
       (fm_forwarders (fst s)) s"

definition removeDuplicateForwardersByDomain :: "fmgr \<Rightarrow> fmgr" where
  "removeDuplicateForwardersByDomain fm =
     (case dedupe_by_domain (fm_forwarders fm) of
        None \<Rightarrow> fm
      | Some (fs, names) \<Rightarrow>
          fm\<lparr>fm_forwarders := fs, fm_stats := fold gm_del names (fm_stats fm)\<rparr>)"

section \<open>Construction\<close>

definition or_default :: "int \<Rightarrow> int \<Rightarrow> int" where
  "or_default v d = (if v \<le> 0 then d else v)"

definition init_manager :: "config \<Rightarrow> fmgr" where
  "init_manager cfg =
     (let rate = or_default (cf_rate_limit_initial_per_sec cfg) 100;
          burst = or_default (cf_rate_limit_initial_burst cfg) 200
      in \<lparr>fm_config = cfg, fm_forwarders = cf_forwards cfg,
          fm_base_workers = cf_forwarder_workers cfg,
          fm_queue = [], fm_capacity = nat (or_default (cf_forwarder_queue_size cfg) 1000),
          fm_stopped = False, fm_pending = [], fm_next_state = 0,
          fm_stats = fold (\<lambda>f. gm_put (getName f) zero_stats) (cf_forwards cfg) [],
          fm_fail_counts = [], fm_disabled = [], fm_suspended = [],
          fm_max_workers = or_default (cf_max_forwarder_workers cfg) (cf_forwarder_workers cfg * 2),
          fm_scale_threshold = or_default (cf_queue_scale_threshold_pct cfg) 60,
          fm_rate_limit_thresh = (if cf_queue_rate_limit_threshold cfg < 0 then 80
                                  else cf_queue_rate_limit_threshold cfg),
          fm_throttle_thresh = or_default (cf_queue_throttle_threshold cfg) 60,
          fm_throttle_top_n = or_default (cf_queue_throttle_top_n cfg) 20,
          fm_max_per_announce = or_default (cf_max_forwarders_per_announce cfg) 100,
          fm_last_throttle_log = - 1, fm_worker_count = cf_forwarder_workers cfg,
          fm_scale_down = 0,
          fm_limiter = \<lparr>tb_tokens = burst, tb_rate = rate, tb_burst = burst, tb_last_tick = time_zero\<rparr>,
          fm_dropped_full = 0, fm_rate_limited = 0, fm_scheduled = []\<rparr>)"

text \<open>\<open>time.Duration(cfg.Age * float64(time.Minute))\<close>: the product is rounded, the conversion
  truncates.\<close>

definition age_duration :: "rat \<Rightarrow> duration" where
  "age_duration age = \<lfloor>f64 (age * of_int minute)\<rfloor>"

definition NewForwarderManager ::
  "(string \<Rightarrow> 'e + net_ip list) \<Rightarrow> gotime \<Rightarrow> config \<Rightarrow> fwd_storage \<Rightarrow> fmgr \<times> fwd_storage" where
  "NewForwarderManager lookup_ip now cfg fs =
     (let fs1 = (if cf_age cfg > 0 then fs\<lparr>fs_max_age := age_duration (cf_age cfg)\<rparr> else fs);
          s1 = validateAndRemoveInvalidForwarders now (init_manager cfg, fs1);
          s2 = checkAndRemoveBlockedForwarders lookup_ip now s1
      in (removeDuplicateForwardersByDomain (fst s2), snd s2))"

section \<open>Disabling\<close>

lemma fs_forget_entries: "fs_entries (fs_forget name fs) =
    filter (\<lambda>(h, m). m \<noteq> []) (map (\<lambda>(h, m). (h, gm_del name m)) (fs_entries fs))"
  by (simp add: fs_forget_def)

lemma fs_forget_lookup:
  assumes "fs_wf fs"
  shows "gm_get (fs_entries (fs_forget name fs)) h =
     (case gm_get (fs_entries fs) h of None \<Rightarrow> None
      | Some m \<Rightarrow> if gm_del name m = [] then None else Some (gm_del name m))"
proof -
  have "gm_wf (map (\<lambda>(h, m). (h, gm_del name m)) (fs_entries fs))"
    using assms unfolding map_fst_map_snd by (simp add: fs_wf_def)
  from gm_get_filter [OF this, of "\<lambda>(h, m). m \<noteq> []" h] show ?thesis
    unfolding fs_forget_entries by (simp add: gm_get_map_snd split: option.splits)
qed

lemma fs_get_forget:
  "fs_wf fs \<Longrightarrow> fs_get (fs_forget name fs) h n = (if n = name then None else fs_get fs h n)"
proof -
  assume wf: "fs_wf fs"
  have "gm_del name m = [] \<Longrightarrow> n \<noteq> name \<Longrightarrow> gm_get m n = None" for m :: "(string, fwd_entry) gomap"
    using gm_get_del [of name m n] by simp
  then show ?thesis
    by (auto simp: fs_get_def fs_inner_def gm_get_or_def fs_forget_lookup [OF wf] split: option.splits)
qed

lemma fs_wf_forget [inv_intros]:
  assumes "fs_wf fs" shows "fs_wf (fs_forget name fs)"
proof -
  have "gm_wf (map (\<lambda>(h, m). (h, gm_del name m)) (fs_entries fs))"
    using assms unfolding map_fst_map_snd by (simp add: fs_wf_def)
  then have "gm_wf (fs_entries (fs_forget name fs))"
    unfolding fs_forget_entries by (rule gm_wf_filter)
  moreover have "gm_wf m \<and> m \<noteq> []" if "(h, m) \<in> set (fs_entries (fs_forget name fs))" for h m
    using that assms by (fastforce simp: fs_forget_entries fs_wf_def)
  ultimately show ?thesis by (auto simp: fs_wf_def)
qed

definition named :: "string \<Rightarrow> fmgr \<Rightarrow> bool" where
  "named name fm \<longleftrightarrow> (\<exists>f \<in> set (fm_forwarders fm). getName f = name)"

lemma remove_first_other: "getName f \<noteq> name \<Longrightarrow>
    f \<in> set (remove_first (\<lambda>f. getName f = name) fs) \<longleftrightarrow> f \<in> set fs"
  by (induction fs) auto

lemma subseq_remove_first: "subseq (remove_first P fs) fs"
  by (induction fs) auto

lemma remove_first_distinct:
  "distinct (map getName fs) \<Longrightarrow> remove_first (\<lambda>f. getName f = name) fs = filter (\<lambda>f. getName f \<noteq> name) fs"
proof (induction fs)
  case (Cons f fs)
  show ?case
  proof (cases "getName f = name")
    case True
    then have "filter (\<lambda>f. getName f \<noteq> name) fs = fs"
      using Cons.prems by (subst filter_id_conv) (auto simp: image_iff)
    with True show ?thesis by simp
  next
    case False
    with Cons show ?thesis by simp
  qed
qed simp

lemma disable_frame [frame_simps]:
  "fm_config (fst (disableForwarder now name reason s)) = fm_config (fst s)"
  "fm_queue (fst (disableForwarder now name reason s)) = fm_queue (fst s)"
  "fm_capacity (fst (disableForwarder now name reason s)) = fm_capacity (fst s)"
  "fm_stopped (fst (disableForwarder now name reason s)) = fm_stopped (fst s)"
  "fm_pending (fst (disableForwarder now name reason s)) = fm_pending (fst s)"
  "fm_next_state (fst (disableForwarder now name reason s)) = fm_next_state (fst s)"
  "fm_suspended (fst (disableForwarder now name reason s)) = fm_suspended (fst s)"
  "fm_scheduled (fst (disableForwarder now name reason s)) = fm_scheduled (fst s)"
  "fm_worker_count (fst (disableForwarder now name reason s)) = fm_worker_count (fst s)"
  "fm_limiter (fst (disableForwarder now name reason s)) = fm_limiter (fst s)"
  "snd (disableForwarder now name reason s) = fs_forget name (snd s)"
  by (cases s; simp add: disableForwarder_def Let_def)+

lemma disable_forwarders:
  "fm_forwarders (fst (disableForwarder now name reason s)) =
     remove_first (\<lambda>f. getName f = name) (fm_forwarders (fst s))"
proof -
  have "\<not> list_ex P fs \<Longrightarrow> remove_first P fs = fs" for P fs by (induction fs) auto
  then show ?thesis by (cases s) (simp add: disableForwarder_def Let_def)
qed

lemma disable_fields:
  "isDisabled (fst (disableForwarder now name reason s)) n \<longleftrightarrow>
     isDisabled (fst s) n \<or> (n = name \<and> named name (fst s))"
  "getFailureCount (fst (disableForwarder now name reason s)) n =
     (if n = name then 0 else getFailureCount (fst s) n)"
  "gm_get (fm_stats (fst (disableForwarder now name reason s))) n =
     (if n = name then None else gm_get (fm_stats (fst s)) n)"
  by (cases s; auto simp: disableForwarder_def Let_def isDisabled_def named_def list_ex_iff
      getFailureCount_def gm_get_or_def)+

lemma registerFailure_below:
  "0 < cf_forwarder_fail_threshold (fm_config (fst s)) \<Longrightarrow>
   getFailureCount (fst s) name + 1 < cf_forwarder_fail_threshold (fm_config (fst s)) \<Longrightarrow>
     registerFailure now name s =
       ((fst s)\<lparr>fm_fail_counts := gm_put name (getFailureCount (fst s) name + 1) (fm_fail_counts (fst s))\<rparr>,
        snd s)"
  by (cases s) (simp add: registerFailure_def Let_def getFailureCount_def)

lemma registerFailure_reach:
  "0 < cf_forwarder_fail_threshold (fm_config (fst s)) \<Longrightarrow>
   cf_forwarder_fail_threshold (fm_config (fst s)) \<le> getFailureCount (fst s) name + 1 \<Longrightarrow>
     registerFailure now name s = disableForwarder now name threshold_reason
       ((fst s)\<lparr>fm_fail_counts := gm_put name (getFailureCount (fst s) name + 1) (fm_fail_counts (fst s))\<rparr>,
        snd s)"
  by (cases s) (simp add: registerFailure_def Let_def getFailureCount_def)

text \<open>Runs of failures of one forwarder: below the threshold only its count moves; the failure that
  reaches the threshold disables it.\<close>

lemma failures_below:
  assumes "getFailureCount (fst s) name = 0" "int (length ts) < cf_forwarder_fail_threshold (fm_config (fst s))"
  shows "getFailureCount (fst (fold (\<lambda>t. registerFailure t name) ts s)) name = int (length ts)
     \<and> fm_config (fst (fold (\<lambda>t. registerFailure t name) ts s)) = fm_config (fst s)
     \<and> fm_forwarders (fst (fold (\<lambda>t. registerFailure t name) ts s)) = fm_forwarders (fst s)
     \<and> fm_disabled (fst (fold (\<lambda>t. registerFailure t name) ts s)) = fm_disabled (fst s)
     \<and> snd (fold (\<lambda>t. registerFailure t name) ts s) = snd s"
  using assms(2)
proof (induction ts rule: rev_induct)
  case Nil
  then show ?case using assms(1) by simp
next
  case (snoc t ts)
  let ?s = "fold (\<lambda>t. registerFailure t name) ts s"
  from snoc have IH: "getFailureCount (fst ?s) name = int (length ts)"
    "fm_config (fst ?s) = fm_config (fst s)" "fm_forwarders (fst ?s) = fm_forwarders (fst s)"
    "fm_disabled (fst ?s) = fm_disabled (fst s)" "snd ?s = snd s" by auto
  have "registerFailure t name ?s =
      ((fst ?s)\<lparr>fm_fail_counts := gm_put name (int (length ts) + 1) (fm_fail_counts (fst ?s))\<rparr>, snd ?s)"
    using registerFailure_below [of ?s name t] IH snoc.prems by simp
  then show ?case using IH by (simp add: getFailureCount_def gm_get_or_def)
qed

lemma failures_reach:
  assumes "getFailureCount (fst s) name = 0" "named name (fst s)" "0 < length ts"
    and "int (length ts) = cf_forwarder_fail_threshold (fm_config (fst s))"
  shows "isDisabled (fst (fold (\<lambda>t. registerFailure t name) ts s)) name
     \<and> getFailureCount (fst (fold (\<lambda>t. registerFailure t name) ts s)) name = 0
     \<and> fm_forwarders (fst (fold (\<lambda>t. registerFailure t name) ts s)) =
         remove_first (\<lambda>f. getName f = name) (fm_forwarders (fst s))
     \<and> snd (fold (\<lambda>t. registerFailure t name) ts s) = fs_forget name (snd s)"
proof -
  obtain t ts' where ts: "ts = ts' @ [t]" using assms(3) by (cases ts rule: rev_cases) auto
  let ?s = "fold (\<lambda>t. registerFailure t name) ts' s"
  have b: "getFailureCount (fst ?s) name = int (length ts')"
    "fm_config (fst ?s) = fm_config (fst s)" "fm_forwarders (fst ?s) = fm_forwarders (fst s)"
    "fm_disabled (fst ?s) = fm_disabled (fst s)" "snd ?s = snd s"
    using failures_below [OF assms(1), of ts'] assms(4) ts by auto
  let ?s1 = "((fst ?s)\<lparr>fm_fail_counts := gm_put name (getFailureCount (fst ?s) name + 1)
      (fm_fail_counts (fst ?s))\<rparr>, snd ?s)"
  have "registerFailure t name ?s = disableForwarder t name threshold_reason ?s1"
    using assms(4) b ts by (intro registerFailure_reach) auto
  moreover have "named name (fst ?s1)" "fm_forwarders (fst ?s1) = fm_forwarders (fst s)" "snd ?s1 = snd s"
    using assms(2) b by (auto simp: named_def)
  ultimately show ?thesis
    by (simp add: ts disable_fields disable_forwarders disable_frame del: fst_conv snd_conv)
qed

section \<open>Suspension\<close>

lemma getSuspendedUntil_result:
  "snd (getSuspendedUntil name now fm) =
     (if suspended_at fm name now then map_option sf_until (gm_get (fm_suspended fm) name) else None)"
  by (auto simp: getSuspendedUntil_def suspended_at_def split: option.splits)

lemma isSuspended_result: "snd (isSuspended now name fm) = suspended_at fm name now"
  by (auto simp: isSuspended_def getSuspendedUntil_def suspended_at_def split: option.splits)

lemma suspended_frame [frame_simps]:
  "fst (isSuspended now name fm) = fst (getSuspendedUntil name now fm)"
  "fst (getSuspendedUntil name now fm) = fm\<lparr>fm_suspended := fm_suspended (fst (getSuspendedUntil name now fm))\<rparr>"
  by (auto simp: isSuspended_def getSuspendedUntil_def split: option.splits prod.splits)

text \<open>Dropping a suspension that is over changes no answer from then on.\<close>

lemma getSuspendedUntil_later:
  "now \<le> t \<Longrightarrow> suspended_at (fst (getSuspendedUntil name now fm)) n t = suspended_at fm n t"
  by (auto simp: getSuspendedUntil_def suspended_at_def split: option.splits)

lemma suspended_at_suspend:
  "suspended_at (suspendForwarderWithReason now name d reason fm) n t \<longleftrightarrow>
     (if n = name then t \<le> now + d else suspended_at fm n t)"
  by (auto simp: suspended_at_def suspendForwarderWithReason_def)

section \<open>Runtime forwarders\<close>

lemma AddRuntimeForwarder_error:
  "AddRuntimeForwarder u fm = (fm', Inl e) \<Longrightarrow> fm' = fm"
  by (auto simp: AddRuntimeForwarder_def Let_def split: if_splits option.splits)

lemma AddRuntimeForwarder_ok:
  assumes "AddRuntimeForwarder u fm = (fm', Inr f)"
  shows "fm_forwarders fm' = fm_forwarders fm @ [f]" "f_uri f = trim_space u"
    "\<not> fm_stopped fm" "\<forall>g \<in> set (fm_forwarders fm). \<not> forwarder_clash (f_uri f) (getName f) g"
    "\<not> isDisabled fm' (getName f)" "\<not> suspended_at fm' (getName f) now"
    "getFailureCount fm' (getName f) = 0" "gm_mem (getName f) (fm_stats fm')"
    "udp_without_port f = None" "getProtocol f \<in> {protocol_udp, protocol_http, protocol_https}"
    "fm_pending fm' = fm_pending fm" "fm_queue fm' = fm_queue fm" "fm_scheduled fm' = fm_scheduled fm"
proof -
  from assms obtain ur where
    f: "f = \<lparr>f_name = [], f_uri = trim_space u, f_ip = [], f_host = []\<rparr>"
    and st: "\<not> fm_stopped fm" and p: "url_parse (trim_space u) = Some ur"
    and np: "\<not> (u_scheme ur = protocol_udp \<and> url_port ur = [])"
    and fd: "find (forwarder_clash (trim_space u) (getName f)) (fm_forwarders fm) = None"
    and fm': "fm' = fm\<lparr>fm_disabled := gm_del (getName f) (fm_disabled fm),
                      fm_fail_counts := gm_del (getName f) (fm_fail_counts fm),
                      fm_suspended := gm_del (getName f) (fm_suspended fm),
                      fm_forwarders := fm_forwarders fm @ [f],
                      fm_stats := (if gm_mem (getName f) (fm_stats fm) then fm_stats fm
                                   else gm_put (getName f) zero_stats (fm_stats fm))\<rparr>"
    by (auto simp: AddRuntimeForwarder_def Let_def split: if_splits option.splits)
  show "fm_forwarders fm' = fm_forwarders fm @ [f]" "f_uri f = trim_space u" "\<not> fm_stopped fm"
    "\<not> isDisabled fm' (getName f)" "\<not> suspended_at fm' (getName f) now"
    "getFailureCount fm' (getName f) = 0" "gm_mem (getName f) (fm_stats fm')"
    "fm_pending fm' = fm_pending fm" "fm_queue fm' = fm_queue fm" "fm_scheduled fm' = fm_scheduled fm"
    using st by (auto simp: fm' isDisabled_def suspended_at_def getFailureCount_def gm_get_or_def f)
  show "\<forall>g \<in> set (fm_forwarders fm). \<not> forwarder_clash (f_uri f) (getName f) g"
    using fd by (auto simp: find_None_iff f)
  show "udp_without_port f = None" using p np by (simp add: udp_without_port_def f)
  show "getProtocol f \<in> {protocol_udp, protocol_http, protocol_https}" by (rule getProtocol_known)
qed

section \<open>Start-up checks\<close>

text \<open>With distinct names a sweep removes exactly the forwarders it rejects.\<close>

lemma sweep_forwarders:
  assumes "distinct (map getName (fm_forwarders (fst s)))"
  shows "fm_forwarders (fst (fold (\<lambda>f s. case bad f of None \<Rightarrow> s
             | Some x \<Rightarrow> disableForwarder now (getName f) (reason x) s) fs s)) =
         filter (\<lambda>g. \<forall>f \<in> set fs. getName f = getName g \<longrightarrow> bad f = None) (fm_forwarders (fst s))"
  using assms
proof (induction fs arbitrary: s)
  case (Cons f fs)
  show ?case
  proof (cases "bad f")
    case None
    with Cons show ?thesis by (auto intro!: filter_cong)
  next
    case (Some x)
    let ?s = "disableForwarder now (getName f) (reason x) s"
    have l: "fm_forwarders (fst ?s) = filter (\<lambda>g. getName g \<noteq> getName f) (fm_forwarders (fst s))"
      using Cons.prems by (simp add: disable_forwarders remove_first_distinct)
    then have "distinct (map getName (fm_forwarders (fst ?s)))"
      using Cons.prems by (simp add: distinct_map_filter)
    from Cons.IH [OF this] Some show ?thesis
      by (auto simp: l intro!: filter_cong)
  qed
qed (simp)

lemma sweep_self:
  assumes "distinct (map getName fs)"
  shows "filter (\<lambda>g. \<forall>f \<in> set fs. getName f = getName g \<longrightarrow> bad f = None) fs = filter (\<lambda>g. bad g = None) fs"
proof (rule filter_cong [OF refl])
  fix g assume "g \<in> set fs"
  with assms show "(\<forall>f \<in> set fs. getName f = getName g \<longrightarrow> bad f = None) \<longleftrightarrow> bad g = None"
    by (metis distinct_map inj_onD)
qed

lemma validate_forwarders:
  "distinct (map getName (fm_forwarders (fst s))) \<Longrightarrow>
     fm_forwarders (fst (validateAndRemoveInvalidForwarders now s)) =
       filter (\<lambda>f. udp_without_port f = None) (fm_forwarders (fst s))"
  by (simp only: validateAndRemoveInvalidForwarders_def sweep_forwarders sweep_self)

lemma check_forwarders:
  "distinct (map getName (fm_forwarders (fst s))) \<Longrightarrow>
     fm_forwarders (fst (checkAndRemoveBlockedForwarders lookup_ip now s)) =
       filter (\<lambda>f. blocked_forwarder lookup_ip f = None) (fm_forwarders (fst s))"
  by (simp only: checkAndRemoveBlockedForwarders_def sweep_forwarders sweep_self)

lemma NewForwarderManager_forwarders:
  assumes "distinct (map getName (cf_forwards cfg))"
  shows "fm_forwarders (fst (NewForwarderManager lookup_ip now cfg fs)) =
     (let kept = filter (\<lambda>f. udp_without_port f = None \<and> blocked_forwarder lookup_ip f = None) (cf_forwards cfg)
      in case dedupe_by_domain kept of None \<Rightarrow> kept | Some (l, names) \<Rightarrow> l)"
proof -
  let ?fs = "if cf_age cfg > 0 then fs\<lparr>fs_max_age := age_duration (cf_age cfg)\<rparr> else fs"
  let ?s1 = "validateAndRemoveInvalidForwarders now (init_manager cfg, ?fs)"
  let ?s2 = "checkAndRemoveBlockedForwarders lookup_ip now ?s1"
  have 0: "fm_forwarders (fst (init_manager cfg, ?fs)) = cf_forwards cfg"
    by (simp add: init_manager_def Let_def)
  have 1: "fm_forwarders (fst ?s1) = filter (\<lambda>f. udp_without_port f = None) (cf_forwards cfg)"
    using validate_forwarders [of "(init_manager cfg, ?fs)" now] assms unfolding 0 by blast
  have "distinct (map getName (fm_forwarders (fst ?s1)))"
    unfolding 1 using assms by (rule distinct_map_filter)
  from check_forwarders [OF this, of lookup_ip now]
  have 2: "fm_forwarders (fst ?s2) =
      filter (\<lambda>f. udp_without_port f = None \<and> blocked_forwarder lookup_ip f = None) (cf_forwards cfg)"
    unfolding 1 by (simp add: conj_commute)
  have "fm_forwarders (removeDuplicateForwardersByDomain fm) =
      (case dedupe_by_domain (fm_forwarders fm) of None \<Rightarrow> fm_forwarders fm | Some (l, names) \<Rightarrow> l)" for fm
    by (auto simp: removeDuplicateForwardersByDomain_def split: option.splits)
  then show ?thesis
    unfolding NewForwarderManager_def Let_def fst_conv by (simp only: 2)
qed

end
