(* ===== verification/Response.thy ===== *)
theory Response
  imports Protocol
begin

text \<open>
  The package \<open>bittorrent/response\<close>: tracker responses, their compact form and the tolerant
  decoding of forwarder answers. The bencode codec is a third-party package; its decoders are
  parameters of \<open>load\<close> and its encoders parameters of \<open>response_bencode\<close>. What the codec yields
  for an untyped value is a \<open>bval\<close>.
\<close>

datatype bval = BInt int | BStr string | BList "bval list" | BDict "(string \<times> bval) list"

record response =
  rs_interval :: int
  rs_min_interval :: int
  rs_complete :: int
  rs_incomplete :: int
  rs_tracker_id :: string
  rs_failure :: string
  rs_retry_in :: "bval option"
  rs_peers :: "peer list"

record response_compacted =
  rc_interval :: int
  rc_min_interval :: int
  rc_complete :: int
  rc_incomplete :: int
  rc_tracker_id :: string
  rc_failure :: string
  rc_retry_in :: "bval option"
  rc_peers4 :: bytes
  rc_peers6 :: bytes

definition empty_response :: response where
  "empty_response = \<lparr>rs_interval = 0, rs_min_interval = 0, rs_complete = 0, rs_incomplete = 0,
     rs_tracker_id = [], rs_failure = [], rs_retry_in = None, rs_peers = []\<rparr>"

definition newFailure :: "string \<Rightarrow> response" where
  "newFailure reason = empty_response\<lparr>rs_failure := reason\<rparr>"

section \<open>Compact peers\<close>

definition port_u16 :: "int \<Rightarrow> u16" where "port_u16 p = of_int p"

definition parse_peer_bytes :: "bytes \<Rightarrow> bytes \<Rightarrow> peer" where
  "parse_peer_bytes ip pt = \<lparr>p_id = [], p_ip = ip_string ip, p_port = uint (get_u16 pt)\<rparr>"

text \<open>The loop of \<open>peers4Parse\<close> and \<open>peers6Parse\<close>: an address of \<open>w\<close> bytes and two port bytes
  are read until the buffer runs short.\<close>

function compact_parse :: "nat \<Rightarrow> bytes \<Rightarrow> peer list" where
  "compact_parse w s =
     (case rd w s of
        None \<Rightarrow> []
      | Some (ip, s1) \<Rightarrow> (case rd 2 s1 of
          None \<Rightarrow> []
        | Some (pt, s2) \<Rightarrow> parse_peer_bytes ip pt # compact_parse w s2))"
  by pat_completeness auto
termination
  by (relation "measure (\<lambda>(w, s). length s)") (auto simp: rd_def split: if_splits)

declare compact_parse.simps [simp del]

definition peers4Parse :: "response_compacted \<Rightarrow> peer list" where
  "peers4Parse rc = compact_parse 4 (rc_peers4 rc)"

definition peers6Parse :: "response_compacted \<Rightarrow> peer list" where
  "peers6Parse rc = compact_parse 16 (rc_peers6 rc)"

definition rc_peers :: "response_compacted \<Rightarrow> peer list" where
  "rc_peers rc = peers4Parse rc @ peers6Parse rc"

definition rc_response :: "response_compacted \<Rightarrow> response" where
  "rc_response rc = \<lparr>rs_interval = rc_interval rc, rs_min_interval = rc_min_interval rc,
     rs_complete = rc_complete rc, rs_incomplete = rc_incomplete rc,
     rs_tracker_id = rc_tracker_id rc, rs_failure = rc_failure rc,
     rs_retry_in = rc_retry_in rc, rs_peers = rc_peers rc\<rparr>"

text \<open>The loop of \<open>ReloadPeers\<close> with its two buffers; an address that is neither is skipped.\<close>

fun reload_loop :: "bytes \<Rightarrow> bytes \<Rightarrow> peer list \<Rightarrow> bytes \<times> bytes" where
  "reload_loop b4 b6 [] = (b4, b6)"
| "reload_loop b4 b6 (p # ps) =
     (case address_IPv4 (p_ip p) of
        Some ip \<Rightarrow> reload_loop (b4 @ ip_to4 ip @ put_u16 (port_u16 (p_port p))) b6 ps
      | None \<Rightarrow> (case address_IPv6 (p_ip p) of
          Some ip \<Rightarrow> reload_loop b4 (b6 @ ip_to16 ip @ put_u16 (port_u16 (p_port p))) ps
        | None \<Rightarrow> reload_loop b4 b6 ps))"

definition reloadPeers :: "peer list \<Rightarrow> response_compacted \<Rightarrow> response_compacted" where
  "reloadPeers ps rc = (case reload_loop [] [] ps of (b4, b6) \<Rightarrow> rc\<lparr>rc_peers4 := b4, rc_peers6 := b6\<rparr>)"

definition compacted :: "response \<Rightarrow> response_compacted" where
  "compacted r = reloadPeers (rs_peers r)
     \<lparr>rc_interval = rs_interval r, rc_min_interval = rs_min_interval r,
      rc_complete = rs_complete r, rc_incomplete = rs_incomplete r,
      rc_tracker_id = rs_tracker_id r, rc_failure = rs_failure r,
      rc_retry_in = None, rc_peers4 = [], rc_peers6 = []\<rparr>"

definition response_bencode ::
  "(response_compacted \<Rightarrow> 'e + string) \<Rightarrow> (response \<Rightarrow> 'e + string) \<Rightarrow> bool \<Rightarrow> response \<Rightarrow> 'e + string"
where
  "response_bencode enc_c enc_r cmp r =
     (if cmp \<and> rs_failure r = [] then enc_c (compacted r) else enc_r r)"

section \<open>Tolerant decoding\<close>

definition as_int :: "bval option \<Rightarrow> int" where
  "as_int v = (case v of Some (BInt i) \<Rightarrow> i | _ \<Rightarrow> 0)"

definition as_string :: "bval option \<Rightarrow> string" where
  "as_string v = (case v of Some (BStr s) \<Rightarrow> s | _ \<Rightarrow> [])"

definition parse_peer_dict :: "(string \<times> bval) list \<Rightarrow> peer" where
  "parse_peer_dict m =
     \<lparr>p_id = (case gm_get m ''peer id'' of
                Some (BStr s) \<Rightarrow> s
              | _ \<Rightarrow> as_string (gm_get m ''peer_id'')),
      p_ip = as_string (gm_get m ''ip''),
      p_port = as_int (gm_get m ''port'')\<rparr>"

fun parsePeerList :: "bval list \<Rightarrow> peer list" where
  "parsePeerList [] = []"
| "parsePeerList (v # vs) =
     (case v of
        BDict m \<Rightarrow> (let p = parse_peer_dict m in
          if p_ip p \<noteq> [] \<or> p_port p \<noteq> 0 then p # parsePeerList vs else parsePeerList vs)
      | _ \<Rightarrow> parsePeerList vs)"

definition raw_response :: "(string \<times> bval) list \<Rightarrow> response" where
  "raw_response raw =
     empty_response\<lparr>rs_interval := as_int (gm_get raw ''interval''),
       rs_min_interval := as_int (gm_get raw ''min interval''),
       rs_complete := as_int (gm_get raw ''complete''),
       rs_incomplete := as_int (gm_get raw ''incomplete''),
       rs_tracker_id := as_string (gm_get raw ''tracker id''),
       rs_retry_in := gm_get raw ''retry in'',
       rs_peers := (case gm_get raw ''peers'' of Some (BList l) \<Rightarrow> parsePeerList l | _ \<Rightarrow> [])\<rparr>"

definition load ::
  "(bytes \<Rightarrow> 'e + response) \<Rightarrow> (bytes \<Rightarrow> 'e + response_compacted) \<Rightarrow>
   (bytes \<Rightarrow> 'e + (string \<times> bval) list) \<Rightarrow> bytes \<Rightarrow> 'e + response" where
  "load dec_r dec_c dec_m b =
     (case dec_r b of
        Inr r \<Rightarrow> Inr r
      | Inl _ \<Rightarrow> (case dec_c b of
          Inr rc \<Rightarrow> Inr (rc_response rc)
        | Inl _ \<Rightarrow> (case dec_m b of
            Inl e \<Rightarrow> Inl e
          | Inr raw \<Rightarrow> Inr (raw_response raw))))"

section \<open>Round trip of the compact form\<close>

definition v4_peers :: "peer list \<Rightarrow> (bytes \<times> int) list" where
  "v4_peers ps = [(b, p_port p). p \<leftarrow> ps, b \<leftarrow> (case address_IPv4 (p_ip p) of None \<Rightarrow> [] | Some b \<Rightarrow> [b])]"

definition v6_peers :: "peer list \<Rightarrow> (bytes \<times> int) list" where
  "v6_peers ps = [(b, p_port p). p \<leftarrow> ps, address_IPv4 (p_ip p) = None,
     b \<leftarrow> (case address_IPv6 (p_ip p) of None \<Rightarrow> [] | Some b \<Rightarrow> [b])]"

definition peer_field :: "bytes \<times> int \<Rightarrow> bytes" where
  "peer_field x = (case x of (b, pt) \<Rightarrow> b @ put_u16 (port_u16 pt))"

definition read_back :: "bytes \<times> int \<Rightarrow> peer" where
  "read_back x = (case x of (b, pt) \<Rightarrow> \<lparr>p_id = [], p_ip = ip_string b, p_port = pt mod 65536\<rparr>)"

lemma v4_peers_length: "x \<in> set (v4_peers ps) \<Longrightarrow> length (fst x) = 4"
  by (auto simp: v4_peers_def dest: address_IPv4_length [OF sym] split: option.splits)

lemma v6_peers_length: "x \<in> set (v6_peers ps) \<Longrightarrow> length (fst x) = 16"
  by (auto simp: v6_peers_def dest: address_IPv6_length [OF sym] split: option.splits if_splits)

lemma reload_loop_eq:
  "reload_loop b4 b6 ps =
     (b4 @ concat (map peer_field (v4_peers ps)), b6 @ concat (map peer_field (v6_peers ps)))"
proof (induction ps arbitrary: b4 b6)
  case Nil
  then show ?case by (simp add: v4_peers_def v6_peers_def)
next
  case (Cons p ps)
  show ?case
  proof (cases "address_IPv4 (p_ip p)")
    case (Some ip)
    with Cons show ?thesis
      by (simp add: v4_peers_def v6_peers_def peer_field_def address_IPv4_length)
  next
    case None
    then show ?thesis
    proof (cases "address_IPv6 (p_ip p)")
      case (Some ip)
      then have "ip_to16 ip = ip"
        using address_IPv6_length by (simp add: ip_to16_def)
      with None Some Cons show ?thesis
        by (simp add: v4_peers_def v6_peers_def peer_field_def)
    next
      case n6: None
      with None Cons show ?thesis by (simp add: v4_peers_def v6_peers_def)
    qed
  qed
qed

lemma uint_port_u16: "uint (port_u16 pt) = pt mod 65536"
  by (simp add: port_u16_def uint_word_of_int)

lemma parse_peer_field:
  "parse_peer_bytes b (put_u16 (port_u16 pt)) = read_back (b, pt)"
  by (simp add: parse_peer_bytes_def read_back_def uint_port_u16)

lemma compact_parse_Nil: "w > 0 \<Longrightarrow> compact_parse w [] = []"
  by (subst compact_parse.simps) (simp add: rd_def)

lemma compact_parse_fields:
  "w > 0 \<Longrightarrow> \<forall>x \<in> set xs. length (fst x) = w \<Longrightarrow>
     compact_parse w (concat (map peer_field xs)) = map read_back xs"
proof (induction xs)
  case Nil
  then show ?case by (simp add: compact_parse_Nil)
next
  case (Cons x xs)
  obtain b pt where x: "x = (b, pt)" by (cases x)
  have "compact_parse w (b @ put_u16 (port_u16 pt) @ concat (map peer_field xs)) =
      parse_peer_bytes b (put_u16 (port_u16 pt)) # compact_parse w (concat (map peer_field xs))"
    using Cons.prems x by (subst compact_parse.simps) simp
  moreover have "peer_field x = b @ put_u16 (port_u16 pt)"
    by (simp add: x peer_field_def)
  ultimately show ?case
    using Cons x by (simp add: parse_peer_field)
qed

text \<open>Reading back what \<open>ReloadPeers\<close> wrote: the IPv4 peers in their order, then the IPv6
  peers in theirs, with the printed form of each parsed address and the port modulo 65536.\<close>

lemma rc_peers_reload:
  "rc_peers (reloadPeers ps rc) = map read_back (v4_peers ps) @ map read_back (v6_peers ps)"
  by (simp add: rc_peers_def peers4Parse_def peers6Parse_def reloadPeers_def reload_loop_eq
      compact_parse_fields v4_peers_length v6_peers_length)

lemma v4_peers_canonical:
  "\<forall>p \<in> set ps. \<exists>b. length b = 4 \<and> p_ip p = v4_string b \<Longrightarrow>
     map read_back (v4_peers ps) = map (\<lambda>p. p\<lparr>p_id := [], p_port := p_port p mod 65536\<rparr>) ps
     \<and> v6_peers ps = []"
proof (induction ps)
  case Nil
  then show ?case by (simp add: v4_peers_def v6_peers_def)
next
  case (Cons p ps)
  then obtain b where b: "length b = 4" "p_ip p = v4_string b" by auto
  with Cons show ?case
    by (cases p) (simp add: v4_peers_def v6_peers_def read_back_def ip_string_v4)
qed

lemma compacted_fields [simp]:
  "rc_interval (compacted r) = rs_interval r" "rc_failure (compacted r) = rs_failure r"
  "rc_complete (compacted r) = rs_complete r" "rc_incomplete (compacted r) = rs_incomplete r"
  "rc_min_interval (compacted r) = rs_min_interval r" "rc_tracker_id (compacted r) = rs_tracker_id r"
  "rc_retry_in (compacted r) = None"
  by (simp_all add: compacted_def reloadPeers_def split: prod.splits)

end
