(* ===== verification/JobQueue.thy ===== *)
theory JobQueue
  imports Manager Response
begin

text \<open>
  \<open>internal/server/forwarderManager.go\<close>, second part, with \<open>CancelPendingJobs\<close> of
  \<open>forwarderAnnounce.go\<close>: pending markers, the job queue, the scheduler, retries on request of a
  tracker and worker scaling. \<open>don\<close> tells which peer sessions are cancelled, and comparing job
  states by pointer is comparing their identities \<open>js_id\<close>. The order that \<open>rand.Shuffle\<close>
  produces is the parameter \<open>shuffle\<close>.
\<close>

section \<open>Pending markers\<close>

definition jobKey :: "info_hash \<Rightarrow> string \<Rightarrow> peer_id \<Rightarrow> string" where
  "jobKey h n p = hex_string h @ CHR '':'' # n @ CHR '':'' # hex_string p"

definition job_key :: "announce_job \<Rightarrow> string" where
  "job_key job = jobKey (aj_hash job) (aj_fwd job) (aj_peer job)"

definition isJobPending :: "fmgr \<Rightarrow> info_hash \<Rightarrow> string \<Rightarrow> peer_id \<Rightarrow> bool" where
  "isJobPending fm h n p \<longleftrightarrow> gm_mem (jobKey h n p) (fm_pending fm)"

definition markJobPending :: "info_hash \<Rightarrow> string \<Rightarrow> peer_id \<Rightarrow> fmgr \<Rightarrow> fmgr" where
  "markJobPending h n p fm =
     fm\<lparr>fm_pending := gm_put (jobKey h n p) \<lparr>js_id = fm_next_state fm, js_peer_context = None\<rparr> (fm_pending fm),
        fm_next_state := fm_next_state fm + 1\<rparr>"

definition unmarkJobPending :: "info_hash \<Rightarrow> string \<Rightarrow> peer_id \<Rightarrow> fmgr \<Rightarrow> fmgr" where
  "unmarkJobPending h n p fm = fm\<lparr>fm_pending := gm_del (jobKey h n p) (fm_pending fm)\<rparr>"

definition same_state :: "announce_job_state option \<Rightarrow> announce_job_state option \<Rightarrow> bool" where
  "same_state a b \<longleftrightarrow> map_option js_id a = map_option js_id b"

definition finishJob :: "announce_job \<Rightarrow> fmgr \<Rightarrow> fmgr" where
  "finishJob job fm =
     (if same_state (gm_get (fm_pending fm) (job_key job)) (aj_state job)
      then fm\<lparr>fm_pending := gm_del (job_key job) (fm_pending fm)\<rparr> else fm)"

section \<open>Queue level\<close>

definition queueFillPct :: "fmgr \<Rightarrow> int" where
  "queueFillPct fm =
     (if fm_capacity fm = 0 then 0 else int (length (fm_queue fm) * 100 div fm_capacity fm))"

definition isQueueFull :: "fmgr \<Rightarrow> bool" where
  "isQueueFull fm \<longleftrightarrow> length (fm_queue fm) \<ge> fm_capacity fm"

definition shouldRateLimitInitial :: "fmgr \<Rightarrow> bool" where
  "shouldRateLimitInitial fm =
     (if fm_rate_limit_thresh fm \<le> 0 then False else queueFillPct fm \<ge> fm_rate_limit_thresh fm)"

definition shouldLogQueueThrottle :: "int \<Rightarrow> fmgr \<Rightarrow> fmgr \<times> bool" where
  "shouldLogQueueThrottle fill fm =
     (if fm_last_throttle_log fm = fill then (fm, False)
      else (fm\<lparr>fm_last_throttle_log := fill\<rparr>, True))"

definition resetQueueThrottleLogState :: "fmgr \<Rightarrow> fmgr" where
  "resetQueueThrottleLogState fm = fm\<lparr>fm_last_throttle_log := - 1\<rparr>"

text \<open>A send on the queue that does not block.\<close>

definition try_send :: "announce_job \<Rightarrow> fmgr \<Rightarrow> fmgr option" where
  "try_send job fm =
     (if length (fm_queue fm) < fm_capacity fm then Some (fm\<lparr>fm_queue := fm_queue fm @ [job]\<rparr>) else None)"

section \<open>Queueing announces\<close>

record eligible =
  el_forwarder :: forward
  el_name :: string
  el_order :: nat
  el_overdue :: duration
  el_has_entry :: bool

text \<open>One step of the eligibility loop: the manager loses a suspension that is over, and the
  forwarder goes to the new ones, to the due ones or to neither.\<close>

definition classify_forwarder ::
  "gotime \<Rightarrow> info_hash \<Rightarrow> peer_id \<Rightarrow> fwd_storage \<Rightarrow> nat \<Rightarrow> forward \<Rightarrow>
   fmgr \<times> eligible list \<times> eligible list \<Rightarrow> fmgr \<times> eligible list \<times> eligible list" where
  "classify_forwarder now h p fs idx f = (\<lambda>(fm, new, due).
     (let name = getName f; (fm1, susp) = isSuspended now name fm
      in if susp then (fm1, new, due)
         else if isJobPending fm1 h name p then (fm1, new, due)
         else (let (hasEntry, next) = GetAnnounceState fs h name
               in if hasEntry \<and> next > now then (fm1, new, due)
                  else if \<not> hasEntry then
                    (fm1, new @ [\<lparr>el_forwarder = f, el_name = name, el_order = idx, el_overdue = 0,
                                  el_has_entry = hasEntry\<rparr>], due)
                  else (let overdue = (if \<not> is_zero_time next then max 0 (time_sub now next) else 0)
                        in (fm1, new, due @ [\<lparr>el_forwarder = f, el_name = name, el_order = idx,
                                               el_overdue = overdue, el_has_entry = hasEntry\<rparr>])))))"

fun classify_all ::
  "gotime \<Rightarrow> info_hash \<Rightarrow> peer_id \<Rightarrow> fwd_storage \<Rightarrow> nat \<Rightarrow> forward list \<Rightarrow>
   fmgr \<times> eligible list \<times> eligible list \<Rightarrow> fmgr \<times> eligible list \<times> eligible list" where
  "classify_all now h p fs idx [] s = s"
| "classify_all now h p fs idx (f # l) s =
     classify_all now h p fs (idx + 1) l (classify_forwarder now h p fs idx f s)"

text \<open>\<open>sort.SliceStable\<close> with the most overdue first and the loop order on ties.\<close>

definition sort_due :: "eligible list \<Rightarrow> eligible list" where
  "sort_due due = sort_key (\<lambda>c. (- el_overdue c, el_order c)) due"

definition new_job ::
  "info_hash \<Rightarrow> request \<Rightarrow> eligible \<Rightarrow> announce_job_state \<Rightarrow> announce_job" where
  "new_job h rq c st = \<lparr>aj_hash = h, aj_fwd = el_name c, aj_peer = rq_peer_id rq,
     aj_forwarder = el_forwarder c, aj_request = rq, aj_at = time_zero, aj_state = Some st\<rparr>"

text \<open>The closure \<open>enqueue\<close>: the boolean it returns is False when queueing has to stop.\<close>

definition enqueue ::
  "(session \<Rightarrow> bool) \<Rightarrow> info_hash \<Rightarrow> request \<Rightarrow> session option \<Rightarrow> int \<Rightarrow> eligible \<Rightarrow>
   fmgr \<times> nat \<Rightarrow> (fmgr \<times> nat) \<times> bool" where
  "enqueue don h rq ctx limit c = (\<lambda>(fm, queued).
     (if int queued \<ge> limit then ((fm, queued), False)
      else (let st = \<lparr>js_id = fm_next_state fm, js_peer_context = ctx\<rparr>;
                job = new_job h rq c st;
                fm0 = fm\<lparr>fm_next_state := fm_next_state fm + 1\<rparr>;
                key = jobKey h (el_name c) (rq_peer_id rq)
            in if gm_mem key (fm_pending fm0) \<or> canceled don job then ((fm0, queued), True)
               else (let fm1 = fm0\<lparr>fm_pending := gm_put key st (fm_pending fm0)\<rparr>
                     in case try_send job fm1 of
                          Some fm2 \<Rightarrow> ((fm2, queued + 1), True)
                        | None \<Rightarrow> (((finishJob job fm1)\<lparr>fm_dropped_full := fm_dropped_full fm1 + 1\<rparr>, queued),
                                   False)))))"

text \<open>A loop over candidates: it breaks at the limit and its flag says that \<open>enqueue\<close> stopped it.\<close>

fun enqueue_all ::
  "(session \<Rightarrow> bool) \<Rightarrow> info_hash \<Rightarrow> request \<Rightarrow> session option \<Rightarrow> int \<Rightarrow> eligible list \<Rightarrow>
   fmgr \<times> nat \<Rightarrow> (fmgr \<times> nat) \<times> bool" where
  "enqueue_all don h rq ctx limit [] s = (s, True)"
| "enqueue_all don h rq ctx limit (c # cs) s =
     (if int (snd s) \<ge> limit then (s, True)
      else case enqueue don h rq ctx limit c s of
             (s', True) \<Rightarrow> enqueue_all don h rq ctx limit cs s'
           | (s', False) \<Rightarrow> (s', False))"

definition announce_limit :: "fmgr \<Rightarrow> fmgr \<times> int" where
  "announce_limit fm =
     (let fill = queueFillPct fm
      in if fill \<ge> fm_throttle_thresh fm \<and> fm_throttle_top_n fm > 0
         then (fst (shouldLogQueueThrottle fill fm), fm_throttle_top_n fm)
         else (resetQueueThrottleLogState fm, fm_max_per_announce fm))"

definition queueEligibleAnnounces ::
  "(forward list \<Rightarrow> forward list) \<Rightarrow> (session \<Rightarrow> bool) \<Rightarrow> gotime \<Rightarrow> info_hash \<Rightarrow> request \<Rightarrow>
   session option \<Rightarrow> fwd_storage \<Rightarrow> fmgr \<Rightarrow> fmgr" where
  "queueEligibleAnnounces shuffle don now h rq ctx fs fm =
     (if fm_stopped fm then fm
      else if fm_forwarders fm = [] then fm
      else (let forwarders = shuffle (fm_forwarders fm);
                (fm1, limit) = announce_limit fm;
                (fm2, new, due) = classify_all now h (rq_peer_id rq) fs 0 forwarders (fm1, [], []);
                (s3, go) = enqueue_all don h rq ctx limit new (fm2, 0)
            in if \<not> go then fst s3
               else fst (fst (enqueue_all don h rq ctx limit (sort_due due) s3))))"

definition QueueEligibleAnnounces ::
  "(forward list \<Rightarrow> forward list) \<Rightarrow> gotime \<Rightarrow> info_hash \<Rightarrow> request \<Rightarrow> storage option \<Rightarrow>
   fwd_storage \<Rightarrow> fmgr \<Rightarrow> fmgr" where
  "QueueEligibleAnnounces shuffle now h rq mainStorage fs fm =
     (case mainStorage of
        None \<Rightarrow> queueEligibleAnnounces shuffle (\<lambda>_. False) now h rq None fs fm
      | Some st \<Rightarrow>
          (case peerContext st h (rq_peer_id rq) of
             None \<Rightarrow> fm
           | Some c \<Rightarrow> queueEligibleAnnounces shuffle (session_done st) now h rq (Some c) fs fm))"

section \<open>The scheduler\<close>

definition scheduled_list :: "fmgr \<Rightarrow> announce_job list" where
  "scheduled_list fm = concat (map snd (fm_scheduled fm))"

definition scheduleJob :: "(session \<Rightarrow> bool) \<Rightarrow> announce_job \<Rightarrow> fmgr \<Rightarrow> fmgr \<times> bool" where
  "scheduleJob don job fm =
     (if canceled don job \<or> fm_stopped fm then (fm, False)
      else if list_ex (\<lambda>(t, jobs). list_ex (\<lambda>e. aj_hash e = aj_hash job \<and> aj_fwd e = aj_fwd job) jobs)
                (fm_scheduled fm) then (fm, False)
      else (fm\<lparr>fm_scheduled := gm_put (aj_at job) (gm_get_or [] (fm_scheduled fm) (aj_at job) @ [job])
                 (fm_scheduled fm)\<rparr>, True))"

definition schedule_or_finish :: "(session \<Rightarrow> bool) \<Rightarrow> announce_job \<Rightarrow> fmgr \<Rightarrow> fmgr" where
  "schedule_or_finish don job fm =
     (case scheduleJob don job fm of (fm', True) \<Rightarrow> fm' | (fm', False) \<Rightarrow> finishJob job fm')"

definition processScheduledReadyJob ::
  "(session \<Rightarrow> bool) \<Rightarrow> gotime \<Rightarrow> announce_job \<Rightarrow> fmgr \<Rightarrow> fmgr" where
  "processScheduledReadyJob don now job fm =
     (if fm_stopped fm then finishJob job fm
      else if canceled don job then finishJob job fm
      else (case getSuspendedUntil (aj_fwd job) now fm of
              (fm1, Some until) \<Rightarrow>
                (let when = (if \<not> until > now then now + second else until)
                 in schedule_or_finish don (job\<lparr>aj_at := when\<rparr>) fm1)
            | (fm1, None) \<Rightarrow>
                (case try_send job fm1 of
                   Some fm2 \<Rightarrow> fm2
                 | None \<Rightarrow> schedule_or_finish don (job\<lparr>aj_at := now + 10 * second\<rparr>) fm1)))"

definition sched_keep :: "(session \<Rightarrow> bool) \<Rightarrow> gotime \<Rightarrow> gotime \<Rightarrow> announce_job \<Rightarrow> bool" where
  "sched_keep don now t job \<longleftrightarrow> \<not> canceled don job \<and> now < t"

definition sched_ready :: "(session \<Rightarrow> bool) \<Rightarrow> gotime \<Rightarrow> gotime \<Rightarrow> announce_job \<Rightarrow> bool" where
  "sched_ready don now t job \<longleftrightarrow> \<not> canceled don job \<and> \<not> now < t"

definition filter_scheduled ::
  "(gotime \<Rightarrow> announce_job \<Rightarrow> bool) \<Rightarrow> (gotime, announce_job list) gomap \<Rightarrow> (gotime, announce_job list) gomap" where
  "filter_scheduled P m = filter (\<lambda>(t, jobs). jobs \<noteq> []) (map (\<lambda>(t, jobs). (t, filter (P t) jobs)) m)"

text \<open>One tick of \<open>schedulerRoutine\<close>.\<close>

definition scheduler_tick ::
  "(session \<Rightarrow> bool) \<Rightarrow> gotime \<Rightarrow> fmgr \<times> fwd_storage \<Rightarrow> fmgr \<times> fwd_storage" where
  "scheduler_tick don now = (\<lambda>(fm, fs).
     (let canceledJobs = concat (map (\<lambda>(t, jobs). filter (canceled don) jobs) (fm_scheduled fm));
          readyJobs = concat (map (\<lambda>(t, jobs). filter (sched_ready don now t) jobs) (fm_scheduled fm));
          fm1 = fm\<lparr>fm_scheduled := filter_scheduled (sched_keep don now) (fm_scheduled fm)\<rparr>;
          fm2 = fold finishJob canceledJobs fm1
      in (fold (processScheduledReadyJob don now) readyJobs fm2, Prune now fs)))"

section \<open>Retries asked for by a tracker\<close>

definition updatePeerCache ::
  "(session \<Rightarrow> bool) \<Rightarrow> announce_job \<Rightarrow> (fwd_storage \<Rightarrow> fwd_storage) \<Rightarrow> fmgr \<times> fwd_storage \<Rightarrow>
   fwd_storage \<times> bool" where
  "updatePeerCache don job upd = (\<lambda>(fm, fs).
     (if canceled don job \<or> fm_stopped fm then (fs, False) else (upd fs, True)))"

definition permanent_reason :: "string \<Rightarrow> string" where
  "permanent_reason r = ''Permanent failure: '' @ r"

definition retry_minutes :: "bval \<Rightarrow> int option" where
  "retry_minutes v =
     (case v of
        BInt n \<Rightarrow> Some n
      | BStr s \<Rightarrow> (case atoi s of Inr n \<Rightarrow> Some n | Inl e \<Rightarrow> None)
      | _ \<Rightarrow> None)"

definition retry_job :: "announce_job \<Rightarrow> gotime \<Rightarrow> nat \<Rightarrow> announce_job" where
  "retry_job job t i =
     job\<lparr>aj_at := t, aj_state := Some \<lparr>js_id = i, js_peer_context = job_context job\<rparr>\<rparr>"

text \<open>The session may end while this runs: \<open>don i\<close> tells which sessions have ended at its \<open>i\<close>-th look, on
  entry, when the cache is updated, when the marker is set and when the retry is scheduled.\<close>

definition handleRetryError ::
  "(nat \<Rightarrow> session \<Rightarrow> bool) \<Rightarrow> gotime \<Rightarrow> announce_job \<Rightarrow> string \<Rightarrow> bval option \<Rightarrow> fmgr \<times> fwd_storage \<Rightarrow>
   (fmgr \<times> fwd_storage) \<times> bool" where
  "handleRetryError don now job reason retryIn = (\<lambda>(fm, fs).
     (if canceled (don 0) job \<or> fm_stopped fm then ((fm, fs), True)
      else case retryIn of
        None \<Rightarrow> ((fm, fs), False)
      | Some v \<Rightarrow>
          (if v = BStr ''never'' then (disableForwarder now (aj_fwd job) (permanent_reason reason) (fm, fs), True)
           else case retry_minutes v of
             None \<Rightarrow> ((fm, fs), False)
           | Some m \<Rightarrow>
               (if m \<le> 0 then ((fm, fs), False)
                else if m > max_duration div minute then ((fm, fs), False)
                else (let t0 = now + m * minute;
                          (fs1, updated) = updatePeerCache (don 1) job
                             (\<lambda>fs. fst (DeferAnnounce (aj_hash job) (aj_fwd job) t0 fs)) (fm, fs)
                      in if \<not> updated then ((fm, fs1), True)
                      else (let t1 = snd (DeferAnnounce (aj_hash job) (aj_fwd job) t0 fs);
                          rjob = retry_job job t1 (fm_next_state fm);
                          fm1 = fm\<lparr>fm_next_state := fm_next_state fm + 1\<rparr>
                        in if canceled (don 2) rjob then ((fm1, fs1), True)
                        else (let key = job_key job;
                          previous = gm_get (fm_pending fm1) key;
                          fm2 = fm1\<lparr>fm_pending := gm_put key (the (aj_state rjob)) (fm_pending fm1)\<rparr>;
                          (fm3, scheduled) = scheduleJob (don 3) rjob fm2
                      in ((if scheduled then fm3
                           else fm3\<lparr>fm_pending := (case previous of
                                      Some st \<Rightarrow> gm_put key st (fm_pending fm3)
                                    | None \<Rightarrow> gm_del key (fm_pending fm3))\<rparr>, fs1), True))))))))"

section \<open>Cancelling\<close>

definition cancel_match :: "info_hash \<Rightarrow> peer_id \<Rightarrow> string \<Rightarrow> bool" where
  "cancel_match h p key \<longleftrightarrow>
     (let pre = hex_string h @ '':''; suf = CHR '':'' # hex_string p
      in length key > length pre + length suf \<and> has_prefix key pre \<and> has_suffix key suf)"

definition cancelPendingJobs ::
  "info_hash \<Rightarrow> peer_id \<Rightarrow> session option \<Rightarrow> fmgr \<Rightarrow> fmgr" where
  "cancelPendingJobs h p ses fm =
     fm\<lparr>fm_pending := filter (\<lambda>(key, st).
            \<not> ((case ses of None \<Rightarrow> True | Some c \<Rightarrow> js_peer_context st = Some c) \<and> cancel_match h p key))
          (fm_pending fm),
        fm_scheduled := filter_scheduled (\<lambda>t job.
            aj_hash job \<noteq> h \<or> aj_peer job \<noteq> p
            \<or> (case ses of None \<Rightarrow> False | Some c \<Rightarrow> job_context job \<noteq> Some c))
          (fm_scheduled fm)\<rparr>"

definition CancelPendingJobs :: "info_hash \<Rightarrow> peer_id \<Rightarrow> fmgr \<Rightarrow> fmgr" where
  "CancelPendingJobs h p fm = cancelPendingJobs h p None fm"

section \<open>Workers and shutdown\<close>

text \<open>What a worker does with a job it takes off the queue: drop it, put it back on the schedule or
  announce it.\<close>

datatype worker_action = DropJob | PostponeJob | AnnounceNow

definition worker_action :: "(session \<Rightarrow> bool) \<Rightarrow> gotime \<Rightarrow> announce_job \<Rightarrow> worker_action" where
  "worker_action don now job =
     (if canceled don job then DropJob
      else if \<not> is_zero_time (aj_at job) \<and> now < aj_at job then PostponeJob
      else AnnounceNow)"

text \<open>A worker that receives a scale-down signal: it leaves when there are more than the base
  workers.\<close>

definition scale_down_received :: "fmgr \<Rightarrow> fmgr \<times> bool" where
  "scale_down_received fm =
     (let fm1 = fm\<lparr>fm_scale_down := fm_scale_down fm - 1\<rparr>
      in if fm_worker_count fm > fm_base_workers fm
         then (fm1\<lparr>fm_worker_count := fm_worker_count fm - 1\<rparr>, True) else (fm1, False))"

text \<open>One tick of \<open>scaleWorkers\<close>; the boolean says that a worker is started. The signal channel
  holds 100 signals and a full channel drops the signal.\<close>

definition scaleWorkers_tick :: "fmgr \<Rightarrow> fmgr \<times> bool" where
  "scaleWorkers_tick fm =
     (let fillPct = queueFillPct fm; current = fm_worker_count fm
      in if fillPct \<ge> fm_scale_threshold fm \<and> current < fm_max_workers fm
         then (fm\<lparr>fm_worker_count := current + 1\<rparr>, True)
         else if fillPct < 40 \<and> current > fm_base_workers fm
         then (if fm_scale_down fm < 100 then fm\<lparr>fm_scale_down := fm_scale_down fm + 1\<rparr> else fm, False)
         else (fm, False))"

text \<open>\<open>Stop\<close> cancels the tasks' context, waits for the goroutines and then clears what is left.\<close>

definition fm_signal_stop :: "fmgr \<Rightarrow> fmgr" where
  "fm_signal_stop fm = fm\<lparr>fm_stopped := True\<rparr>"

definition fm_clear :: "fmgr \<Rightarrow> fmgr" where
  "fm_clear fm = fm\<lparr>fm_pending := [], fm_scheduled := [], fm_worker_count := 0, fm_queue := []\<rparr>"

end
