(* ===== verification/JobLemmas.thy ===== *)
theory JobLemmas
  imports JobQueue
begin

text \<open>
  Properties of the job bookkeeping of \<open>JobQueue\<close>: pending keys are unambiguous, every pending
  marker is owned by a job that is queued, scheduled or being worked on, at most one job is
  scheduled per hash and forwarder, and the queue keeps to its capacity.
\<close>

section \<open>Keys\<close>

lemma colon_notin_hex [simp]: "CHR '':'' \<notin> set (hex_string s)"
proof -
  have "hex_char d \<noteq> CHR '':''" if "d < 16" for d
  proof -
    from that have "byte_val (hex_char d) = (if d < 10 then 48 + d else 87 + d)"
      by (simp add: hex_char_def)
    then have "byte_val (hex_char d) \<noteq> byte_val (CHR '':'')" using that by (auto split: if_splits)
    then show ?thesis by metis
  qed
  moreover have "byte_val c div 16 < 16" for c
    by (rule less_mult_imp_div_less) simp
  ultimately have "CHR '':'' \<notin> set (hex_byte c)" for c
    by (auto simp: hex_byte_def dest: sym)
  then show ?thesis by (auto simp: hex_string_def)
qed

lemma split_at_first:
  assumes "c \<notin> set a" "c \<notin> set a'" "a @ c # x = a' @ c # x'"
  shows "a = a' \<and> x = x'"
proof -
  have "takeWhile (\<lambda>y. y \<noteq> c) (a @ c # x) = a" "takeWhile (\<lambda>y. y \<noteq> c) (a' @ c # x') = a'"
    using assms(1,2) by (auto simp: takeWhile_append)
  with assms(3) show ?thesis by (metis append_same_eq same_append_eq list.inject)
qed

lemma split_at_last:
  assumes "c \<notin> set b" "c \<notin> set b'" "x @ c # b = x' @ c # b'"
  shows "x = x' \<and> b = b'"
proof -
  have "rev b @ c # rev x = rev b' @ c # rev x'"
    using arg_cong [OF assms(3), of rev] by simp
  from split_at_first [OF _ _ this] assms(1,2) show ?thesis by simp
qed

lemma jobKey_eq_iff: "jobKey h n p = jobKey h' n' p' \<longleftrightarrow> h = h' \<and> n = n' \<and> p = p'"
proof
  assume "jobKey h n p = jobKey h' n' p'"
  then have "hex_string h @ CHR '':'' # (n @ CHR '':'' # hex_string p)
      = hex_string h' @ CHR '':'' # (n' @ CHR '':'' # hex_string p')"
    by (simp add: jobKey_def)
  from split_at_first [OF _ _ this] have "hex_string h = hex_string h'"
    "n @ CHR '':'' # hex_string p = n' @ CHR '':'' # hex_string p'" by auto
  with split_at_last [of "CHR '':''" "hex_string p" "hex_string p'" n n']
  show "h = h' \<and> n = n' \<and> p = p'" by (simp add: hex_string_inj)
qed simp

lemma cancel_match_jobKey: "cancel_match h p (jobKey h' n p') \<longleftrightarrow> h = h' \<and> p = p' \<and> n \<noteq> []"
proof -
  have pre: "has_prefix (jobKey h' n p') (hex_string h @ '':'') \<longleftrightarrow> h = h'"
  proof
    assume "has_prefix (jobKey h' n p') (hex_string h @ '':'')"
    then obtain r where "jobKey h' n p' = (hex_string h @ '':'') @ r"
      by (auto elim: prefixE)
    then have "hex_string h' @ CHR '':'' # (n @ CHR '':'' # hex_string p') = hex_string h @ CHR '':'' # r"
      by (simp add: jobKey_def)
    from split_at_first [OF _ _ this] show "h = h'" by (simp add: hex_string_inj)
  qed (simp add: jobKey_def)
  have suf: "has_suffix (jobKey h' n p') (CHR '':'' # hex_string p) \<longleftrightarrow> p = p'"
  proof
    assume "has_suffix (jobKey h' n p') (CHR '':'' # hex_string p)"
    then obtain r where "jobKey h' n p' = r @ CHR '':'' # hex_string p"
      by (auto elim: suffixE)
    then have "(hex_string h' @ CHR '':'' # n) @ CHR '':'' # hex_string p' = r @ CHR '':'' # hex_string p"
      by (simp add: jobKey_def)
    from split_at_last [OF _ _ this] show "p = p'" by (simp add: hex_string_inj)
  next
    assume "p = p'"
    then have "jobKey h' n p' = (hex_string h' @ CHR '':'' # n) @ CHR '':'' # hex_string p"
      by (simp add: jobKey_def)
    then show "has_suffix (jobKey h' n p') (CHR '':'' # hex_string p)"
      by (metis suffixI)
  qed
  show ?thesis
    unfolding cancel_match_def Let_def pre suf by (auto simp: jobKey_def)
qed

section \<open>The invariant of the job bookkeeping\<close>

text \<open>The jobs the manager holds; the jobs that workers are executing are passed beside it.\<close>

definition held_jobs :: "fmgr \<Rightarrow> announce_job set" where
  "held_jobs fm = set (fm_queue fm) \<union> set (scheduled_list fm)"

definition owned :: "(string, announce_job_state) gomap \<Rightarrow> announce_job set \<Rightarrow> bool" where
  "owned P J \<longleftrightarrow> (\<forall>key st. gm_get P key = Some st \<longrightarrow>
     (\<exists>job \<in> J. job_key job = key \<and> aj_state job = Some st))"

definition job_ok :: "nat \<Rightarrow> announce_job \<Rightarrow> bool" where
  "job_ok n job \<longleftrightarrow> aj_fwd job \<noteq> [] \<and> (\<exists>st. aj_state job = Some st \<and> js_id st < n)"

definition sched_unique :: "fmgr \<Rightarrow> bool" where
  "sched_unique fm \<longleftrightarrow> distinct (map (\<lambda>j. (aj_hash j, aj_fwd j)) (scheduled_list fm))"

definition jobs_inv :: "fmgr \<Rightarrow> announce_job set \<Rightarrow> bool" where
  "jobs_inv fm R \<longleftrightarrow>
     gm_wf (fm_pending fm) \<and> gm_wf (fm_scheduled fm)
     \<and> 0 < fm_capacity fm \<and> length (fm_queue fm) \<le> fm_capacity fm
     \<and> owned (fm_pending fm) (held_jobs fm \<union> R)
     \<and> (\<forall>job \<in> held_jobs fm \<union> R. job_ok (fm_next_state fm) job)
     \<and> sched_unique fm"

lemma jobs_inv_init: "jobs_inv (init_manager cfg) {}"
  by (simp add: jobs_inv_def init_manager_def Let_def owned_def held_jobs_def scheduled_list_def
      sched_unique_def or_default_def)

text \<open>The invariant only reads five fields.\<close>

lemma jobs_inv_frame:
  assumes "fm_pending fm' = fm_pending fm" "fm_scheduled fm' = fm_scheduled fm"
    "fm_queue fm' = fm_queue fm" "fm_capacity fm' = fm_capacity fm" "fm_next_state fm' = fm_next_state fm"
  shows "jobs_inv fm' R \<longleftrightarrow> jobs_inv fm R"
  using assms by (simp add: jobs_inv_def held_jobs_def scheduled_list_def sched_unique_def)

text \<open>A pending marker has a job behind it, and the key tells which.\<close>

lemma pending_owner:
  assumes "jobs_inv fm R" "isJobPending fm h n p"
  shows "\<exists>job \<in> held_jobs fm \<union> R. aj_hash job = h \<and> aj_fwd job = n \<and> aj_peer job = p"
proof -
  obtain st where "gm_get (fm_pending fm) (jobKey h n p) = Some st"
    using assms(2) by (auto simp: isJobPending_def)
  with assms(1) obtain job where "job \<in> held_jobs fm \<union> R" "job_key job = jobKey h n p"
    unfolding jobs_inv_def owned_def by blast
  then show ?thesis by (auto simp: job_key_def jobKey_eq_iff)
qed

lemma owned_mono: "owned P J \<Longrightarrow> J \<subseteq> J' \<Longrightarrow> owned P J'"
  unfolding owned_def by (meson subsetD)

lemma jobs_inv_finish:
  assumes inv: "jobs_inv fm (insert job R)"
  shows "jobs_inv (finishJob job fm) R"
proof -
  have f: "fm_queue (finishJob job fm) = fm_queue fm" "fm_scheduled (finishJob job fm) = fm_scheduled fm"
    "fm_capacity (finishJob job fm) = fm_capacity fm" "fm_next_state (finishJob job fm) = fm_next_state fm"
    by (simp_all add: finishJob_def)
  have h: "held_jobs (finishJob job fm) = held_jobs fm" "sched_unique (finishJob job fm) = sched_unique fm"
    by (simp_all add: held_jobs_def sched_unique_def scheduled_list_def f)
  have "owned (fm_pending (finishJob job fm)) (held_jobs fm \<union> R)"
    unfolding owned_def
  proof (intro allI impI)
    fix key st assume g: "gm_get (fm_pending (finishJob job fm)) key = Some st"
    then have g': "gm_get (fm_pending fm) key = Some st"
      by (auto simp: finishJob_def split: if_splits)
    then obtain j where j: "j \<in> held_jobs fm \<union> insert job R" "job_key j = key" "aj_state j = Some st"
      using inv by (auto simp: jobs_inv_def owned_def)
    have "j \<noteq> job"
    proof
      assume "j = job"
      with j g' have "same_state (gm_get (fm_pending fm) (job_key job)) (aj_state job)"
        by (simp add: same_state_def)
      with g j(2) \<open>j = job\<close> show False by (simp add: finishJob_def)
    qed
    with j show "\<exists>job \<in> held_jobs fm \<union> R. job_key job = key \<and> aj_state job = Some st" by auto
  qed
  moreover have "gm_wf (fm_pending (finishJob job fm))"
    using inv by (simp add: finishJob_def jobs_inv_def)
  ultimately show ?thesis
    using inv unfolding jobs_inv_def h f by auto
qed

lemma jobs_inv_finish_all:
  "jobs_inv fm (set L \<union> R) \<Longrightarrow> jobs_inv (fold finishJob L fm) R"
proof (induction L arbitrary: fm)
  case (Cons job L)
  then have "jobs_inv fm (insert job (set L \<union> R))" by simp
  from Cons.IH [OF jobs_inv_finish [OF this]] show ?case by simp
qed simp

lemma job_key_retime [simp]: "job_key (job\<lparr>aj_at := t\<rparr>) = job_key job"
  by (simp add: job_key_def)

lemma job_ok_retime [simp]: "job_ok n (job\<lparr>aj_at := t\<rparr>) = job_ok n job"
  by (simp add: job_ok_def)

lemma jobs_inv_retime:
  assumes "jobs_inv fm (insert job R)" shows "jobs_inv fm (insert (job\<lparr>aj_at := t\<rparr>) R)"
proof -
  have "owned (fm_pending fm) (held_jobs fm \<union> insert (job\<lparr>aj_at := t\<rparr>) R)"
    unfolding owned_def
  proof (intro allI impI)
    fix key st assume "gm_get (fm_pending fm) key = Some st"
    with assms obtain j where j: "j \<in> held_jobs fm \<union> insert job R" "job_key j = key" "aj_state j = Some st"
      by (auto simp: jobs_inv_def owned_def)
    show "\<exists>j \<in> held_jobs fm \<union> insert (job\<lparr>aj_at := t\<rparr>) R. job_key j = key \<and> aj_state j = Some st"
    proof (cases "j = job")
      case True
      with j show ?thesis by (intro bexI [of _ "job\<lparr>aj_at := t\<rparr>"]) auto
    next
      case False
      with j show ?thesis by (intro bexI [of _ j]) auto
    qed
  qed
  with assms show ?thesis by (auto simp: jobs_inv_def)
qed

lemma jobs_inv_send:
  assumes "jobs_inv fm (insert job R)" "try_send job fm = Some fm'"
  shows "jobs_inv fm' R"
proof -
  have fm': "fm' = fm\<lparr>fm_queue := fm_queue fm @ [job]\<rparr>" "length (fm_queue fm) < fm_capacity fm"
    using assms(2) by (auto simp: try_send_def split: if_splits)
  then have "held_jobs fm' \<union> R = held_jobs fm \<union> insert job R"
    by (auto simp: held_jobs_def scheduled_list_def)
  with assms(1) fm' show ?thesis
    by (simp add: jobs_inv_def sched_unique_def scheduled_list_def)
qed

lemma scheduled_put_mset:
  "gm_wf m \<Longrightarrow> mset (concat (map snd (gm_put t (gm_get_or [] m t @ [job]) m))) =
     add_mset job (mset (concat (map snd m)))"
proof (induction m)
  case Nil
  then show ?case by (simp add: gm_get_or_def)
next
  case (Cons tj m)
  obtain u js where tj: "tj = (u, js)" by (cases tj)
  show ?case
  proof (cases "u = t")
    case True
    then show ?thesis by (simp add: tj gm_get_or_def)
  next
    case False
    then have "gm_get_or [] (tj # m) t = gm_get_or [] m t" by (simp add: tj gm_get_or_def)
    with Cons False show ?thesis by (simp add: tj)
  qed
qed

lemma scheduleJob_True:
  assumes "scheduleJob don job fm = (fm', True)" "gm_wf (fm_scheduled fm)"
  shows "mset (scheduled_list fm') = add_mset job (mset (scheduled_list fm))"
    and "\<forall>e \<in> set (scheduled_list fm). \<not> (aj_hash e = aj_hash job \<and> aj_fwd e = aj_fwd job)"
    and "\<not> canceled don job" "\<not> fm_stopped fm"
    and "fm' = fm\<lparr>fm_scheduled := fm_scheduled fm'\<rparr>" "gm_wf (fm_scheduled fm')"
proof -
  have fm': "fm' = fm\<lparr>fm_scheduled := gm_put (aj_at job) (gm_get_or [] (fm_scheduled fm) (aj_at job) @ [job])
       (fm_scheduled fm)\<rparr>"
    and no: "\<not> list_ex (\<lambda>(t, jobs). list_ex (\<lambda>e. aj_hash e = aj_hash job \<and> aj_fwd e = aj_fwd job) jobs)
                (fm_scheduled fm)"
    and nc: "\<not> canceled don job" "\<not> fm_stopped fm"
    using assms(1) by (auto simp: scheduleJob_def split: if_splits)
  show "mset (scheduled_list fm') = add_mset job (mset (scheduled_list fm))"
    unfolding scheduled_list_def fm' using scheduled_put_mset [OF assms(2)] by simp
  show "\<forall>e \<in> set (scheduled_list fm). \<not> (aj_hash e = aj_hash job \<and> aj_fwd e = aj_fwd job)"
    using no by (auto simp: scheduled_list_def list_ex_iff)
  show "\<not> canceled don job" "\<not> fm_stopped fm" by (rule nc)+
  show "fm' = fm\<lparr>fm_scheduled := fm_scheduled fm'\<rparr>" "gm_wf (fm_scheduled fm')"
    using assms(2) by (simp_all add: fm')
qed

lemma scheduleJob_False: "scheduleJob don job fm = (fm', False) \<Longrightarrow> fm' = fm"
  by (auto simp: scheduleJob_def split: if_splits)

lemma sched_unique_mset:
  assumes "mset (scheduled_list fm') = add_mset job (mset (scheduled_list fm))"
    and "\<forall>e \<in> set (scheduled_list fm). \<not> (aj_hash e = aj_hash job \<and> aj_fwd e = aj_fwd job)"
    and "sched_unique fm"
  shows "sched_unique fm'"
proof -
  let ?g = "\<lambda>j. (aj_hash j, aj_fwd j)"
  have "mset (map ?g (scheduled_list fm')) = mset (map ?g (job # scheduled_list fm))"
    using assms(1) by simp
  then have "distinct (map ?g (scheduled_list fm')) \<longleftrightarrow> distinct (map ?g (job # scheduled_list fm))"
    by (rule mset_eq_imp_distinct_iff)
  with assms(2,3) show ?thesis by (auto simp: sched_unique_def)
qed

lemma jobs_inv_schedule:
  assumes inv: "jobs_inv fm (insert job R)" and s: "scheduleJob don job fm = (fm', True)"
  shows "jobs_inv fm' R"
proof -
  have wf: "gm_wf (fm_scheduled fm)" using inv by (simp add: jobs_inv_def)
  note sj = scheduleJob_True [OF s wf]
  have "set (scheduled_list fm') = insert job (set (scheduled_list fm))"
    using arg_cong [OF sj(1), of set_mset] by simp
  then have h: "held_jobs fm' \<union> R = held_jobs fm \<union> insert job R"
    by (subst sj(5)) (auto simp: held_jobs_def scheduled_list_def)
  have "sched_unique fm'" using sched_unique_mset [OF sj(1,2)] inv by (simp add: jobs_inv_def)
  moreover have "fm_pending fm' = fm_pending fm" "fm_queue fm' = fm_queue fm"
    "fm_capacity fm' = fm_capacity fm" "fm_next_state fm' = fm_next_state fm"
    by (subst sj(5); simp)+
  ultimately show ?thesis using inv h sj(6) by (simp add: jobs_inv_def)
qed

lemma jobs_inv_schedule_or_finish:
  "jobs_inv fm (insert job R) \<Longrightarrow> jobs_inv (schedule_or_finish don job fm) R"
  using jobs_inv_schedule jobs_inv_finish scheduleJob_False
  by (fastforce simp: schedule_or_finish_def split: prod.splits bool.splits)

lemma jobs_inv_suspended: "jobs_inv (fst (getSuspendedUntil n now fm)) R \<longleftrightarrow> jobs_inv fm R"
  by (rule jobs_inv_frame) (simp_all add: getSuspendedUntil_def split: option.splits)

lemma jobs_inv_process:
  assumes inv: "jobs_inv fm (insert job R)"
  shows "jobs_inv (processScheduledReadyJob don now job fm) R"
proof -
  obtain fm1 u where g: "getSuspendedUntil (aj_fwd job) now fm = (fm1, u)" by force
  have inv1: "jobs_inv fm1 (insert job R)"
    using jobs_inv_suspended [of "aj_fwd job" now fm] inv g by simp
  have re: "jobs_inv (schedule_or_finish don (job\<lparr>aj_at := t\<rparr>) fm1) R" for t
    by (rule jobs_inv_schedule_or_finish [OF jobs_inv_retime [OF inv1]])
  show ?thesis
    using jobs_inv_finish [OF inv] re jobs_inv_send [OF inv1]
    by (auto simp: processScheduledReadyJob_def g Let_def split: option.splits)
qed

lemma jobs_inv_process_all:
  "jobs_inv fm (set L \<union> R) \<Longrightarrow> jobs_inv (fold (processScheduledReadyJob don now) L fm) R"
proof (induction L arbitrary: fm)
  case (Cons job L)
  then have "jobs_inv fm (insert job (set L \<union> R))" by simp
  from Cons.IH [OF jobs_inv_process [OF this]] show ?case by simp
qed simp

section \<open>Scheduler ticks and cancelling\<close>

lemma distinct_subseq: "subseq xs ys \<Longrightarrow> distinct ys \<Longrightarrow> distinct xs"
  by (induction rule: list_emb.induct) (auto dest: list_emb_set)

lemma filter_scheduled_wf: "gm_wf m \<Longrightarrow> gm_wf (filter_scheduled P m)"
proof -
  assume "gm_wf m"
  then have "gm_wf (map (\<lambda>(t, jobs). (t, filter (P t) jobs)) m)"
  proof (induction m)
    case (Cons x m)
    then show ?case by (cases x) (auto simp: image_iff)
  qed simp
  then show ?thesis unfolding filter_scheduled_def by (rule gm_wf_filter)
qed

lemma filter_scheduled_concat:
  "concat (map snd (filter_scheduled P m)) = concat (map (\<lambda>(t, jobs). filter (P t) jobs) m)"
  by (induction m) (auto simp: filter_scheduled_def)

lemma filter_scheduled_subseq:
  "subseq (concat (map snd (filter_scheduled P m))) (concat (map snd m))"
  unfolding filter_scheduled_concat
  by (induction m) (auto intro: list_emb_append_mono)

lemma filter_scheduled_set:
  "(t, js) \<in> set (filter_scheduled P m) \<Longrightarrow> \<exists>js0. (t, js0) \<in> set m \<and> js = filter (P t) js0 \<and> js \<noteq> []"
  by (auto simp: filter_scheduled_def)

lemma sched_unique_filter:
  assumes "sched_unique fm" "fm_scheduled fm' = filter_scheduled P (fm_scheduled fm)"
  shows "sched_unique fm'"
proof -
  have "subseq (map (\<lambda>j. (aj_hash j, aj_fwd j)) (scheduled_list fm'))
      (map (\<lambda>j. (aj_hash j, aj_fwd j)) (scheduled_list fm))"
    unfolding scheduled_list_def assms(2) by (rule subseq_map [OF filter_scheduled_subseq])
  with assms(1) show ?thesis unfolding sched_unique_def by (rule distinct_subseq [rotated])
qed

lemma tick_partition:
  "set (concat (map snd m)) = set (concat (map (\<lambda>(t, jobs). filter (sched_keep don now t) jobs) m))
     \<union> set (concat (map (\<lambda>(t, jobs). filter (canceled don) jobs) m))
     \<union> set (concat (map (\<lambda>(t, jobs). filter (sched_ready don now t) jobs) m))"
proof (induction m)
  case (Cons x m)
  obtain t js where x: "x = (t, js)" by (cases x)
  have "set js = set (filter (sched_keep don now t) js) \<union> set (filter (canceled don) js)
      \<union> set (filter (sched_ready don now t) js)"
    by (auto simp: sched_keep_def sched_ready_def)
  with Cons show ?case unfolding x by (simp only: list.map concat.simps set_append prod.case snd_conv) blast
qed simp

lemma jobs_inv_tick:
  assumes inv: "jobs_inv fm R"
  shows "jobs_inv (fst (scheduler_tick don now (fm, fs))) R"
proof -
  define cj where "cj = concat (map (\<lambda>(t, jobs). filter (canceled don) jobs) (fm_scheduled fm))"
  define rj where "rj = concat (map (\<lambda>(t, jobs). filter (sched_ready don now t) jobs) (fm_scheduled fm))"
  define fm1 where "fm1 = fm\<lparr>fm_scheduled := filter_scheduled (sched_keep don now) (fm_scheduled fm)\<rparr>"
  have cover: "set (scheduled_list fm) = set (scheduled_list fm1) \<union> set cj \<union> set rj"
  proof -
    have "scheduled_list fm1 = concat (map (\<lambda>(t, jobs). filter (sched_keep don now t) jobs) (fm_scheduled fm))"
      by (simp add: scheduled_list_def fm1_def filter_scheduled_concat)
    then show ?thesis unfolding scheduled_list_def [of fm] cj_def rj_def by (simp only: tick_partition)
  qed
  then have h: "held_jobs fm \<union> R = held_jobs fm1 \<union> (set cj \<union> (set rj \<union> R))"
    by (auto simp: held_jobs_def fm1_def)
  have "sched_unique fm1"
    using inv sched_unique_filter [of fm fm1] by (simp add: jobs_inv_def fm1_def)
  then have "jobs_inv fm1 (set cj \<union> (set rj \<union> R))"
    using inv h by (simp add: jobs_inv_def fm1_def filter_scheduled_wf)
  from jobs_inv_process_all [OF jobs_inv_finish_all [OF this]]
  show ?thesis by (simp add: scheduler_tick_def Let_def cj_def rj_def fm1_def)
qed

text \<open>After a tick nothing overdue or cancelled is left on the schedule.\<close>

definition sched_future :: "(session \<Rightarrow> bool) \<Rightarrow> gotime \<Rightarrow> fmgr \<Rightarrow> bool" where
  "sched_future don now fm \<longleftrightarrow>
     (\<forall>(t, js) \<in> set (fm_scheduled fm). now < t \<and> (\<forall>j \<in> set js. \<not> canceled don j))"

lemma sched_future_schedule:
  assumes "sched_future don now fm" "now < aj_at job" "gm_wf (fm_scheduled fm)"
  shows "sched_future don now (schedule_or_finish don job fm)"
proof (cases "scheduleJob don job fm")
  case (Pair fm' ok)
  show ?thesis
  proof (cases ok)
    case False
    with Pair scheduleJob_False [of don job fm fm'] assms(1) show ?thesis
      by (auto simp: schedule_or_finish_def finishJob_def sched_future_def)
  next
    case True
    then have fm': "fm_scheduled fm' = gm_put (aj_at job) (gm_get_or [] (fm_scheduled fm) (aj_at job) @ [job])
        (fm_scheduled fm)" and nc: "\<not> canceled don job"
      using Pair by (auto simp: scheduleJob_def split: if_splits)
    have old: "\<not> canceled don j" if "j \<in> set (gm_get_or [] (fm_scheduled fm) (aj_at job))" for j
    proof -
      from that obtain js where "gm_get (fm_scheduled fm) (aj_at job) = Some js" "j \<in> set js"
        by (cases "gm_get (fm_scheduled fm) (aj_at job)") (auto simp: gm_get_or_def)
      with assms(1) show ?thesis by (auto simp: sched_future_def dest!: map_of_SomeD)
    qed
    have "now < t \<and> (\<forall>j \<in> set js. \<not> canceled don j)" if "(t, js) \<in> set (fm_scheduled fm')" for t js
      using in_gm_putD [OF that [unfolded fm']]
    proof
      assume "(t, js) = (aj_at job, gm_get_or [] (fm_scheduled fm) (aj_at job) @ [job])"
      with old nc assms(2) show ?thesis by auto
    next
      assume "(t, js) \<in> set (fm_scheduled fm) \<and> (fst (t, js) = aj_at job \<longrightarrow> \<not> gm_wf (fm_scheduled fm))"
      with assms(1) show ?thesis by (auto simp: sched_future_def)
    qed
    with True Pair show ?thesis by (auto simp: schedule_or_finish_def sched_future_def)
  qed
qed

lemma finishJob_scheduled [frame_simps]: "fm_scheduled (finishJob job fm) = fm_scheduled fm"
  by (simp add: finishJob_def)

lemma fold_finish_scheduled [frame_simps]: "fm_scheduled (fold finishJob L fm) = fm_scheduled fm"
  by (induction L arbitrary: fm) (simp_all add: frame_simps)

lemma sched_wf_schedule: "gm_wf (fm_scheduled fm) \<Longrightarrow> gm_wf (fm_scheduled (schedule_or_finish don job fm))"
  by (auto simp: schedule_or_finish_def scheduleJob_def frame_simps split: prod.splits bool.splits if_splits)

lemma process_future:
  assumes "sched_future don now fm" "gm_wf (fm_scheduled fm)"
  shows "sched_future don now (processScheduledReadyJob don now job fm)
     \<and> gm_wf (fm_scheduled (processScheduledReadyJob don now job fm))"
proof -
  obtain fm1 u where g: "getSuspendedUntil (aj_fwd job) now fm = (fm1, u)" by force
  have "fm_scheduled fm1 = fm_scheduled fm"
    using g by (auto simp: getSuspendedUntil_def split: option.splits if_splits)
  then have f1: "sched_future don now fm1" "gm_wf (fm_scheduled fm1)"
    using assms by (simp_all add: sched_future_def)
  have re: "now < t \<Longrightarrow> sched_future don now (schedule_or_finish don (job\<lparr>aj_at := t\<rparr>) fm1)
      \<and> gm_wf (fm_scheduled (schedule_or_finish don (job\<lparr>aj_at := t\<rparr>) fm1))" for t
    using sched_future_schedule [OF f1(1) _ f1(2), of "job\<lparr>aj_at := t\<rparr>"] sched_wf_schedule [OF f1(2)]
    by simp
  have "sched_future don now (finishJob job fm)" "gm_wf (fm_scheduled (finishJob job fm))"
    using assms by (simp_all add: sched_future_def frame_simps)
  moreover have "sched_future don now fm2 \<and> gm_wf (fm_scheduled fm2)" if "try_send job fm1 = Some fm2" for fm2
  proof -
    have "fm_scheduled fm2 = fm_scheduled fm1" using that by (auto simp: try_send_def split: if_splits)
    with f1 show ?thesis by (simp add: sched_future_def)
  qed
  ultimately show ?thesis
    using re [of "now + second"] re [of "now + 10 * second"] re
    by (auto simp: processScheduledReadyJob_def g Let_def second_def split: option.splits)
qed

lemma process_all_future:
  "sched_future don now fm \<Longrightarrow> gm_wf (fm_scheduled fm) \<Longrightarrow>
     sched_future don now (fold (processScheduledReadyJob don now) L fm)"
proof (induction L arbitrary: fm)
  case (Cons job L)
  with process_future [OF Cons.prems] show ?case by simp
qed simp

lemma tick_future:
  assumes "gm_wf (fm_scheduled fm)"
  shows "sched_future don now (fst (scheduler_tick don now (fm, fs)))"
proof -
  define cj where "cj = concat (map (\<lambda>(t, jobs). filter (canceled don) jobs) (fm_scheduled fm))"
  define fm1 where "fm1 = fm\<lparr>fm_scheduled := filter_scheduled (sched_keep don now) (fm_scheduled fm)\<rparr>"
  have "sched_future don now fm1"
    unfolding sched_future_def
  proof clarify
    fix t js assume "(t, js) \<in> set (fm_scheduled fm1)"
    then obtain js0 where js: "js = filter (sched_keep don now t) js0" "js \<noteq> []"
      by (auto simp: fm1_def dest: filter_scheduled_set)
    from js(2) have "hd js \<in> set js" by (rule hd_in_set)
    then have "now < t" unfolding js(1) set_filter by (simp add: sched_keep_def)
    moreover have "\<forall>j \<in> set js. \<not> canceled don j" unfolding js(1) by (simp add: sched_keep_def)
    ultimately show "now < t \<and> (\<forall>j \<in> set js. \<not> canceled don j)" ..
  qed
  then have "sched_future don now (fold finishJob cj fm1)" "gm_wf (fm_scheduled (fold finishJob cj fm1))"
    using assms by (simp_all add: sched_future_def frame_simps fm1_def filter_scheduled_wf)
  from process_all_future [OF this]
  show ?thesis by (simp add: scheduler_tick_def Let_def cj_def fm1_def)
qed

lemma jobs_inv_cancel:
  assumes inv: "jobs_inv fm R"
  shows "jobs_inv (cancelPendingJobs h p ses fm) R"
proof -
  let ?fm = "cancelPendingJobs h p ses fm"
  let ?hit = "\<lambda>key st. (case ses of None \<Rightarrow> True | Some c \<Rightarrow> js_peer_context st = Some c) \<and> cancel_match h p key"
  have pend: "gm_get (fm_pending ?fm) key = Some st \<longleftrightarrow> gm_get (fm_pending fm) key = Some st \<and> \<not> ?hit key st" for key st
    using inv by (auto simp: cancelPendingJobs_def jobs_inv_def gm_get_filter split: option.splits)
  have sub: "held_jobs ?fm \<subseteq> held_jobs fm"
    by (auto simp: held_jobs_def scheduled_list_def cancelPendingJobs_def filter_scheduled_concat)
  have "owned (fm_pending ?fm) (held_jobs ?fm \<union> R)"
    unfolding owned_def
  proof (intro allI impI)
    fix key st assume "gm_get (fm_pending ?fm) key = Some st"
    then have g: "gm_get (fm_pending fm) key = Some st" and nh: "\<not> ?hit key st"
      unfolding pend by auto
    from g inv obtain j where j: "j \<in> held_jobs fm \<union> R" "job_key j = key" "aj_state j = Some st"
      by (auto simp: jobs_inv_def owned_def)
    have nm: "aj_fwd j \<noteq> []" using inv j(1) by (auto simp: jobs_inv_def job_ok_def)
    have ctx: "job_context j = js_peer_context st" by (simp add: job_context_def j(3) split: option.splits)
    have "aj_hash j \<noteq> h \<or> aj_peer j \<noteq> p \<or> (case ses of None \<Rightarrow> False | Some c \<Rightarrow> job_context j \<noteq> Some c)"
      using nh j(2) nm ctx by (auto simp: job_key_def cancel_match_jobKey split: option.splits)
    with j(1) have "j \<in> held_jobs ?fm \<union> R"
      by (fastforce simp: held_jobs_def scheduled_list_def cancelPendingJobs_def filter_scheduled_concat)
    with j show "\<exists>job \<in> held_jobs ?fm \<union> R. job_key job = key \<and> aj_state job = Some st" by blast
  qed
  moreover have "sched_unique ?fm"
  proof (rule sched_unique_filter)
    show "sched_unique fm" using inv by (simp add: jobs_inv_def)
  qed (simp add: cancelPendingJobs_def)
  moreover have "gm_wf (fm_pending ?fm)" "gm_wf (fm_scheduled ?fm)"
    using inv by (simp_all add: jobs_inv_def cancelPendingJobs_def filter_scheduled_wf)
  moreover have "fm_queue ?fm = fm_queue fm" "fm_capacity ?fm = fm_capacity fm" "fm_next_state ?fm = fm_next_state fm"
    by (simp_all add: cancelPendingJobs_def)
  ultimately show ?thesis using inv sub by (auto simp: jobs_inv_def)
qed

text \<open>Cancelling without a session leaves no marker and no scheduled retry of the peer.\<close>

lemma cancel_clears:
  assumes "gm_wf (fm_pending fm)"
  shows "n \<noteq> [] \<Longrightarrow> \<not> isJobPending (CancelPendingJobs h p fm) h n p"
    and "\<forall>j \<in> set (scheduled_list (CancelPendingJobs h p fm)). \<not> (aj_hash j = h \<and> aj_peer j = p)"
    and "\<not> (h' = h \<and> p' = p) \<Longrightarrow>
           isJobPending (CancelPendingJobs h p fm) h' n p' \<longleftrightarrow> isJobPending fm h' n p'"
  using assms
  by (auto simp: isJobPending_def CancelPendingJobs_def cancelPendingJobs_def gm_get_filter
      cancel_match_jobKey scheduled_list_def filter_scheduled_concat split: option.splits if_splits)

section \<open>Retries\<close>

lemma jobs_inv_disable: "jobs_inv (fst (disableForwarder now name reason s)) R \<longleftrightarrow> jobs_inv (fst s) R"
  by (rule jobs_inv_frame) (simp_all add: disable_frame)

lemma owned_put:
  "owned P J \<Longrightarrow> job \<in> J \<Longrightarrow> job_key job = key \<Longrightarrow> aj_state job = Some st \<Longrightarrow> owned (gm_put key st P) J"
  by (auto simp: owned_def)

lemma jobs_inv_fresh:
  assumes inv: "jobs_inv fm R" and job: "aj_state job = Some st" "js_id st = fm_next_state fm" "aj_fwd job \<noteq> []"
  shows "jobs_inv (fm\<lparr>fm_next_state := fm_next_state fm + 1,
      fm_pending := gm_put (job_key job) st (fm_pending fm)\<rparr>) (insert job R)"
proof -
  let ?fm = "fm\<lparr>fm_next_state := fm_next_state fm + 1, fm_pending := gm_put (job_key job) st (fm_pending fm)\<rparr>"
  have h: "held_jobs ?fm = held_jobs fm" "sched_unique ?fm = sched_unique fm"
    by (simp_all add: held_jobs_def scheduled_list_def sched_unique_def)
  have "owned (gm_put (job_key job) st (fm_pending fm)) (held_jobs fm \<union> insert job R)"
    using inv job by (intro owned_put) (auto simp: jobs_inv_def intro: owned_mono)
  moreover have "\<forall>j \<in> held_jobs fm \<union> insert job R. job_ok (fm_next_state fm + 1) j"
    using inv job by (auto simp: jobs_inv_def job_ok_def less_Suc_eq)
  ultimately show ?thesis using inv unfolding jobs_inv_def h by simp
qed

lemma jobs_inv_skip_id:
  "jobs_inv fm R \<Longrightarrow> jobs_inv (fm\<lparr>fm_next_state := fm_next_state fm + 1\<rparr>) R"
  by (fastforce simp: jobs_inv_def held_jobs_def scheduled_list_def sched_unique_def job_ok_def)

lemma gm_del_put_same: "gm_wf P \<Longrightarrow> gm_get P k = None \<Longrightarrow> gm_del k (gm_put k w P) = P"
  using gm_del_absent [of P k] by (simp add: gm_put_absent AList.delete_eq)

text \<open>What \<open>handleRetryError\<close> does when it accepts a retry time: the marker moves to the retry, which is
  scheduled, or the marker is put back when the schedule refuses it.\<close>

definition put_retry :: "(session \<Rightarrow> bool) \<Rightarrow> announce_job \<Rightarrow> announce_job \<Rightarrow> fmgr \<Rightarrow> fmgr" where
  "put_retry don job rjob fm =
     (let key = job_key job in
      case scheduleJob don rjob (fm\<lparr>fm_next_state := fm_next_state fm + 1,
             fm_pending := gm_put key (the (aj_state rjob)) (fm_pending fm)\<rparr>) of
        (fm', scheduled) \<Rightarrow>
          if scheduled then fm'
          else fm'\<lparr>fm_pending := (case gm_get (fm_pending fm) key of
                 Some st \<Rightarrow> gm_put key st (fm_pending fm') | None \<Rightarrow> gm_del key (fm_pending fm'))\<rparr>)"

lemma retry_job_fields [simp]:
  "aj_at (retry_job job t i) = t" "aj_hash (retry_job job t i) = aj_hash job"
  "aj_fwd (retry_job job t i) = aj_fwd job" "aj_peer (retry_job job t i) = aj_peer job"
  "job_key (retry_job job t i) = job_key job" "job_context (retry_job job t i) = job_context job"
  "canceled don (retry_job job t i) = canceled don job"
  "aj_state (retry_job job t i) = Some \<lparr>js_id = i, js_peer_context = job_context job\<rparr>"
  by (simp_all add: retry_job_def job_key_def job_context_def canceled_def split: option.splits)

lemma handleRetryError_deferred:
  assumes "\<And>i. \<not> canceled (don i) job" "\<not> fm_stopped fm" "v \<noteq> BStr ''never''" "retry_minutes v = Some m"
    and "0 < m" "m \<le> max_duration div minute"
    and "DeferAnnounce (aj_hash job) (aj_fwd job) (now + m * minute) fs = (fs', t)"
  shows "handleRetryError don now job reason (Some v) (fm, fs) =
     ((put_retry (don 3) job (retry_job job t (fm_next_state fm)) fm, fs'), True)"
  using assms(1-6)
  by (simp add: handleRetryError_def updatePeerCache_def put_retry_def Let_def assms(7) split: prod.split)

text \<open>Its effects: none, the upstream is disabled, or the cache is told to wait and, unless the session ended in
  between, a retry is put on the schedule.\<close>

lemma handleRetryError_cases:
  obtains (kept) "fst (handleRetryError don now job reason retryIn (fm, fs)) = (fm, fs)"
  | (never) "handleRetryError don now job reason retryIn (fm, fs) =
      (disableForwarder now (aj_fwd job) (permanent_reason reason) (fm, fs), True)"
  | (ended) m fs' t where "0 < m"
      "DeferAnnounce (aj_hash job) (aj_fwd job) (now + m * minute) fs = (fs', t)"
      "handleRetryError don now job reason retryIn (fm, fs) = ((fm\<lparr>fm_next_state := fm_next_state fm + 1\<rparr>, fs'), True)"
  | (deferred) m fs' t where "0 < m"
      "DeferAnnounce (aj_hash job) (aj_fwd job) (now + m * minute) fs = (fs', t)"
      "handleRetryError don now job reason retryIn (fm, fs) =
        ((put_retry (don 3) job (retry_job job t (fm_next_state fm)) fm, fs'), True)"
proof (cases "\<exists>v m. \<not> canceled (don 0) job \<and> \<not> fm_stopped fm \<and> retryIn = Some v \<and> v \<noteq> BStr ''never''
    \<and> retry_minutes v = Some m \<and> \<not> m \<le> 0 \<and> \<not> m > max_duration div minute")
  case True
  then obtain v m where v: "\<not> canceled (don 0) job" "\<not> fm_stopped fm" "retryIn = Some v" "v \<noteq> BStr ''never''"
    "retry_minutes v = Some m" "0 < m" "m \<le> max_duration div minute" by (auto simp: not_le not_less)
  obtain fs' t where d: "DeferAnnounce (aj_hash job) (aj_fwd job) (now + m * minute) fs = (fs', t)" by force
  note step = handleRetryError_def updatePeerCache_def Let_def d
  consider "canceled (don 1) job" | "\<not> canceled (don 1) job" "canceled (don 2) job"
    | "\<not> canceled (don 1) job" "\<not> canceled (don 2) job" by blast
  then show thesis
  proof cases
    case 1
    with v show thesis by (intro kept) (simp add: step)
  next
    case 2
    with v show thesis by (intro ended [OF v(6) d]) (simp add: step)
  next
    case 3
    with v show thesis by (intro deferred [OF v(6) d]) (simp add: step put_retry_def split: prod.split)
  qed
next
  case False
  then have "fst (handleRetryError don now job reason retryIn (fm, fs)) = (fm, fs)
      \<or> handleRetryError don now job reason retryIn (fm, fs) =
        (disableForwarder now (aj_fwd job) (permanent_reason reason) (fm, fs), True)"
    by (auto simp: handleRetryError_def Let_def split: option.splits)
  with kept never show thesis by blast
qed

text \<open>The retry is scheduled when the torrent has no other at this upstream.\<close>

lemma put_retry_scheduled:
  assumes "\<not> canceled don job" "\<not> fm_stopped fm" "gm_wf (fm_scheduled fm)"
    and "\<forall>e \<in> set (scheduled_list fm). \<not> (aj_hash e = aj_hash job \<and> aj_fwd e = aj_fwd job)"
  shows "mset (scheduled_list (put_retry don job (retry_job job t i) fm)) =
      add_mset (retry_job job t i) (mset (scheduled_list fm))
    \<and> gm_get (fm_pending (put_retry don job (retry_job job t i) fm)) (job_key job) = aj_state (retry_job job t i)"
proof -
  let ?r = "retry_job job t i"
  let ?fm = "fm\<lparr>fm_next_state := fm_next_state fm + 1, fm_pending := gm_put (job_key job) (the (aj_state ?r)) (fm_pending fm)\<rparr>"
  have "\<not> list_ex (\<lambda>(t, jobs). list_ex (\<lambda>e. aj_hash e = aj_hash job \<and> aj_fwd e = aj_fwd job) jobs) (fm_scheduled fm)"
    using assms(4) by (fastforce simp: list_ex_iff scheduled_list_def)
  then obtain fm' where s: "scheduleJob don ?r ?fm = (fm', True)"
    using assms(1,2) by (simp add: scheduleJob_def)
  have wf: "gm_wf (fm_scheduled ?fm)" using assms(3) by simp
  have p: "fm_pending fm' = fm_pending ?fm"
    by (subst scheduleJob_True(5) [OF s wf]) simp
  have "put_retry don job ?r fm = fm'" by (simp only: put_retry_def Let_def s prod.case if_True)
  with scheduleJob_True(1) [OF s wf] p show ?thesis by (simp add: scheduled_list_def)
qed

lemma jobs_inv_put_retry:
  assumes inv: "jobs_inv fm R" and job: "job \<in> R"
  shows "jobs_inv (put_retry don job (retry_job job t (fm_next_state fm)) fm) R"
proof -
  let ?r = "retry_job job t (fm_next_state fm)"
  let ?fm = "fm\<lparr>fm_next_state := fm_next_state fm + 1, fm_pending := gm_put (job_key job) (the (aj_state ?r)) (fm_pending fm)\<rparr>"
  have "aj_fwd job \<noteq> []" using inv job by (auto simp: jobs_inv_def job_ok_def)
  then have inv2: "jobs_inv ?fm (insert ?r R)" using jobs_inv_fresh [OF inv, of ?r] by simp
  obtain fm' ok where s: "scheduleJob don ?r ?fm = (fm', ok)" by force
  show ?thesis
  proof (cases ok)
    case True
    with s have "put_retry don job ?r fm = fm'" "scheduleJob don ?r ?fm = (fm', True)"
      by (simp_all only: put_retry_def Let_def prod.case if_True)
    with jobs_inv_schedule [OF inv2] show ?thesis by simp
  next
    case False
    with s have s': "scheduleJob don ?r ?fm = (?fm, False)" using scheduleJob_False by simp
    have "put_retry don job ?r fm = fm\<lparr>fm_next_state := fm_next_state fm + 1\<rparr>"
      using inv unfolding put_retry_def Let_def s' prod.case
      by (auto simp: jobs_inv_def update_triv gm_del_put_same split: option.splits)
    with jobs_inv_skip_id [OF inv] show ?thesis by simp
  qed
qed

lemma jobs_inv_retry:
  assumes "jobs_inv fm R" "job \<in> R"
  shows "jobs_inv (fst (fst (handleRetryError don now job reason retryIn (fm, fs)))) R"
proof (cases rule: handleRetryError_cases [of don now job reason retryIn fm fs])
  case never
  with assms(1) show ?thesis by (simp add: jobs_inv_disable)
qed (use assms in \<open>simp_all add: jobs_inv_put_retry jobs_inv_skip_id [simplified]\<close>)

end
