(* ===== verification/QueueLemmas.thy ===== *)
theory QueueLemmas
  imports JobLemmas
begin

text \<open>
  What \<open>queueEligibleAnnounces\<close> queues: the forwarders that are not suspended, have no pending job
  for the peer and are not cooling down, the never contacted ones first and the rest by how long
  they are overdue, as many as the limit and the room in the queue allow.
\<close>

section \<open>Eligible forwarders\<close>

definition open_forwarder :: "fmgr \<Rightarrow> gotime \<Rightarrow> info_hash \<Rightarrow> peer_id \<Rightarrow> forward \<Rightarrow> bool" where
  "open_forwarder fm now h p f \<longleftrightarrow> \<not> suspended_at fm (getName f) now \<and> \<not> isJobPending fm h (getName f) p"

definition new_forwarder :: "fmgr \<Rightarrow> fwd_storage \<Rightarrow> gotime \<Rightarrow> info_hash \<Rightarrow> peer_id \<Rightarrow> forward \<Rightarrow> bool" where
  "new_forwarder fm fs now h p f \<longleftrightarrow> open_forwarder fm now h p f \<and> fs_get fs h (getName f) = None"

definition due_forwarder :: "fmgr \<Rightarrow> fwd_storage \<Rightarrow> gotime \<Rightarrow> info_hash \<Rightarrow> peer_id \<Rightarrow> forward \<Rightarrow> bool" where
  "due_forwarder fm fs now h p f \<longleftrightarrow> open_forwarder fm now h p f
     \<and> (\<exists>e. fs_get fs h (getName f) = Some e \<and> fe_next e \<le> now)"

definition overdue_of :: "fwd_storage \<Rightarrow> gotime \<Rightarrow> info_hash \<Rightarrow> string \<Rightarrow> duration" where
  "overdue_of fs now h n =
     (case fs_get fs h n of
        None \<Rightarrow> 0
      | Some e \<Rightarrow> if fe_next e = time_zero then 0 else max 0 (time_sub now (fe_next e)))"

definition susp_only :: "gotime \<Rightarrow> fmgr \<Rightarrow> fmgr \<Rightarrow> bool" where
  "susp_only now fm fm' \<longleftrightarrow> fm' = fm\<lparr>fm_suspended := fm_suspended fm'\<rparr>
     \<and> (\<forall>n t. now \<le> t \<longrightarrow> suspended_at fm' n t = suspended_at fm n t)"

lemma susp_only_refl: "susp_only now fm fm"
  by (simp add: susp_only_def)

lemma susp_only_trans:
  assumes "susp_only now fm fm'" "susp_only now fm' fm''" shows "susp_only now fm fm''"
proof -
  have "fm'' = fm'\<lparr>fm_suspended := fm_suspended fm''\<rparr>" "fm' = fm\<lparr>fm_suspended := fm_suspended fm'\<rparr>"
    using assms by (simp_all add: susp_only_def)
  then have "fm'' = fm\<lparr>fm_suspended := fm_suspended fm''\<rparr>"
    by (metis fmgr.surjective fmgr.update_convs(12))
  with assms show ?thesis by (simp add: susp_only_def)
qed

lemma susp_only_step: "susp_only now fm (fst (isSuspended now n fm))"
  unfolding susp_only_def suspended_frame(1)
  using suspended_frame(2) [of n now fm] getSuspendedUntil_later [of now] by blast

lemma susp_only_pending: "susp_only now fm fm' \<Longrightarrow> isJobPending fm' = isJobPending fm"
proof -
  assume "susp_only now fm fm'"
  then have "fm_pending fm' = fm_pending fm"
    unfolding susp_only_def by (metis fmgr.ext_inject fmgr.surjective fmgr.update_convs(12))
  then show ?thesis by (intro ext) (simp add: isJobPending_def)
qed

lemma susp_only_open: "susp_only now fm fm' \<Longrightarrow> open_forwarder fm' now h p f = open_forwarder fm now h p f"
  by (simp add: open_forwarder_def susp_only_pending) (simp add: susp_only_def)

definition eligible_entry :: "fwd_storage \<Rightarrow> gotime \<Rightarrow> info_hash \<Rightarrow> bool \<Rightarrow> eligible \<Rightarrow> bool" where
  "eligible_entry fs now h has c \<longleftrightarrow> el_name c = getName (el_forwarder c)
     \<and> el_overdue c = overdue_of fs now h (el_name c) \<and> el_has_entry c = has"

lemma classify_step:
  assumes "classify_forwarder now h p fs idx f (fm, new, due) = (fm', new', due')"
  shows "susp_only now fm fm'"
    and "new_forwarder fm fs now h p f \<Longrightarrow>
           \<exists>c. new' = new @ [c] \<and> el_forwarder c = f \<and> el_order c = idx \<and> eligible_entry fs now h False c \<and> due' = due"
    and "due_forwarder fm fs now h p f \<Longrightarrow>
           \<exists>c. due' = due @ [c] \<and> el_forwarder c = f \<and> el_order c = idx \<and> eligible_entry fs now h True c \<and> new' = new"
    and "\<not> new_forwarder fm fs now h p f \<Longrightarrow> \<not> due_forwarder fm fs now h p f \<Longrightarrow> new' = new \<and> due' = due"
proof -
  obtain fm1 b where s: "isSuspended now (getName f) fm = (fm1, b)" by force
  have b: "b = suspended_at fm (getName f) now" using isSuspended_result [of now "getName f" fm] s by simp
  have so: "susp_only now fm fm1" using susp_only_step [of now fm "getName f"] s by simp
  note pend = susp_only_pending [OF so]
  note defs = classify_forwarder_def s b pend GetAnnounceState_get Let_def open_forwarder_def
    new_forwarder_def due_forwarder_def eligible_entry_def overdue_of_def is_zero_time_def
  show "susp_only now fm fm'"
    using assms so by (auto simp: defs split: if_splits option.splits)
  show "new_forwarder fm fs now h p f \<Longrightarrow>
      \<exists>c. new' = new @ [c] \<and> el_forwarder c = f \<and> el_order c = idx \<and> eligible_entry fs now h False c \<and> due' = due"
    using assms by (auto simp: defs split: if_splits option.splits)
  show "due_forwarder fm fs now h p f \<Longrightarrow>
      \<exists>c. due' = due @ [c] \<and> el_forwarder c = f \<and> el_order c = idx \<and> eligible_entry fs now h True c \<and> new' = new"
    using assms by (auto simp: defs split: if_splits option.splits)
  show "\<not> new_forwarder fm fs now h p f \<Longrightarrow> \<not> due_forwarder fm fs now h p f \<Longrightarrow> new' = new \<and> due' = due"
    using assms by (auto simp: defs split: if_splits option.splits)
qed

lemma susp_only_new: "susp_only now fm fm' \<Longrightarrow> new_forwarder fm' fs now h p f = new_forwarder fm fs now h p f"
  and susp_only_due: "susp_only now fm fm' \<Longrightarrow> due_forwarder fm' fs now h p f = due_forwarder fm fs now h p f"
  by (simp_all add: new_forwarder_def due_forwarder_def susp_only_open)

lemma new_not_due: "new_forwarder fm fs now h p f \<Longrightarrow> \<not> due_forwarder fm fs now h p f"
  by (auto simp: new_forwarder_def due_forwarder_def)

lemma classify_all_result:
  assumes "classify_all now h p fs idx l (fm, new, due) = (fm', new', due')"
  shows "susp_only now fm fm'
     \<and> (\<exists>cs. new' = new @ cs \<and> map el_forwarder cs = filter (new_forwarder fm fs now h p) l
          \<and> (\<forall>c \<in> set cs. eligible_entry fs now h False c))
     \<and> (\<exists>cs. due' = due @ cs \<and> map el_forwarder cs = filter (due_forwarder fm fs now h p) l
          \<and> (\<forall>c \<in> set cs. eligible_entry fs now h True c \<and> idx \<le> el_order c)
          \<and> sorted (map el_order cs))"
  using assms
proof (induction l arbitrary: idx fm new due)
  case Nil
  then show ?case by (simp add: susp_only_refl)
next
  case (Cons f l)
  obtain fm1 new1 due1 where st: "classify_forwarder now h p fs idx f (fm, new, due) = (fm1, new1, due1)"
    by (metis prod_cases3)
  note step = classify_step [OF st]
  have so: "susp_only now fm fm1" by (rule step(1))
  have rest: "classify_all now h p fs (idx + 1) l (fm1, new1, due1) = (fm', new', due')"
    using Cons.prems st by simp
  note same = susp_only_new [OF so, of fs h p] susp_only_due [OF so, of fs h p]
  from Cons.IH [OF rest] obtain cs ds where IH: "susp_only now fm1 fm'"
    "new' = new1 @ cs" "map el_forwarder cs = filter (new_forwarder fm fs now h p) l"
    "\<forall>c \<in> set cs. eligible_entry fs now h False c"
    "due' = due1 @ ds" "map el_forwarder ds = filter (due_forwarder fm fs now h p) l"
    "\<forall>c \<in> set ds. eligible_entry fs now h True c \<and> idx + 1 \<le> el_order c" "sorted (map el_order ds)"
    by (auto simp: same)
  have so': "susp_only now fm fm'" using so IH(1) by (rule susp_only_trans)
  consider "new_forwarder fm fs now h p f" | "due_forwarder fm fs now h p f"
    | "\<not> new_forwarder fm fs now h p f" "\<not> due_forwarder fm fs now h p f" by blast
  then show ?case
  proof cases
    case 1
    from step(2) [OF 1] obtain c where c: "new1 = new @ [c]" "el_forwarder c = f"
      "eligible_entry fs now h False c" "due1 = due" by auto
    show ?thesis
      using so' IH c 1 new_not_due [OF 1]
      by (intro conjI exI [of _ "c # cs"] exI [of _ ds]) auto
  next
    case 2
    then have nn: "\<not> new_forwarder fm fs now h p f" using new_not_due by blast
    from step(3) [OF 2] obtain c where c: "due1 = due @ [c]" "el_forwarder c = f" "el_order c = idx"
      "eligible_entry fs now h True c" "new1 = new" by auto
    show ?thesis
      using so' IH c 2 nn
      by (intro conjI exI [of _ cs] exI [of _ "c # ds"]) auto
  next
    case 3
    with step(4) [OF 3] so' IH show ?thesis
      by (intro conjI exI [of _ cs] exI [of _ ds]) auto
  qed
qed

section \<open>Enqueueing\<close>

lemma enqueue_all_append:
  "enqueue_all don h rq ctx limit (xs @ ys) s =
     (case enqueue_all don h rq ctx limit xs s of
        (s', True) \<Rightarrow> enqueue_all don h rq ctx limit ys s' | (s', False) \<Rightarrow> (s', False))"
proof (induction xs arbitrary: s)
  case Nil
  then show ?case by simp
next
  case (Cons c cs)
  show ?case
  proof (cases "int (snd s) \<ge> limit")
    case True
    then have "enqueue_all don h rq ctx limit ys s = (s, True)" by (cases ys) simp_all
    with True show ?thesis by simp
  next
    case False
    with Cons show ?thesis by (simp split: prod.splits bool.splits)
  qed
qed

definition queued_job ::
  "info_hash \<Rightarrow> request \<Rightarrow> session option \<Rightarrow> eligible \<Rightarrow> announce_job \<Rightarrow> bool" where
  "queued_job h rq ctx c job \<longleftrightarrow> (\<exists>i. job = new_job h rq c \<lparr>js_id = i, js_peer_context = ctx\<rparr>)"

lemma job_context_new: "job_context (new_job h rq c \<lparr>js_id = i, js_peer_context = ctx\<rparr>) = ctx"
  by (simp add: job_context_def new_job_def split: option.splits)

lemma canceled_new: "canceled don (new_job h rq c \<lparr>js_id = i, js_peer_context = ctx\<rparr>) = ctx_done don ctx"
  by (simp add: canceled_def job_context_new)

lemma job_key_new: "job_key (new_job h rq c st) = jobKey h (el_name c) (rq_peer_id rq)"
  by (simp add: job_key_def new_job_def)

text \<open>Candidates with different names and no pending job are queued in order until the limit or
  the capacity is reached.\<close>

definition room :: "int \<Rightarrow> nat \<Rightarrow> fmgr \<Rightarrow> nat" where
  "room limit queued fm = min (nat (limit - int queued)) (fm_capacity fm - length (fm_queue fm))"

lemma finish_new_marker:
  assumes "gm_get (fm_pending fm) key = None" "job_key job = key" "aj_state job = Some st" "gm_wf (fm_pending fm)"
  shows "finishJob job (fm\<lparr>fm_pending := gm_put key st (fm_pending fm)\<rparr>) = fm"
  using assms by (simp add: finishJob_def same_state_def gm_del_put_same)

text \<open>One candidate of a live session: queued, or given up when the queue is full.\<close>

lemma enqueue_live:
  assumes "\<not> ctx_done don ctx" "gm_wf (fm_pending fm)" "\<not> isJobPending fm h (el_name c) (rq_peer_id rq)"
    and "\<not> int queued \<ge> limit"
  obtains (full) n d where "\<not> length (fm_queue fm) < fm_capacity fm"
      "enqueue don h rq ctx limit c (fm, queued) =
         ((fm\<lparr>fm_next_state := n, fm_dropped_full := d\<rparr>, queued), False)"
  | (sent) job n st where "length (fm_queue fm) < fm_capacity fm" "queued_job h rq ctx c job"
      "enqueue don h rq ctx limit c (fm, queued) =
         ((fm\<lparr>fm_next_state := n, fm_pending := gm_put (jobKey h (el_name c) (rq_peer_id rq)) st (fm_pending fm),
            fm_queue := fm_queue fm @ [job]\<rparr>, queued + 1), True)"
proof -
  let ?p = "rq_peer_id rq"
  define st where "st = \<lparr>js_id = fm_next_state fm, js_peer_context = ctx\<rparr>"
  define job where "job = new_job h rq c st"
  define fm1 where "fm1 = fm\<lparr>fm_next_state := fm_next_state fm + 1,
      fm_pending := gm_put (jobKey h (el_name c) ?p) st (fm_pending fm)\<rparr>"
  have np: "gm_get (fm_pending fm) (jobKey h (el_name c) ?p) = None" using assms(3) by (simp add: isJobPending_def)
  have nc: "\<not> canceled don job" using assms(1) by (simp add: job_def st_def canceled_new)
  have fin: "finishJob job fm1 = fm\<lparr>fm_next_state := fm_next_state fm + 1\<rparr>"
    using finish_new_marker [of "fm\<lparr>fm_next_state := fm_next_state fm + 1\<rparr>" "jobKey h (el_name c) ?p" job st]
      np assms(2) by (simp add: job_def job_key_new fm1_def) (simp add: new_job_def)
  have enq: "enqueue don h rq ctx limit c (fm, queued) =
      (if length (fm_queue fm) < fm_capacity fm
       then ((fm1\<lparr>fm_queue := fm_queue fm @ [job]\<rparr>, queued + 1), True)
       else (((finishJob job fm1)\<lparr>fm_dropped_full := fm_dropped_full fm + 1\<rparr>, queued), False))"
    using assms(4) np nc by (simp add: enqueue_def Let_def try_send_def job_def st_def fm1_def)
  show thesis
  proof (cases "length (fm_queue fm) < fm_capacity fm")
    case True
    moreover have "queued_job h rq ctx c job" by (auto simp: queued_job_def job_def st_def)
    ultimately show thesis using sent [of job st "fm_next_state fm + 1"] enq by (simp add: fm1_def)
  next
    case False
    with full [of "fm_dropped_full fm + 1" "fm_next_state fm + 1"] enq show thesis by (simp add: fin)
  qed
qed

lemma enqueue_all_live:
  assumes "\<not> ctx_done don ctx" "distinct (map el_name cs)" "gm_wf (fm_pending fm)"
    and "\<forall>c \<in> set cs. \<not> isJobPending fm h (el_name c) (rq_peer_id rq)"
  shows "\<exists>js. fm_queue (fst (fst (enqueue_all don h rq ctx limit cs (fm, queued)))) = fm_queue fm @ js
     \<and> list_all2 (queued_job h rq ctx) (take (room limit queued fm) cs) js
     \<and> (\<forall>n p. isJobPending (fst (fst (enqueue_all don h rq ctx limit cs (fm, queued)))) h n p \<longleftrightarrow>
            isJobPending fm h n p \<or> (p = rq_peer_id rq \<and> n \<in> el_name ` set (take (room limit queued fm) cs)))"
  using assms
proof (induction cs arbitrary: fm queued)
  case Nil
  then show ?case by simp
next
  case (Cons c cs)
  let ?p = "rq_peer_id rq"
  show ?case
  proof (cases "int queued \<ge> limit")
    case True
    then show ?thesis by (simp add: room_def)
  next
    case lim: False
    have np: "\<not> isJobPending fm h (el_name c) ?p" using Cons.prems(4) by simp
    show ?thesis
    proof (rule enqueue_live [OF Cons.prems(1,3) np lim], goal_cases)
      case (1 n d)
      then have "room limit queued fm = 0" by (simp add: room_def)
      with 1 lim show ?thesis by (simp add: isJobPending_def)
    next
      case (2 job n st)
      define fm2 where "fm2 = fm\<lparr>fm_next_state := n,
          fm_pending := gm_put (jobKey h (el_name c) ?p) st (fm_pending fm), fm_queue := fm_queue fm @ [job]\<rparr>"
      have rec: "enqueue_all don h rq ctx limit (c # cs) (fm, queued)
          = enqueue_all don h rq ctx limit cs (fm2, queued + 1)"
        using lim 2(3) by (simp add: fm2_def)
      have r: "room limit queued fm = Suc (room limit (queued + 1) fm2)"
        using lim 2(1) by (auto simp: room_def fm2_def)
      have pend2: "isJobPending fm2 h n q \<longleftrightarrow> isJobPending fm h n q \<or> (n = el_name c \<and> q = ?p)" for n q
        by (auto simp: isJobPending_def fm2_def jobKey_eq_iff)
      have "gm_wf (fm_pending fm2)" using Cons.prems(3) by (simp add: fm2_def)
      moreover have "\<forall>d \<in> set cs. \<not> isJobPending fm2 h (el_name d) ?p"
        using Cons.prems(2,4) by (auto simp: pend2) (metis image_eqI)
      ultimately obtain js where IH:
        "fm_queue (fst (fst (enqueue_all don h rq ctx limit cs (fm2, queued + 1)))) = fm_queue fm2 @ js"
        "list_all2 (queued_job h rq ctx) (take (room limit (queued + 1) fm2) cs) js"
        "\<forall>n q. isJobPending (fst (fst (enqueue_all don h rq ctx limit cs (fm2, queued + 1)))) h n q \<longleftrightarrow>
            isJobPending fm2 h n q \<or> (q = ?p \<and> n \<in> el_name ` set (take (room limit (queued + 1) fm2) cs))"
        using Cons.IH [of fm2 "queued + 1"] Cons.prems(1,2) by auto
      with 2(2) show ?thesis
        unfolding rec r by (intro exI [of _ "job # js"]) (auto simp: fm2_def pend2 [unfolded fm2_def])
    qed
  qed
qed

text \<open>A cancelled session queues nothing.\<close>

lemma enqueue_all_dead:
  "ctx_done don ctx \<Longrightarrow>
     fm_queue (fst (fst (enqueue_all don h rq ctx limit cs (fm, queued)))) = fm_queue fm
     \<and> fm_pending (fst (fst (enqueue_all don h rq ctx limit cs (fm, queued)))) = fm_pending fm"
proof (induction cs arbitrary: fm)
  case (Cons c cs)
  then show ?case
    by (simp add: enqueue_def Let_def canceled_new)
qed simp

lemma sort_due_props:
  "mset (sort_due due) = mset due" "sorted (map (\<lambda>c. (- el_overdue c, el_order c)) (sort_due due))"
  by (simp_all add: sort_due_def)

lemma sort_due_overdue: "sorted_wrt (\<lambda>a b. el_overdue b \<le> el_overdue a) (sort_due due)"
proof -
  have "sorted_wrt (\<lambda>a b. (- el_overdue a, el_order a) \<le> (- el_overdue b, el_order b)) (sort_due due)"
    using sort_due_props(2) by (simp add: sorted_map)
  then show ?thesis by (rule sorted_wrt_mono_rel [rotated]) (auto simp: less_eq_prod_def)
qed

section \<open>The whole operation\<close>

lemma announce_limit_result:
  "snd (announce_limit fm) =
     (if queueFillPct fm \<ge> fm_throttle_thresh fm \<and> fm_throttle_top_n fm > 0
      then fm_throttle_top_n fm else fm_max_per_announce fm)"
  "fst (announce_limit fm) = fm\<lparr>fm_last_throttle_log := fm_last_throttle_log (fst (announce_limit fm))\<rparr>"
  by (simp_all add: announce_limit_def Let_def shouldLogQueueThrottle_def resetQueueThrottleLogState_def)

lemma queueEligible_unfold:
  assumes "\<not> fm_stopped fm" "fm_forwarders fm \<noteq> []"
    and "announce_limit fm = (fm1, limit)"
    and "classify_all now h (rq_peer_id rq) fs 0 (shuffle (fm_forwarders fm)) (fm1, [], []) = (fm2, new, due)"
  shows "queueEligibleAnnounces shuffle don now h rq ctx fs fm =
     fst (fst (enqueue_all don h rq ctx limit (new @ sort_due due) (fm2, 0)))"
  using assms by (simp add: queueEligibleAnnounces_def Let_def enqueue_all_append split: prod.splits bool.splits)

lemma log_only_fields:
  "fm' = fm\<lparr>fm_last_throttle_log := x\<rparr> \<Longrightarrow> open_forwarder fm' = open_forwarder fm
     \<and> fm_queue fm' = fm_queue fm \<and> fm_pending fm' = fm_pending fm \<and> fm_capacity fm' = fm_capacity fm
     \<and> fm_next_state fm' = fm_next_state fm \<and> fm_scheduled fm' = fm_scheduled fm
     \<and> fm_forwarders fm' = fm_forwarders fm"
  by (auto simp: open_forwarder_def suspended_at_def isJobPending_def intro!: ext)

lemma susp_only_fields:
  assumes "susp_only now fm fm'"
  shows "fm_queue fm' = fm_queue fm" "fm_pending fm' = fm_pending fm" "fm_capacity fm' = fm_capacity fm"
    "fm_next_state fm' = fm_next_state fm" "fm_scheduled fm' = fm_scheduled fm"
    "fm_forwarders fm' = fm_forwarders fm"
proof -
  obtain x where "fm' = fm\<lparr>fm_suspended := x\<rparr>" using assms unfolding susp_only_def by blast
  then show "fm_queue fm' = fm_queue fm" "fm_pending fm' = fm_pending fm" "fm_capacity fm' = fm_capacity fm"
    "fm_next_state fm' = fm_next_state fm" "fm_scheduled fm' = fm_scheduled fm"
    "fm_forwarders fm' = fm_forwarders fm" by simp_all
qed

lemma map_names:
  "\<forall>c \<in> set cs. eligible_entry fs now h b c \<Longrightarrow> map el_name cs = map getName (map el_forwarder cs)"
  by (induction cs) (auto simp: eligible_entry_def)

lemma eligible_names_distinct:
  assumes "distinct (map getName l)" "map el_forwarder new = filter P l" "map el_forwarder due = filter Q l"
    and "\<And>f. P f \<Longrightarrow> \<not> Q f"
    and "\<forall>c \<in> set new. eligible_entry fs now h False c" "\<forall>c \<in> set due. eligible_entry fs now h True c"
  shows "distinct (map el_name (new @ due))"
proof -
  have "map el_name new = map getName (filter P l)" "map el_name due = map getName (filter Q l)"
    using map_names [OF assms(5)] map_names [OF assms(6)] assms(2,3) by simp_all
  moreover have "getName ` set (filter P l) \<inter> getName ` set (filter Q l) = {}"
    using assms(1,4) by (auto simp: distinct_map dest: inj_onD)
  ultimately show ?thesis using assms(1) by (simp add: distinct_map_filter)
qed

text \<open>The candidates of one announce: which forwarders, in which order, and that they can be queued.\<close>

lemma classified_candidates:
  assumes cl: "classify_all now h p fs 0 l (fm, [], []) = (fm', new, due)" and names: "distinct (map getName l)"
  shows "susp_only now fm fm'" "map el_forwarder new = filter (new_forwarder fm fs now h p) l"
    and "mset (map el_forwarder (sort_due due)) = mset (filter (due_forwarder fm fs now h p) l)"
    and "sorted_wrt (\<lambda>a b. overdue_of fs now h (el_name b) \<le> overdue_of fs now h (el_name a)) (sort_due due)"
    and "\<forall>c \<in> set (new @ sort_due due). el_name c = getName (el_forwarder c) \<and> open_forwarder fm now h p (el_forwarder c)"
    and "distinct (map el_name (new @ sort_due due))"
proof -
  from classify_all_result [OF cl] show "susp_only now fm fm'"
    and new: "map el_forwarder new = filter (new_forwarder fm fs now h p) l" by auto
  from classify_all_result [OF cl] have due: "map el_forwarder due = filter (due_forwarder fm fs now h p) l"
    and el: "\<forall>c \<in> set new. eligible_entry fs now h False c" "\<forall>c \<in> set due. eligible_entry fs now h True c" by auto
  have sd: "set (sort_due due) = set due" using sort_due_props(1) by (metis set_mset_mset)
  show "mset (map el_forwarder (sort_due due)) = mset (filter (due_forwarder fm fs now h p) l)"
    using arg_cong [OF due, of mset] sort_due_props(1) [of due] by simp
  show "sorted_wrt (\<lambda>a b. overdue_of fs now h (el_name b) \<le> overdue_of fs now h (el_name a)) (sort_due due)"
    using sort_due_overdue [of due]
    by (rule sorted_wrt_mono_rel [rotated]) (use el(2) sd in \<open>auto simp: eligible_entry_def\<close>)
  show "\<forall>c \<in> set (new @ sort_due due). el_name c = getName (el_forwarder c) \<and> open_forwarder fm now h p (el_forwarder c)"
  proof
    fix c assume "c \<in> set (new @ sort_due due)"
    then have c: "c \<in> set new \<or> c \<in> set due" using sd by auto
    then have "el_forwarder c \<in> set (map el_forwarder new) \<or> el_forwarder c \<in> set (map el_forwarder due)" by auto
    then have "open_forwarder fm now h p (el_forwarder c)"
      unfolding new due by (auto simp: new_forwarder_def due_forwarder_def)
    with c el show "el_name c = getName (el_forwarder c) \<and> open_forwarder fm now h p (el_forwarder c)"
      by (auto simp: eligible_entry_def)
  qed
  have "distinct (map el_name (new @ due))"
    using names new due new_not_due el by (rule eligible_names_distinct)
  then show "distinct (map el_name (new @ sort_due due))"
    using mset_eq_imp_distinct_iff [of "map el_name (new @ sort_due due)" "map el_name (new @ due)"]
    by (simp add: sort_due_props(1))
qed

lemma queued_names: "list_all2 (queued_job h rq ctx) cs js \<Longrightarrow> el_name ` set cs = aj_fwd ` set js"
  by (induction cs js rule: list_all2_induct) (auto simp: queued_job_def new_job_def)

text \<open>The queued jobs, for distinct forwarder names and a live session.\<close>

lemma queueEligible_queues:
  assumes run: "\<not> fm_stopped fm" and wf: "gm_wf (fm_pending fm)"
    and live: "\<not> ctx_done don ctx"
    and names: "distinct (map getName (shuffle (fm_forwarders fm)))" and ne: "fm_forwarders fm \<noteq> []"
  shows "\<exists>new due js.
      fm_queue (queueEligibleAnnounces shuffle don now h rq ctx fs fm) = fm_queue fm @ js
    \<and> list_all2 (queued_job h rq ctx) (take (room (snd (announce_limit fm)) 0 fm) (new @ due)) js
    \<and> map el_forwarder new = filter (new_forwarder fm fs now h (rq_peer_id rq)) (shuffle (fm_forwarders fm))
    \<and> mset (map el_forwarder due) =
        mset (filter (due_forwarder fm fs now h (rq_peer_id rq)) (shuffle (fm_forwarders fm)))
    \<and> sorted_wrt (\<lambda>a b. overdue_of fs now h (el_name b) \<le> overdue_of fs now h (el_name a)) due
    \<and> (\<forall>c \<in> set (new @ due). el_name c = getName (el_forwarder c))
    \<and> (\<forall>n p. isJobPending (queueEligibleAnnounces shuffle don now h rq ctx fs fm) h n p \<longleftrightarrow>
         isJobPending fm h n p \<or> (p = rq_peer_id rq \<and> (\<exists>j \<in> set js. aj_fwd j = n)))"
proof -
  let ?p = "rq_peer_id rq" and ?l = "shuffle (fm_forwarders fm)"
  obtain fm1 limit where al: "announce_limit fm = (fm1, limit)" by force
  obtain fm2 new due where cl: "classify_all now h ?p fs 0 ?l (fm1, [], []) = (fm2, new, due)"
    by (metis prod_cases3)
  have "fm1 = fm\<lparr>fm_last_throttle_log := fm_last_throttle_log fm1\<rparr>"
    using announce_limit_result(2) [of fm] al by simp
  note f1 = log_only_fields [OF this]
  have same: "new_forwarder fm1 = new_forwarder fm" "due_forwarder fm1 = due_forwarder fm"
    using f1 by (auto simp: new_forwarder_def due_forwarder_def intro!: ext)
  note cand = classified_candidates [OF cl names, unfolded same]
  note f2 = susp_only_fields [OF cand(1)]
  have nopend: "\<forall>c \<in> set (new @ sort_due due). \<not> isJobPending fm2 h (el_name c) ?p"
    using cand(5) f1 f2 by (simp add: open_forwarder_def isJobPending_def)
  have wf2: "gm_wf (fm_pending fm2)" using wf f1 f2 by simp
  have room: "room limit 0 fm2 = room (snd (announce_limit fm)) 0 fm"
    using f1 f2 al by (simp add: room_def)
  from enqueue_all_live [OF live cand(6) wf2 nopend, of limit 0]
  obtain js where js:
    "fm_queue (queueEligibleAnnounces shuffle don now h rq ctx fs fm) = fm_queue fm @ js"
    "list_all2 (queued_job h rq ctx) (take (room (snd (announce_limit fm)) 0 fm) (new @ sort_due due)) js"
    "\<forall>n p. isJobPending (queueEligibleAnnounces shuffle don now h rq ctx fs fm) h n p \<longleftrightarrow>
        isJobPending fm h n p \<or> (p = ?p \<and> n \<in> el_name ` set (take (room (snd (announce_limit fm)) 0 fm) (new @ sort_due due)))"
    unfolding queueEligible_unfold [where shuffle = shuffle, OF run ne al cl] room
    using f1 f2 by (auto simp: isJobPending_def)
  have "\<forall>n p. isJobPending (queueEligibleAnnounces shuffle don now h rq ctx fs fm) h n p \<longleftrightarrow>
      isJobPending fm h n p \<or> (p = ?p \<and> (\<exists>j \<in> set js. aj_fwd j = n))"
    using js(3) unfolding queued_names [OF js(2)] by auto
  moreover have "\<forall>c \<in> set (new @ sort_due due). el_name c = getName (el_forwarder c)" using cand(5) by blast
  ultimately show ?thesis using js(1,2) cand(2-4) by blast
qed

text \<open>The bookkeeping invariant.\<close>

lemma jobs_inv_enqueue:
  assumes "jobs_inv fm R" "el_name c \<noteq> []"
  shows "jobs_inv (fst (fst (enqueue don h rq ctx limit c (fm, queued)))) R"
proof (cases "int queued \<ge> limit \<or> gm_mem (jobKey h (el_name c) (rq_peer_id rq)) (fm_pending fm)
    \<or> ctx_done don ctx")
  case True
  then show ?thesis
    using assms(1) jobs_inv_skip_id [OF assms(1)]
    by (auto simp: enqueue_def Let_def canceled_new)
next
  case False
  define st where "st = \<lparr>js_id = fm_next_state fm, js_peer_context = ctx\<rparr>"
  define job where "job = new_job h rq c st"
  define fm1 where "fm1 = fm\<lparr>fm_next_state := fm_next_state fm + 1,
        fm_pending := gm_put (job_key job) st (fm_pending fm)\<rparr>"
  have inv1: "jobs_inv fm1 (insert job R)"
    unfolding fm1_def using assms
    by (intro jobs_inv_fresh) (auto simp: job_def st_def new_job_def)
  have key: "job_key job = jobKey h (el_name c) (rq_peer_id rq)" by (simp add: job_def job_key_new)
  have nc: "\<not> canceled don job" using False by (simp add: job_def st_def canceled_new)
  have "fst (fst (enqueue don h rq ctx limit c (fm, queued))) =
      (case try_send job fm1 of Some fm2 \<Rightarrow> fm2
       | None \<Rightarrow> (finishJob job fm1)\<lparr>fm_dropped_full := fm_dropped_full fm + 1\<rparr>)"
    using False nc by (simp add: enqueue_def Let_def fm1_def key st_def [symmetric] job_def [symmetric]
        split: option.split)
  moreover have "jobs_inv ((finishJob job fm1)\<lparr>fm_dropped_full := x\<rparr>) R" for x
    using jobs_inv_finish [OF inv1] jobs_inv_frame [of "(finishJob job fm1)\<lparr>fm_dropped_full := x\<rparr>"
        "finishJob job fm1"] by simp
  ultimately show ?thesis using jobs_inv_send [OF inv1] by (simp split: option.split)
qed

lemma jobs_inv_enqueue_all:
  "jobs_inv (fst s) R \<Longrightarrow> \<forall>c \<in> set cs. el_name c \<noteq> [] \<Longrightarrow>
     jobs_inv (fst (fst (enqueue_all don h rq ctx limit cs s))) R"
proof (induction cs arbitrary: s)
  case (Cons c cs)
  obtain fm queued where s: "s = (fm, queued)" by (cases s)
  obtain s' b where e: "enqueue don h rq ctx limit c s = (s', b)" by (metis surj_pair)
  have "jobs_inv (fst s') R"
    using jobs_inv_enqueue [of fm R c don h rq ctx limit queued] Cons.prems s e by simp
  with Cons s e show ?case by (cases b) auto
qed simp

lemma jobs_inv_queueEligible:
  assumes "jobs_inv fm R" "\<forall>f \<in> set (shuffle (fm_forwarders fm)). getName f \<noteq> []"
  shows "jobs_inv (queueEligibleAnnounces shuffle don now h rq ctx fs fm) R"
proof (cases "fm_stopped fm \<or> fm_forwarders fm = []")
  case True
  with assms show ?thesis by (auto simp: queueEligibleAnnounces_def)
next
  case False
  let ?p = "rq_peer_id rq" and ?l = "shuffle (fm_forwarders fm)"
  obtain fm1 limit where al: "announce_limit fm = (fm1, limit)" by force
  obtain fm2 new due where cl: "classify_all now h ?p fs 0 ?l (fm1, [], []) = (fm2, new, due)"
    by (metis prod_cases3)
  have "fm1 = fm\<lparr>fm_last_throttle_log := fm_last_throttle_log fm1\<rparr>"
    using announce_limit_result(2) [of fm] al by simp
  from log_only_fields [OF this] have "jobs_inv fm1 R"
    using assms(1) jobs_inv_frame [of fm1 fm] by simp
  moreover from classify_all_result [OF cl] have so: "susp_only now fm1 fm2"
    and new: "map el_forwarder new = filter (new_forwarder fm1 fs now h ?p) ?l"
      "\<forall>c \<in> set new. eligible_entry fs now h False c"
    and due: "map el_forwarder due = filter (due_forwarder fm1 fs now h ?p) ?l"
      "\<forall>c \<in> set due. eligible_entry fs now h True c" by auto
  ultimately have inv2: "jobs_inv fm2 R"
    using jobs_inv_frame [of fm2 fm1] susp_only_fields [OF so] by simp
  have "el_name c \<noteq> []" if "c \<in> set (new @ sort_due due)" for c
  proof -
    have "c \<in> set new \<or> c \<in> set due" using that sort_due_props(1) [of due] by (metis Un_iff set_append set_mset_mset)
    then have "el_forwarder c \<in> set (map el_forwarder new) \<or> el_forwarder c \<in> set (map el_forwarder due)"
      and "el_name c = getName (el_forwarder c)" using new(2) due(2) by (auto simp: eligible_entry_def)
    then show ?thesis using assms(2) unfolding new(1) due(1) by auto
  qed
  then show ?thesis
    using False jobs_inv_enqueue_all [of "(fm2, 0)"] inv2
    by (simp add: queueEligible_unfold [where shuffle = shuffle, OF _ _ al cl])
qed

end
