(* ===== verification/Announce.thy ===== *)
theory Announce
  imports Scrape QueueLemmas
begin

text \<open>
  \<open>internal/server/receiverAnnounce.go\<close>: an announce from a client. \<open>tracker\<close> is the state that
  the receiver shares with \<open>Core\<close>: the configuration, the peer storage with the upstream cache
  attached to it (\<open>st_fwd\<close>, the receiver's \<open>ForwarderStorage\<close>) and the forwarder manager, if
  there is one. An announce reads the clock once (\<open>now\<close>); \<open>fam\<close> is the receiver's peer family.
\<close>

record tracker =
  tk_config :: config
  tk_storage :: storage
  tk_manager :: "fmgr option"

definition clampInterval :: "config \<Rightarrow> int \<Rightarrow> int" where
  "clampInterval cfg interval =
     (if interval \<le> 0 then cf_announce_interval cfg
      else if interval < cf_announce_interval cfg then cf_announce_interval cfg
      else interval)"

section \<open>Peers for a response\<close>

definition getPeersForResponse :: "gotime \<Rightarrow> tracker \<Rightarrow> info_hash \<Rightarrow> int \<times> int \<times> peer list" where
  "getPeersForResponse now tk h =
     (let st = tk_storage tk;
          localPeers = GetPeers st h;
          forwarderPeers = fwd_peers now (st_fwd st) h
      in case count_forwarded forwarderPeers (count_local (local_requests st h) ([], 0, 0)) of
           (seen, seeders, leechers) \<Rightarrow> (seeders, leechers, localPeers @ forwarderPeers))"

definition isFirstAnnounce :: "tracker \<Rightarrow> info_hash \<Rightarrow> bool" where
  "isFirstAnnounce tk h = (case st_fwd (tk_storage tk) of Some fs \<Rightarrow> \<not> HasInfoHash fs h | None \<Rightarrow> False)"

definition peer_key_string :: "peer \<Rightarrow> string" where
  "peer_key_string p = p_ip p @ CHR '':'' # itoa (p_port p)"

definition family_ok :: "nat \<Rightarrow> peer \<Rightarrow> bool" where
  "family_ok fam p \<longleftrightarrow> fam = 0
     \<or> (let ip = net_parse_ip (p_ip p) in ip \<noteq> [] \<and> (ip_to4 ip \<noteq> []) = (fam = 4))"

fun filter_loop :: "nat \<Rightarrow> peer \<Rightarrow> nat \<Rightarrow> string list \<Rightarrow> peer list \<Rightarrow> peer list \<Rightarrow> peer list" where
  "filter_loop fam requester maxPeers seen filtered [] = filtered"
| "filter_loop fam requester maxPeers seen filtered (p # ps) =
     (if p_id p = p_id requester then filter_loop fam requester maxPeers seen filtered ps
      else if p_ip p = p_ip requester \<and> p_port p = p_port requester
      then filter_loop fam requester maxPeers seen filtered ps
      else if \<not> family_ok fam p then filter_loop fam requester maxPeers seen filtered ps
      else if peer_key_string p \<in> set seen then filter_loop fam requester maxPeers seen filtered ps
      else (let filtered' = filtered @ [p]
            in if length filtered' \<ge> maxPeers then filtered'
               else filter_loop fam requester maxPeers (peer_key_string p # seen) filtered' ps))"

definition filterPeers :: "nat \<Rightarrow> peer list \<Rightarrow> peer \<Rightarrow> u64 \<Rightarrow> peer list" where
  "filterPeers fam peers requester numWant =
     (if peers = [] then peers
      else (let maxPeers = (if numWant = 0 then default_num_want else numWant)
            in filter_loop fam requester (unat maxPeers) [] [] peers))"

section \<open>Events\<close>

definition handleStoppedEvent :: "request \<Rightarrow> tracker \<times> response \<Rightarrow> tracker \<times> response" where
  "handleStoppedEvent rq = (\<lambda>(tk, resp).
     (let h = rq_hash rq; p = rq_peer_id rq;
          session = peerContext (tk_storage tk) h p;
          st1 = deleteLocked h p (tk_storage tk);
          st2 = (if st_inner st1 h = [] then st1\<lparr>st_fwd := map_option (fs_cleanup h) (st_fwd st1)\<rparr> else st1);
          fm' = (case (tk_manager tk, session) of
                   (Some fm, Some c) \<Rightarrow> Some (cancelPendingJobs h p (Some c) fm)
                 | (m, _) \<Rightarrow> m)
      in (tk\<lparr>tk_storage := st2, tk_manager := fm'\<rparr>,
          resp\<lparr>rs_interval := clampInterval (tk_config tk) (cf_announce_interval (tk_config tk))\<rparr>)))"

definition handleCompletedEvent :: "gotime \<Rightarrow> request \<Rightarrow> tracker \<times> response \<Rightarrow> tracker \<times> response" where
  "handleCompletedEvent now rq = (\<lambda>(tk, resp).
     (let tk1 = tk\<lparr>tk_storage := fst (storage_update rq (tk_storage tk))\<rparr>;
          peers = snd (snd (getPeersForResponse now tk1 (rq_hash rq)))
      in (tk1, resp\<lparr>rs_peers := peers,
            rs_interval := clampInterval (tk_config tk) (cf_announce_interval (tk_config tk))\<rparr>)))"

definition tracker_busy :: "int \<Rightarrow> string" where
  "tracker_busy n = ''tracker busy, retry in '' @ itoa n @ '' seconds''"

definition queue_full_reason :: string where
  "queue_full_reason = ''tracker queue full, retry in 30 minutes''"

text \<open>\<open>queueEligibleAnnounces\<close> on the tracker's state.\<close>

definition tk_queue ::
  "(forward list \<Rightarrow> forward list) \<Rightarrow> gotime \<Rightarrow> request \<Rightarrow> session \<Rightarrow> fmgr \<Rightarrow> tracker \<Rightarrow> tracker" where
  "tk_queue shuffle now rq c fm tk =
     tk\<lparr>tk_manager := Some (queueEligibleAnnounces shuffle (session_done (tk_storage tk)) now (rq_hash rq) rq
          (Some c) (case st_fwd (tk_storage tk) of Some fs \<Rightarrow> fs | None \<Rightarrow> NewForwarderStorage) fm)\<rparr>"

definition handleFirstAnnounce ::
  "(forward list \<Rightarrow> forward list) \<Rightarrow> gotime \<Rightarrow> request \<Rightarrow> session \<Rightarrow> tracker \<times> response \<Rightarrow> tracker \<times> response" where
  "handleFirstAnnounce shuffle now rq c = (\<lambda>(tk, resp0).
     (let cfg = tk_config tk;
          resp = resp0\<lparr>rs_interval := clampInterval cfg (cf_announce_interval cfg)\<rparr>
      in case tk_manager tk of
           None \<Rightarrow> (tk, resp)
         | Some fm \<Rightarrow>
             (let (fm1, limited) =
                    (if shouldRateLimitInitial fm
                     then (case allow now (fm_limiter fm) of (tb, ok) \<Rightarrow> (fm\<lparr>fm_limiter := tb\<rparr>, \<not> ok))
                     else (fm, False))
              in if limited then
                   (let retrySeconds = (if cf_retry_period cfg \<le> 0 then 300 else cf_retry_period cfg)
                    in (tk\<lparr>tk_manager := Some (fm1\<lparr>fm_rate_limited := fm_rate_limited fm1 + 1\<rparr>)\<rparr>,
                        resp\<lparr>rs_failure := tracker_busy retrySeconds, rs_interval := retrySeconds\<rparr>))
                 else if isQueueFull fm1 then
                   (tk\<lparr>tk_manager := Some (fm1\<lparr>fm_dropped_full := fm_dropped_full fm1 + 1\<rparr>)\<rparr>,
                    resp\<lparr>rs_failure := queue_full_reason, rs_interval := cf_announce_interval cfg\<rparr>)
                 else (tk_queue shuffle now rq c fm1 tk, resp))))"

definition handleSubsequentAnnounce ::
  "(forward list \<Rightarrow> forward list) \<Rightarrow> gotime \<Rightarrow> request \<Rightarrow> session \<Rightarrow> tracker \<times> response \<Rightarrow> tracker \<times> response" where
  "handleSubsequentAnnounce shuffle now rq c = (\<lambda>(tk, resp0).
     (let resp = resp0\<lparr>rs_interval := clampInterval (tk_config tk) (cf_announce_interval (tk_config tk))\<rparr>
      in case tk_manager tk of
           None \<Rightarrow> (tk, resp)
         | Some fm \<Rightarrow> (tk_queue shuffle now rq c fm tk, resp)))"

definition handleRegularAnnounce ::
  "(forward list \<Rightarrow> forward list) \<Rightarrow> gotime \<Rightarrow> request \<Rightarrow> tracker \<times> response \<Rightarrow> tracker \<times> response" where
  "handleRegularAnnounce shuffle now rq = (\<lambda>(tk, resp).
     (let (st1, c) = storage_update rq (tk_storage tk);
          tk1 = tk\<lparr>tk_storage := st1\<rparr>
      in if isFirstAnnounce tk1 (rq_hash rq) then handleFirstAnnounce shuffle now rq c (tk1, resp)
         else handleSubsequentAnnounce shuffle now rq c (tk1, resp)))"

definition handle_event ::
  "(forward list \<Rightarrow> forward list) \<Rightarrow> gotime \<Rightarrow> request \<Rightarrow> tracker \<Rightarrow> tracker \<times> response" where
  "handle_event shuffle now rq tk =
     (if rq_event rq = ev_stopped then handleStoppedEvent rq (tk, empty_response)
      else if rq_event rq = ev_completed then handleCompletedEvent now rq (tk, empty_response)
      else handleRegularAnnounce shuffle now rq (tk, empty_response))"

text \<open>The response from the tracker's state after the event.\<close>

definition finish_response :: "nat \<Rightarrow> gotime \<Rightarrow> request \<Rightarrow> tracker \<Rightarrow> response \<Rightarrow> response" where
  "finish_response fam now rq tk resp0 =
     (let cfg = tk_config tk;
          resp1 = (if rs_interval resp0 = 0 then resp0\<lparr>rs_interval := cf_announce_interval cfg\<rparr> else resp0);
          resp2 = (if rs_failure resp1 = []
                   then resp1\<lparr>rs_interval := clampInterval cfg (rs_interval resp1),
                              rs_min_interval := cf_announce_interval cfg\<rparr>
                   else resp1\<lparr>rs_min_interval := rs_interval resp1\<rparr>);
          (seeders, leechers, peers) = getPeersForResponse now tk (rq_hash rq);
          resp3 = resp2\<lparr>rs_complete := seeders, rs_incomplete := leechers, rs_peers := peers\<rparr>;
          resp4 = (if cf_tracker_id cfg \<noteq> [] then resp3\<lparr>rs_tracker_id := cf_tracker_id cfg\<rparr> else resp3)
      in resp4\<lparr>rs_peers := filterPeers fam (rs_peers resp4) (request_peer rq) (rq_num_want rq)\<rparr>)"

definition ProcessAnnounce ::
  "(forward list \<Rightarrow> forward list) \<Rightarrow> nat \<Rightarrow> gotime \<Rightarrow> address \<Rightarrow> info_hash \<Rightarrow> peer_id \<Rightarrow>
   string \<Rightarrow> string \<Rightarrow> string \<Rightarrow> string \<Rightarrow> address \<Rightarrow> string \<Rightarrow> string \<Rightarrow> string \<Rightarrow> string \<Rightarrow> string \<Rightarrow> tracker \<Rightarrow>
   tracker \<times> (request_error + response)" where
  "ProcessAnnounce shuffle fam now remoteAddr infoHash peerID port uploaded downloaded left ip numwant event
     userAgent compactFlag noPeerIDFlag tk =
     (case makeRequest now remoteAddr infoHash peerID port uploaded downloaded left ip numwant event
             userAgent compactFlag noPeerIDFlag of
        Inl e \<Rightarrow> (tk, Inl e)
      | Inr rq \<Rightarrow> (case handle_event shuffle now rq tk of
          (tk1, resp) \<Rightarrow> (tk1, Inr (finish_response fam now rq tk1 resp))))"

section \<open>The HTTP handler\<close>

text \<open>\<open>net.SplitHostPort\<close>, as far as the host is used: None is an error.\<close>

definition split_host :: "string \<Rightarrow> string option" where
  "split_host s =
     (case cut_last (CHR '':'') s of
        None \<Rightarrow> None
      | Some (host, port) \<Rightarrow>
          (if has_prefix s ''['' then
             (case cut_first (CHR '']'') s of
                None \<Rightarrow> None
              | Some (a, b) \<Rightarrow>
                  (if length a + 1 \<noteq> length host then None
                   else if CHR ''['' \<in> set (tl s) then None
                   else if CHR '']'' \<in> set b then None
                   else Some (tl a)))
           else if CHR '':'' \<in> set host then None
           else if CHR ''['' \<in> set s \<or> CHR '']'' \<in> set s then None
           else Some host))"

definition parseRemoteAddr :: "string \<Rightarrow> string \<Rightarrow> string" where
  "parseRemoteAddr s def = (case split_host s of None \<Rightarrow> def | Some h \<Rightarrow> h)"

definition getRemoteAddr :: "config \<Rightarrow> string \<Rightarrow> string \<Rightarrow> string" where
  "getRemoteAddr cfg remote xrealip =
     (if cf_x_real_ip cfg \<and> xrealip \<noteq> [] then xrealip else parseRemoteAddr remote ''127.0.0.1'')"

text \<open>The query is the function \<open>get\<close>, \<open>url.Values.Get\<close>; encoding is the parameter \<open>bencode\<close>,
  which may fail. The result is the status and the body; the text of a rejected parameter
  is \<open>err_text\<close>.\<close>

definition HTTPHandler ::
  "(bool \<Rightarrow> response \<Rightarrow> 'e + string) \<Rightarrow> (request_error \<Rightarrow> string) \<Rightarrow> (forward list \<Rightarrow> forward list) \<Rightarrow>
   gotime \<Rightarrow> string \<Rightarrow> string \<Rightarrow> string \<Rightarrow> (string \<Rightarrow> string) \<Rightarrow> tracker \<Rightarrow> tracker \<times> nat \<times> string" where
  "HTTPHandler bencode err_text shuffle now remote xrealip userAgent get tk =
     (case ProcessAnnounce shuffle 0 now (getRemoteAddr (tk_config tk) remote xrealip) (get ''info_hash'')
             (get ''peer_id'') (get ''port'') (get ''uploaded'') (get ''downloaded'') (get ''left'')
             (get ''ip'') (get ''numwant'') (get ''event'') userAgent (get ''compact'') (get ''no_peer_id'') tk of
        (tk', Inl e) \<Rightarrow>
          (tk', 400, (case bencode False (newFailure (err_text e)) of Inr s \<Rightarrow> s | Inl _ \<Rightarrow> []))
      | (tk', Inr resp) \<Rightarrow>
          (tk', 200, (case bencode (get ''compact'' = ''1'') resp of Inr s \<Rightarrow> s | Inl _ \<Rightarrow> [])))"

section \<open>The peer filter against a reference\<close>

definition wanted_peer :: "nat \<Rightarrow> peer \<Rightarrow> peer \<Rightarrow> bool" where
  "wanted_peer fam requester p \<longleftrightarrow> p_id p \<noteq> p_id requester
     \<and> \<not> (p_ip p = p_ip requester \<and> p_port p = p_port requester) \<and> family_ok fam p"

text \<open>The first peer of each address and port.\<close>

fun dedup_peers :: "(address \<times> int) set \<Rightarrow> peer list \<Rightarrow> peer list" where
  "dedup_peers seen [] = []"
| "dedup_peers seen (p # ps) =
     (if (p_ip p, p_port p) \<in> seen then dedup_peers seen ps
      else p # dedup_peers (insert (p_ip p, p_port p) seen) ps)"

lemma colon_notin_itoa: "CHR '':'' \<notin> set (itoa n)"
proof -
  have "CHR '':'' \<notin> set (nat_digits k)" for k by (rule nat_digits_no_char) code_simp
  then show ?thesis by (auto simp: itoa_def)
qed

lemma peer_key_string_inj: "peer_key_string p = peer_key_string q \<longleftrightarrow> p_ip p = p_ip q \<and> p_port p = p_port q"
proof
  assume "peer_key_string p = peer_key_string q"
  then have "p_ip p @ CHR '':'' # itoa (p_port p) = p_ip q @ CHR '':'' # itoa (p_port q)"
    by (simp add: peer_key_string_def)
  from split_at_last [OF colon_notin_itoa colon_notin_itoa this]
  show "p_ip p = p_ip q \<and> p_port p = p_port q" by (simp add: itoa_inj)
qed (simp add: peer_key_string_def)

lemma filter_loop_eq:
  assumes "length acc < mx" "\<forall>q. peer_key_string q \<in> set seen \<longleftrightarrow> (p_ip q, p_port q) \<in> S"
  shows "filter_loop fam req mx seen acc ps =
     acc @ take (mx - length acc) (dedup_peers S (filter (wanted_peer fam req) ps))"
  using assms
proof (induction ps arbitrary: acc seen S)
  case (Cons p ps)
  show ?case
  proof (cases "wanted_peer fam req p \<and> peer_key_string p \<notin> set seen")
    case False
    then show ?thesis using Cons by (auto simp: wanted_peer_def)
  next
    case True
    have S': "\<forall>q. peer_key_string q \<in> set (peer_key_string p # seen) \<longleftrightarrow>
        (p_ip q, p_port q) \<in> insert (p_ip p, p_port p) S"
      using Cons.prems(2) by (auto simp: peer_key_string_inj)
    have n: "mx - length acc = Suc (mx - length (acc @ [p]))" using Cons.prems(1) by simp
    have step: "filter_loop fam req mx seen acc (p # ps) =
        (if length acc + 1 \<ge> mx then acc @ [p]
         else filter_loop fam req mx (peer_key_string p # seen) (acc @ [p]) ps)"
      using True by (auto simp: wanted_peer_def Let_def)
    have new: "(p_ip p, p_port p) \<notin> S" using True Cons.prems(2) by blast
    show ?thesis
    proof (cases "length acc + 1 \<ge> mx")
      case full: True
      then have "mx - length (acc @ [p]) = 0" by simp
      with full new True show ?thesis unfolding step n by simp
    next
      case False
      then have "length (acc @ [p]) < mx" by simp
      from Cons.IH [OF this S'] False new True show ?thesis unfolding step n by simp
    qed
  qed
qed simp

lemma filterPeers_eq:
  assumes "numWant \<noteq> 0"
  shows "filterPeers fam peers req numWant =
     take (unat numWant) (dedup_peers {} (filter (wanted_peer fam req) peers))"
proof -
  have "0 < unat numWant" using assms by (simp add: unat_gt_0)
  then show ?thesis
    using assms filter_loop_eq [of "[]" "unat numWant" "[]" "{}" fam req peers]
    by (simp add: filterPeers_def Let_def)
qed

lemma dedup_distinct:
  "distinct (map (\<lambda>p. (p_ip p, p_port p)) (dedup_peers S ps))
   \<and> (\<lambda>p. (p_ip p, p_port p)) ` set (dedup_peers S ps) = (\<lambda>p. (p_ip p, p_port p)) ` set ps - S
   \<and> subseq (dedup_peers S ps) ps"
  by (induction ps arbitrary: S) auto

lemma subseq_set: "subseq xs ys \<Longrightarrow> set xs \<subseteq> set ys"
proof
  fix x assume "subseq xs ys" "x \<in> set xs"
  then show "x \<in> set ys" by (rule list_emb_set) simp
qed

lemma filterPeers_props:
  assumes "numWant \<noteq> 0"
  shows "length (filterPeers fam peers req numWant) \<le> unat numWant"
    "distinct (map (\<lambda>p. (p_ip p, p_port p)) (filterPeers fam peers req numWant))"
    "set (filterPeers fam peers req numWant) \<subseteq> {p \<in> set peers. wanted_peer fam req p}"
proof -
  let ?l = "dedup_peers {} (filter (wanted_peer fam req) peers)"
  show "length (filterPeers fam peers req numWant) \<le> unat numWant"
    by (simp add: filterPeers_eq [OF assms])
  show "distinct (map (\<lambda>p. (p_ip p, p_port p)) (filterPeers fam peers req numWant))"
    using dedup_distinct by (simp add: filterPeers_eq [OF assms] take_map [symmetric] distinct_take)
  have "set ?l \<subseteq> set (filter (wanted_peer fam req) peers)"
    by (rule subseq_set) (use dedup_distinct in blast)
  then show "set (filterPeers fam peers req numWant) \<subseteq> {p \<in> set peers. wanted_peer fam req p}"
    unfolding filterPeers_eq [OF assms] using set_take_subset [of "unat numWant" ?l] by auto
qed

section \<open>Responses\<close>

lemma clampInterval_ge: "cf_announce_interval cfg \<le> clampInterval cfg i"
  by (simp add: clampInterval_def)

lemma finish_response_fields:
  "rs_failure (finish_response fam now rq tk resp) = rs_failure resp"
  "rs_peers (finish_response fam now rq tk resp) =
     filterPeers fam (GetPeers (tk_storage tk) (rq_hash rq) @ fwd_peers now (st_fwd (tk_storage tk)) (rq_hash rq))
       (request_peer rq) (rq_num_want rq)"
  "rs_failure resp = [] \<Longrightarrow> cf_announce_interval (tk_config tk) \<le> rs_interval (finish_response fam now rq tk resp)
     \<and> rs_min_interval (finish_response fam now rq tk resp) = cf_announce_interval (tk_config tk)"
  "rs_failure resp \<noteq> [] \<Longrightarrow> rs_interval resp \<noteq> 0 \<Longrightarrow>
     rs_interval (finish_response fam now rq tk resp) = rs_interval resp
     \<and> rs_min_interval (finish_response fam now rq tk resp) = rs_interval resp"
  by (simp_all add: finish_response_def getPeersForResponse_def Let_def clampInterval_ge split: prod.splits)

lemma finish_response_counts:
  assumes "tally_of (local_requests (tk_storage tk) (rq_hash rq))
      (fwd_peers now (st_fwd (tk_storage tk)) (rq_hash rq)) = (seen, c, i)"
  shows "rs_complete (finish_response fam now rq tk resp) = c"
    "rs_incomplete (finish_response fam now rq tk resp) = i"
  using assms by (simp_all add: finish_response_def getPeersForResponse_def tally_of_def Let_def)

lemma handle_event_failure:
  "rs_failure (snd (handle_event shuffle now rq tk)) \<noteq> [] \<Longrightarrow>
     (rs_failure (snd (handle_event shuffle now rq tk)) = queue_full_reason
       \<and> rs_interval (snd (handle_event shuffle now rq tk)) = cf_announce_interval (tk_config tk))
     \<or> (\<exists>n > 0. rs_failure (snd (handle_event shuffle now rq tk)) = tracker_busy n
       \<and> rs_interval (snd (handle_event shuffle now rq tk)) = n)"
  by (auto simp: handle_event_def handleStoppedEvent_def handleCompletedEvent_def handleRegularAnnounce_def
      handleFirstAnnounce_def handleSubsequentAnnounce_def empty_response_def Let_def
      split: prod.splits option.splits if_splits)

lemma handle_event_config [frame_simps]: "tk_config (fst (handle_event shuffle now rq tk)) = tk_config tk"
  by (auto simp: handle_event_def handleStoppedEvent_def handleCompletedEvent_def handleRegularAnnounce_def
      handleFirstAnnounce_def handleSubsequentAnnounce_def tk_queue_def Let_def
      split: prod.splits option.splits)

section \<open>Effects on the storage\<close>

lemma handle_event_storage:
  "tk_storage (fst (handle_event shuffle now rq tk)) =
     (if rq_event rq = ev_stopped then
        (let st1 = deleteLocked (rq_hash rq) (rq_peer_id rq) (tk_storage tk)
         in if st_inner st1 (rq_hash rq) = []
            then st1\<lparr>st_fwd := map_option (fs_cleanup (rq_hash rq)) (st_fwd st1)\<rparr> else st1)
      else fst (storage_update rq (tk_storage tk)))"
  by (auto simp: handle_event_def handleStoppedEvent_def handleCompletedEvent_def handleRegularAnnounce_def
      handleFirstAnnounce_def handleSubsequentAnnounce_def tk_queue_def Let_def
      split: prod.splits option.splits)

lemma storage_wf_set_fwd: "storage_wf (st\<lparr>st_fwd := x\<rparr>) \<longleftrightarrow> storage_wf st"
  by (simp add: storage_wf_def requests_wf_def sessions_wf_def sessions_match_def st_get_def st_inner_def
      peerContext_def)

lemma storage_wf_event [inv_intros]:
  "storage_wf (tk_storage tk) \<Longrightarrow> storage_wf (tk_storage (fst (handle_event shuffle now rq tk)))"
  by (simp add: handle_event_storage Let_def storage_wf_set_fwd storage_wf_delete storage_wf_update)

lemma st_get_set_fwd [simp]: "st_get (st\<lparr>st_fwd := x\<rparr>) h p = st_get st h p"
  by (simp add: st_get_def st_inner_def)

lemma handle_event_get:
  "st_get (tk_storage (fst (handle_event shuffle now rq tk))) h p =
     (if h = rq_hash rq \<and> p = rq_peer_id rq
      then (if rq_event rq = ev_stopped then None else Some rq)
      else st_get (tk_storage tk) h p)"
  by (simp add: handle_event_storage Let_def st_get_delete st_get_update)

section \<open>Effects on the jobs\<close>

definition mgr_ok :: "announce_job set \<Rightarrow> fmgr \<Rightarrow> bool" where
  "mgr_ok R fm \<longleftrightarrow> jobs_inv fm R \<and> (\<forall>f \<in> set (fm_forwarders fm). getName f \<noteq> [])"

definition tk_wf :: "tracker \<Rightarrow> announce_job set \<Rightarrow> bool" where
  "tk_wf tk R \<longleftrightarrow> storage_wf (tk_storage tk)
     \<and> (case tk_manager tk of None \<Rightarrow> True
        | Some fm \<Rightarrow> mgr_ok R fm \<and> (\<exists>fs. st_fwd (tk_storage tk) = Some fs))"

lemma queueEligible_frame [frame_simps]:
  "fm_forwarders (fst (fst (enqueue_all don h rq ctx limit cs s))) = fm_forwarders (fst s)"
proof (induction cs arbitrary: s)
  case (Cons c cs)
  obtain fm queued where s: "s = (fm, queued)" by (cases s)
  obtain s' b where e: "enqueue don h rq ctx limit c s = (s', b)" by (metis surj_pair)
  have "fm_forwarders (fst s') = fm_forwarders fm"
    using e s by (auto simp: enqueue_def Let_def try_send_def finishJob_def split: if_splits option.splits)
  with Cons s e show ?case by (cases b) auto
qed simp

lemma queueEligible_forwarders [frame_simps]:
  "fm_forwarders (queueEligibleAnnounces shuffle don now h rq ctx fs fm) = fm_forwarders fm"
proof (cases "fm_stopped fm \<or> fm_forwarders fm = []")
  case False
  obtain fm1 limit where al: "announce_limit fm = (fm1, limit)" by force
  obtain fm2 new due where cl: "classify_all now h (rq_peer_id rq) fs 0 (shuffle (fm_forwarders fm)) (fm1, [], [])
      = (fm2, new, due)" by (metis prod_cases3)
  have "fm1 = fm\<lparr>fm_last_throttle_log := fm_last_throttle_log fm1\<rparr>"
    using announce_limit_result(2) [of fm] al by simp
  then have 1: "fm_forwarders fm1 = fm_forwarders fm" using log_only_fields by blast
  from classify_all_result [OF cl] have "susp_only now fm1 fm2" by simp
  then have "fm_forwarders fm2 = fm_forwarders fm1" by (rule susp_only_fields(6))
  then show ?thesis
    using False 1 by (simp add: queueEligible_unfold [where shuffle = shuffle, OF _ _ al cl] frame_simps)
qed (auto simp: queueEligibleAnnounces_def)

lemma jobs_inv_limiter: "jobs_inv (fm\<lparr>fm_limiter := x\<rparr>) R \<longleftrightarrow> jobs_inv fm R"
  and jobs_inv_rate: "jobs_inv (fm\<lparr>fm_rate_limited := n\<rparr>) R \<longleftrightarrow> jobs_inv fm R"
  and jobs_inv_dropped: "jobs_inv (fm\<lparr>fm_dropped_full := n\<rparr>) R \<longleftrightarrow> jobs_inv fm R"
  by (rule jobs_inv_frame; simp)+

lemma mgr_ok_fields [simp]:
  "mgr_ok R (fm\<lparr>fm_limiter := x\<rparr>) = mgr_ok R fm" "mgr_ok R (fm\<lparr>fm_rate_limited := n\<rparr>) = mgr_ok R fm"
  "mgr_ok R (fm\<lparr>fm_dropped_full := n\<rparr>) = mgr_ok R fm"
  by (simp_all add: mgr_ok_def jobs_inv_limiter jobs_inv_rate jobs_inv_dropped)

lemma mgr_ok_queue:
  assumes "mgr_ok R fm" "\<And>l. set (shuffle l) = set l"
  shows "mgr_ok R (queueEligibleAnnounces shuffle don now h rq ctx fs fm)"
  using assms unfolding mgr_ok_def queueEligible_forwarders by (auto intro: jobs_inv_queueEligible)

lemma mgr_ok_cancel: "mgr_ok R fm \<Longrightarrow> mgr_ok R (cancelPendingJobs h p ses fm)"
  unfolding mgr_ok_def by (simp add: jobs_inv_cancel) (simp add: cancelPendingJobs_def)

definition some_mgr :: "(fmgr \<Rightarrow> bool) \<Rightarrow> tracker \<Rightarrow> bool" where
  "some_mgr P tk \<longleftrightarrow> (case tk_manager tk of None \<Rightarrow> True | Some fm \<Rightarrow> P fm)"

lemma mgr_ok_first:
  assumes "some_mgr (mgr_ok R) tk" "\<And>l. set (shuffle l) = set l"
  shows "some_mgr (mgr_ok R) (fst (handleFirstAnnounce shuffle now rq c (tk, resp)))"
proof (cases "tk_manager tk")
  case (Some fm)
  then have ok: "mgr_ok R fm" using assms(1) by (simp add: some_mgr_def)
  obtain tb b where al: "allow now (fm_limiter fm) = (tb, b)" by force
  have q: "mgr_ok R (queueEligibleAnnounces shuffle don now h rq ctx fs fm)"
    "mgr_ok R (queueEligibleAnnounces shuffle don now h rq ctx fs (fm\<lparr>fm_limiter := tb\<rparr>))" for don h ctx fs
    using ok assms(2) by (auto intro!: mgr_ok_queue)
  show ?thesis
    using ok q by (simp add: handleFirstAnnounce_def Some al Let_def some_mgr_def tk_queue_def)
qed (simp add: handleFirstAnnounce_def some_mgr_def Let_def)

lemma mgr_ok_subsequent:
  assumes "some_mgr (mgr_ok R) tk" "\<And>l. set (shuffle l) = set l"
  shows "some_mgr (mgr_ok R) (fst (handleSubsequentAnnounce shuffle now rq c (tk, resp)))"
proof (cases "tk_manager tk")
  case (Some fm)
  then have "mgr_ok R fm" using assms(1) by (simp add: some_mgr_def)
  then show ?thesis
    using assms(2) by (simp add: handleSubsequentAnnounce_def Some Let_def some_mgr_def tk_queue_def mgr_ok_queue)
qed (simp add: handleSubsequentAnnounce_def some_mgr_def Let_def)

lemma mgr_ok_event:
  assumes "some_mgr (mgr_ok R) tk" "\<And>l. set (shuffle l) = set l"
  shows "some_mgr (mgr_ok R) (fst (handle_event shuffle now rq tk))"
proof -
  have "some_mgr (mgr_ok R) (fst (handleRegularAnnounce shuffle now rq (tk, empty_response)))"
  proof -
    obtain st1 c where u: "storage_update rq (tk_storage tk) = (st1, c)" by force
    have "some_mgr (mgr_ok R) (tk\<lparr>tk_storage := st1\<rparr>)" using assms(1) by (simp add: some_mgr_def)
    from mgr_ok_first [OF this assms(2)] mgr_ok_subsequent [OF this assms(2)]
    show ?thesis by (simp add: handleRegularAnnounce_def u Let_def)
  qed
  moreover have "some_mgr (mgr_ok R) (fst (handleCompletedEvent now rq (tk, empty_response)))"
    using assms(1) by (simp add: handleCompletedEvent_def Let_def some_mgr_def)
  moreover have "some_mgr (mgr_ok R) (fst (handleStoppedEvent rq (tk, empty_response)))"
    using assms(1) by (auto simp: handleStoppedEvent_def Let_def some_mgr_def mgr_ok_cancel split: option.splits)
  ultimately show ?thesis by (simp add: handle_event_def)
qed

lemma manager_event:
  "(\<exists>fm. tk_manager (fst (handle_event shuffle now rq tk)) = Some fm) \<longleftrightarrow> (\<exists>fm. tk_manager tk = Some fm)"
  by (cases "tk_manager tk")
     (simp_all add: handle_event_def handleStoppedEvent_def handleCompletedEvent_def handleRegularAnnounce_def
      handleFirstAnnounce_def handleSubsequentAnnounce_def tk_queue_def Let_def split: prod.splits option.splits)

lemma st_fwd_update: "st_fwd (fst (storage_update rq st)) = st_fwd st"
  by (rule update_sessions(6))

lemma tk_wf_event:
  assumes wf: "tk_wf tk R" and sh: "\<And>l. set (shuffle l) = set l"
  shows "tk_wf (fst (handle_event shuffle now rq tk)) R"
proof -
  have st: "storage_wf (tk_storage (fst (handle_event shuffle now rq tk)))"
    using wf by (simp add: tk_wf_def storage_wf_event)
  have fwd: "\<exists>fs. st_fwd (tk_storage tk) = Some fs \<Longrightarrow>
      \<exists>fs. st_fwd (tk_storage (fst (handle_event shuffle now rq tk))) = Some fs"
    using delete_cache [of "tk_storage tk" _ "rq_hash rq" "rq_peer_id rq"]
    by (auto simp: handle_event_storage Let_def st_fwd_update)
  have "some_mgr (mgr_ok R) tk" using wf by (auto simp: tk_wf_def some_mgr_def split: option.splits)
  from mgr_ok_event [OF this sh] have mg: "some_mgr (mgr_ok R) (fst (handle_event shuffle now rq tk))" .
  show ?thesis
  proof (cases "tk_manager (fst (handle_event shuffle now rq tk))")
    case None
    with st show ?thesis by (simp add: tk_wf_def)
  next
    case (Some fm')
    then obtain fm where "tk_manager tk = Some fm" using manager_event by blast
    then have "\<exists>fs. st_fwd (tk_storage tk) = Some fs" using wf by (simp add: tk_wf_def)
    with fwd Some st mg show ?thesis by (simp add: tk_wf_def some_mgr_def)
  qed
qed

end
