(* ===== verification/UdpServer.thy ===== *)
theory UdpServer
  imports Announce
begin

text \<open>
  \<open>internal/server/receiverUDP.go\<close>: the UDP side of the tracker (BEP 15). A datagram is a list of
  bytes; the answer is at most one datagram to the sender. The random connection id is the
  parameter \<open>random\<close>, None when the generator fails. The lock the receiver shares with the core
  and the counters of Prometheus are not modelled.
\<close>

section \<open>Constants and state\<close>

definition udp_action_connect :: u32 where "udp_action_connect = 0"
definition udp_action_announce :: u32 where "udp_action_announce = 1"
definition udp_action_scrape :: u32 where "udp_action_scrape = 2"
definition udp_action_error :: u32 where "udp_action_error = 3"
definition udp_connect_magic :: u64 where "udp_connect_magic = 0x41727101980"

lemmas udp_actions = udp_action_connect_def udp_action_announce_def udp_action_scrape_def udp_action_error_def

type_synonym connections = "(u64, gotime) gomap"

text \<open>\<open>t.UnixNano()\<close> as an unsigned number.\<close>

definition unix_nano :: "gotime \<Rightarrow> u64" where
  "unix_nano t = word_of_int (t - 62135596800 * second)"

definition cleanup_connections :: "gotime \<Rightarrow> connections \<Rightarrow> connections" where
  "cleanup_connections now cs = filter (\<lambda>(cid, t). \<not> time_sub now t > 2 * minute) cs"

section \<open>Sending\<close>

definition sendConnectResponse :: "u32 \<Rightarrow> u32 \<Rightarrow> u64 \<Rightarrow> bytes" where
  "sendConnectResponse action tid cid = put_u32 action @ put_u32 tid @ put_u64 cid"

definition sendError :: "u32 \<Rightarrow> string \<Rightarrow> bytes" where
  "sendError tid message = put_u32 udp_action_error @ put_u32 tid @ message"

definition udp_peer :: "bool \<Rightarrow> peer \<Rightarrow> bytes" where
  "udp_peer isIPv6 p =
     (case (if isIPv6 then address_IPv6 (p_ip p) else address_IPv4 (p_ip p)) of
        None \<Rightarrow> []
      | Some ip \<Rightarrow>
          (let b = (if isIPv6 then ip_to16 ip else ip_to4 ip)
           in if b \<noteq> [] then b @ put_u16 (word_of_int (p_port p)) else []))"

definition sendAnnounceResponse :: "net_ip \<Rightarrow> u32 \<Rightarrow> response \<Rightarrow> bytes" where
  "sendAnnounceResponse clientIP tid resp =
     put_u32 udp_action_announce @ put_u32 tid @ put_u32 (word_of_int (rs_interval resp))
     @ put_u32 (word_of_int (rs_incomplete resp)) @ put_u32 (word_of_int (rs_complete resp))
     @ concat (map (udp_peer (ip_to4 clientIP = [])) (rs_peers resp))"

record udp_scrape_data =
  us_seeders :: u32
  us_completed :: u32
  us_leechers :: u32

definition no_scrape_data :: udp_scrape_data where
  "no_scrape_data = \<lparr>us_seeders = 0, us_completed = 0, us_leechers = 0\<rparr>"

definition scrape_data_bytes :: "udp_scrape_data \<Rightarrow> bytes" where
  "scrape_data_bytes d = put_u32 (us_seeders d) @ put_u32 (us_completed d) @ put_u32 (us_leechers d)"

definition sendScrapeResponse :: "u32 \<Rightarrow> udp_scrape_data list \<Rightarrow> bytes" where
  "sendScrapeResponse tid ds =
     put_u32 udp_action_scrape @ put_u32 tid @ concat (map scrape_data_bytes ds)"

section \<open>Connecting\<close>

definition handleConnect :: "u64 option \<Rightarrow> gotime \<Rightarrow> bytes \<Rightarrow> connections \<Rightarrow> connections \<times> bytes option" where
  "handleConnect random now data cs =
     (if length data < 16 then (cs, None)
      else (let action = get_u32 (bytes_at 8 4 data); tid = get_u32 (bytes_at 12 4 data) in
        if action \<noteq> udp_action_connect then (cs, Some (sendError tid ''Invalid action''))
        else (let cid = (case random of Some r \<Rightarrow> r | None \<Rightarrow> unix_nano now)
              in (gm_put cid now cs, Some (sendConnectResponse udp_action_connect tid cid)))))"

section \<open>Announcing\<close>

record udp_announce_request =
  ua_connection_id :: u64
  ua_action :: u32
  ua_transaction_id :: u32
  ua_info_hash :: bytes
  ua_peer_id :: bytes
  ua_downloaded :: u64
  ua_left :: u64
  ua_uploaded :: u64
  ua_event :: u32
  ua_ip :: u32
  ua_key :: u32
  ua_num_want :: u32
  ua_port :: u16

text \<open>The sequence of \<open>binary.Read\<close>s after the header; None when the data runs short. \<open>NumWant\<close> is an
  \<open>int32\<close>: its value is \<open>sint\<close> of the word.\<close>

definition read_announce :: "u64 \<Rightarrow> u32 \<Rightarrow> u32 \<Rightarrow> bytes \<Rightarrow> udp_announce_request option" where
  "read_announce cid action tid s =
     Option.bind (rd 20 s) (\<lambda>(ih, s). Option.bind (rd 20 s) (\<lambda>(pid, s).
     Option.bind (rd 8 s) (\<lambda>(dn, s). Option.bind (rd 8 s) (\<lambda>(lf, s). Option.bind (rd 8 s) (\<lambda>(up, s).
     Option.bind (rd 4 s) (\<lambda>(ev, s). Option.bind (rd 4 s) (\<lambda>(ip, s). Option.bind (rd 4 s) (\<lambda>(key, s).
     Option.bind (rd 4 s) (\<lambda>(want, s). Option.bind (rd 2 s) (\<lambda>(port, s).
       Some \<lparr>ua_connection_id = cid, ua_action = action, ua_transaction_id = tid, ua_info_hash = ih,
             ua_peer_id = pid, ua_downloaded = get_u64 dn, ua_left = get_u64 lf, ua_uploaded = get_u64 up,
             ua_event = get_u32 ev, ua_ip = get_u32 ip, ua_key = get_u32 key, ua_num_want = get_u32 want,
             ua_port = get_u16 port\<rparr>))))))))))"

definition event_string :: "u32 \<Rightarrow> string" where
  "event_string e = (if e = 1 then ev_completed else if e = 2 then ev_started
     else if e = 3 then ev_stopped else [])"

text \<open>\<open>ProcessAnnounce\<close> of the receiver, on the fields of the packet: the address family of the
  answer's peers is the one of the client's address.\<close>

definition udp_family :: "string \<Rightarrow> nat" where
  "udp_family remote = (if ip_to4 (net_parse_ip remote) \<noteq> [] then 4 else 6)"

definition udp_ProcessAnnounce ::
  "(forward list \<Rightarrow> forward list) \<Rightarrow> gotime \<Rightarrow> net_ip \<Rightarrow> udp_announce_request \<Rightarrow> tracker \<Rightarrow>
   tracker \<times> (request_error + response)" where
  "udp_ProcessAnnounce shuffle now clientIP req tk =
     (let remote = ip_string clientIP;
          ip = (if ua_ip req \<noteq> 0 then ip_string (put_u32 (ua_ip req)) else [])
      in ProcessAnnounce shuffle (udp_family remote) now remote (ua_info_hash req) (ua_peer_id req)
           (itoa (uint (ua_port req))) (nat_digits (unat (ua_uploaded req)))
           (nat_digits (unat (ua_downloaded req))) (nat_digits (unat (ua_left req))) ip
           (itoa (sint (ua_num_want req))) (event_string (ua_event req)) [] [] [] tk)"

definition udp_failure :: "string \<Rightarrow> string" where
  "udp_failure failure = (if failure \<noteq> [] then failure else ''Invalid announce request'')"

definition handleAnnounce ::
  "(request_error \<Rightarrow> string) \<Rightarrow> (forward list \<Rightarrow> forward list) \<Rightarrow> gotime \<Rightarrow> bytes \<Rightarrow> net_ip \<Rightarrow> tracker \<Rightarrow>
   tracker \<times> bytes option" where
  "handleAnnounce err_text shuffle now data clientIP tk =
     (if length data < 20 then
        (tk, Some (sendError (if length data \<ge> 16 then get_u32 (bytes_at 12 4 data) else 0)
               ''Announce request too short''))
      else (let cid = get_u64 (bytes_at 0 8 data); action = get_u32 (bytes_at 8 4 data);
                tid = get_u32 (bytes_at 12 4 data) in
        if action \<noteq> udp_action_announce then (tk, Some (sendError tid ''Invalid action''))
        else case read_announce cid action tid (drop 16 data) of
          None \<Rightarrow> (tk, None)
        | Some req \<Rightarrow>
            (case udp_ProcessAnnounce shuffle now clientIP req tk of
               (tk', Inl e) \<Rightarrow> (tk', Some (sendError tid (udp_failure (err_text e))))
             | (tk', Inr resp) \<Rightarrow>
                 (tk', Some (if rs_failure resp \<noteq> [] then sendError tid (rs_failure resp)
                             else sendAnnounceResponse clientIP tid resp)))))"

section \<open>Scraping\<close>

definition scrape_datum :: "(info_hash, scrape_stats) gomap \<Rightarrow> info_hash \<Rightarrow> udp_scrape_data" where
  "scrape_datum stats h =
     (if \<not> info_hash_valid h then no_scrape_data
      else case gm_get stats h of
             None \<Rightarrow> no_scrape_data
           | Some s \<Rightarrow> \<lparr>us_seeders = word_of_int (sc_complete s), us_completed = word_of_int (sc_downloaded s),
                         us_leechers = word_of_int (sc_incomplete s)\<rparr>)"

definition handleScrape :: "gotime \<Rightarrow> bytes \<Rightarrow> tracker \<Rightarrow> bytes option" where
  "handleScrape now data tk =
     (if length data < 16 then Some (sendError 0 ''Scrape request too short'')
      else (let action = get_u32 (bytes_at 8 4 data); tid = get_u32 (bytes_at 12 4 data) in
        if action \<noteq> udp_action_scrape then Some (sendError tid ''Invalid action'')
        else (let infoHashes = chunks 20 (drop 16 data);
                  stats = getScrapeStats now (tk_storage tk) (st_fwd (tk_storage tk))
                    (filter info_hash_valid infoHashes)
              in Some (sendScrapeResponse tid (map (scrape_datum stats) infoHashes)))))"

section \<open>Dispatch\<close>

record udp_server =
  sv_connections :: connections
  sv_tracker :: tracker

definition handlePacket ::
  "(request_error \<Rightarrow> string) \<Rightarrow> (forward list \<Rightarrow> forward list) \<Rightarrow> u64 option \<Rightarrow> gotime \<Rightarrow> bytes \<Rightarrow> net_ip \<Rightarrow>
   udp_server \<Rightarrow> udp_server \<times> bytes option" where
  "handlePacket err_text shuffle random now data clientIP sv =
     (if length data < 8 then (sv, None)
      else if get_u64 (bytes_at 0 8 data) = udp_connect_magic then
        (case handleConnect random now data (sv_connections sv) of
           (cs, reply) \<Rightarrow> (sv\<lparr>sv_connections := cs\<rparr>, reply))
      else (let tid = (if length data < 16 then 0 else get_u32 (bytes_at 12 4 data)) in
        if \<not> gm_mem (get_u64 (bytes_at 0 8 data)) (sv_connections sv)
        then (sv, Some (sendError tid ''Invalid connection ID''))
        else if length data < 12 then (sv, Some (sendError tid ''Invalid packet format''))
        else (let action = get_u32 (bytes_at 8 4 data) in
          if action = udp_action_announce then
            (case handleAnnounce err_text shuffle now data clientIP (sv_tracker sv) of
               (tk, reply) \<Rightarrow> (sv\<lparr>sv_tracker := tk\<rparr>, reply))
          else if action = udp_action_scrape then (sv, handleScrape now data (sv_tracker sv))
          else (sv, Some (sendError tid ''Unknown action'')))))"

text \<open>One round of \<open>handlePackets\<close>: a datagram is cut to the buffer and dropped below 16 bytes.\<close>

definition handlePackets ::
  "(request_error \<Rightarrow> string) \<Rightarrow> (forward list \<Rightarrow> forward list) \<Rightarrow> u64 option \<Rightarrow> gotime \<Rightarrow> bytes \<Rightarrow> net_ip \<Rightarrow>
   udp_server \<Rightarrow> udp_server \<times> bytes option" where
  "handlePackets err_text shuffle random now datagram clientIP sv =
     (let data = take 4096 datagram
      in if length data < 16 then (sv, None)
         else handlePacket err_text shuffle random now data clientIP sv)"

section \<open>Fields of a datagram\<close>

lemma bytes_at_0: "length a = n \<Longrightarrow> bytes_at 0 n (a @ b) = a"
  by (simp add: bytes_at_def)

lemma bytes_at_skip: "length a \<le> i \<Longrightarrow> bytes_at i n (a @ b) = bytes_at (i - length a) n b"
  by (simp add: bytes_at_def)

lemma bytes_at_all: "length a = n \<Longrightarrow> bytes_at 0 n a = a"
  by (simp add: bytes_at_def)

lemmas field_simps_bytes = bytes_at_0 bytes_at_all bytes_at_skip

definition reply_action :: "bytes \<Rightarrow> u32" where "reply_action d = get_u32 (bytes_at 0 4 d)"
definition reply_tid :: "bytes \<Rightarrow> u32" where "reply_tid d = get_u32 (bytes_at 4 4 d)"
definition packet_tid :: "bytes \<Rightarrow> u32" where "packet_tid d = get_u32 (bytes_at 12 4 d)"
definition packet_action :: "bytes \<Rightarrow> u32" where "packet_action d = get_u32 (bytes_at 8 4 d)"

lemma reply_fields:
  "reply_action (sendError tid m) = udp_action_error" "reply_tid (sendError tid m) = tid"
  "reply_action (sendConnectResponse a tid cid) = a" "reply_tid (sendConnectResponse a tid cid) = tid"
  "reply_action (sendAnnounceResponse ip tid resp) = udp_action_announce"
  "reply_tid (sendAnnounceResponse ip tid resp) = tid"
  "reply_action (sendScrapeResponse tid ds) = udp_action_scrape" "reply_tid (sendScrapeResponse tid ds) = tid"
  by (simp_all add: reply_action_def reply_tid_def sendError_def sendConnectResponse_def
      sendAnnounceResponse_def sendScrapeResponse_def field_simps_bytes)

section \<open>Every answer is for its request\<close>

lemma announce_reply:
  assumes "handleAnnounce err_text shuffle now data ip tk = (tk', Some d)" "length data \<ge> 16"
  shows "reply_tid d = packet_tid data \<and> reply_action d \<in> {udp_action_announce, udp_action_error}"
  using assms
  by (auto simp: handleAnnounce_def Let_def packet_tid_def reply_fields
      split: if_splits option.splits prod.splits sum.splits)

lemma scrape_reply:
  assumes "handleScrape now data tk = Some d" "length data \<ge> 16"
  shows "reply_tid d = packet_tid data \<and> reply_action d \<in> {udp_action_scrape, udp_action_error}"
  using assms by (auto simp: handleScrape_def Let_def packet_tid_def reply_fields split: if_splits)

lemma connect_reply:
  assumes "handleConnect random now data cs = (cs', Some d)"
  shows "reply_tid d = packet_tid data \<and> reply_action d \<in> {packet_action data, udp_action_error}"
  using assms
  by (auto simp: handleConnect_def Let_def packet_tid_def packet_action_def reply_fields split: if_splits)

lemma packet_reply:
  assumes "handlePacket err_text shuffle random now data ip sv = (sv', Some d)" "length data \<ge> 16"
  shows "reply_tid d = packet_tid data \<and> reply_action d \<in> {packet_action data, udp_action_error}"
proof -
  consider (connect) cs' where "handleConnect random now data (sv_connections sv) = (cs', Some d)"
    | (announce) tk' where "handleAnnounce err_text shuffle now data ip (sv_tracker sv) = (tk', Some d)"
        "packet_action data = udp_action_announce"
    | (scrape) "handleScrape now data (sv_tracker sv) = Some d" "packet_action data = udp_action_scrape"
    | (error) m where "d = sendError (packet_tid data) m"
    using assms
    by (auto simp: handlePacket_def Let_def packet_tid_def packet_action_def
        split: if_splits prod.splits)
  then show ?thesis
  proof cases
    case connect
    then show ?thesis by (rule connect_reply)
  qed (use announce_reply scrape_reply assms(2) in \<open>auto simp: reply_fields\<close>)
qed

section \<open>Connection ids\<close>

lemma unknown_id:
  assumes "length data \<ge> 16" "get_u64 (bytes_at 0 8 data) \<noteq> udp_connect_magic"
    and "gm_get (sv_connections sv) (get_u64 (bytes_at 0 8 data)) = None"
  shows "handlePacket err_text shuffle random now data ip sv =
     (sv, Some (sendError (packet_tid data) ''Invalid connection ID''))"
  using assms by (simp add: handlePacket_def Let_def packet_tid_def)

lemma connect_packet:
  assumes "length data \<ge> 16" "get_u64 (bytes_at 0 8 data) = udp_connect_magic"
    and "packet_action data = udp_action_connect"
  shows "handlePacket err_text shuffle (Some cid) now data ip sv =
     (sv\<lparr>sv_connections := gm_put cid now (sv_connections sv)\<rparr>,
      Some (sendConnectResponse udp_action_connect (packet_tid data) cid))"
  using assms by (simp add: handlePacket_def handleConnect_def Let_def packet_tid_def packet_action_def)

lemma gm_wf_connections:
  "gm_wf (sv_connections sv) \<Longrightarrow>
     gm_wf (sv_connections (fst (handlePacket err_text shuffle random now data ip sv)))"
  by (auto simp: handlePacket_def handleConnect_def Let_def split: prod.splits)

text \<open>A clean-up forgets exactly the ids that were issued more than two minutes ago.\<close>

lemma cleanup_get:
  "gm_wf cs \<Longrightarrow> gm_get (cleanup_connections now cs) cid =
     (case gm_get cs cid of Some t \<Rightarrow> if now \<le> t + 2 * minute then Some t else None | None \<Rightarrow> None)"
proof -
  have m: "time_sub now t > 2 * minute \<longleftrightarrow> t + 2 * minute < now" for t
    by (rule time_sub_less_iff) (simp_all add: minute_def max_duration_def min_duration_def)
  show "gm_wf cs \<Longrightarrow> ?thesis"
    by (simp add: cleanup_connections_def gm_get_filter m not_less split: option.splits)
qed

section \<open>Scrape answers\<close>

lemma scrape_datum_stats:
  "h \<in> set hs \<Longrightarrow> length h = 20 \<Longrightarrow>
     scrape_datum (getScrapeStats now st fs (filter info_hash_valid hs)) h =
       (let s = scrape_one now st fs h
        in \<lparr>us_seeders = word_of_int (sc_complete s), us_completed = word_of_int (sc_downloaded s),
            us_leechers = word_of_int (sc_incomplete s)\<rparr>)"
  by (simp add: scrape_datum_def getScrapeStats_get info_hash_valid_def Let_def)

lemma scrape_bytes_length [simp]: "length (scrape_data_bytes d) = 12"
  by (simp add: scrape_data_bytes_def)

end
