(* ===== verification/Routable.thy ===== *)
theory Routable
  imports Forwards Protocol
begin

text \<open>
  Which peers of a tracker response are kept (\<open>internal/server/forwarderAnnounce.go\<close>,
  \<open>isRoutablePeerAddress\<close> and \<open>filterRoutableForwarderPeers\<close>), over the predicates of
  \<open>net/netip\<close>. Those predicates look through an IPv4-mapped IPv6 address; a prefix never
  contains an address of the other length or with a zone.
\<close>

section \<open>Predicates of net/netip\<close>

fun netip_is4 :: "netip_addr \<Rightarrow> bool" where
  "netip_is4 (Addr4 b) = True" | "netip_is4 (Addr6 b z) = False"

fun netip_is6 :: "netip_addr \<Rightarrow> bool" where
  "netip_is6 (Addr4 b) = False" | "netip_is6 (Addr6 b z) = True"

fun netip_unmap :: "netip_addr \<Rightarrow> netip_addr" where
  "netip_unmap (Addr4 b) = Addr4 b"
| "netip_unmap (Addr6 b z) =
     (if take 12 b = v4_in_v6_prefix then Addr4 (drop 12 b) else Addr6 b z)"

definition octet :: "bytes \<Rightarrow> nat \<Rightarrow> nat" where
  "octet b i = byte_val (b ! i)"

fun netip_unspecified :: "netip_addr \<Rightarrow> bool" where
  "netip_unspecified (Addr4 b) = (b = replicate 4 (byte 0))"
| "netip_unspecified (Addr6 b z) = (b = replicate 16 (byte 0) \<and> z = [])"

fun loopback_raw :: "netip_addr \<Rightarrow> bool" where
  "loopback_raw (Addr4 b) = (octet b 0 = 127)"
| "loopback_raw (Addr6 b z) = (b = replicate 15 (byte 0) @ [byte 1])"

fun multicast_raw :: "netip_addr \<Rightarrow> bool" where
  "multicast_raw (Addr4 b) = (octet b 0 div 16 = 14)"
| "multicast_raw (Addr6 b z) = (octet b 0 = 255)"

fun link_local_unicast_raw :: "netip_addr \<Rightarrow> bool" where
  "link_local_unicast_raw (Addr4 b) = (octet b 0 = 169 \<and> octet b 1 = 254)"
| "link_local_unicast_raw (Addr6 b z) = (octet b 0 = 254 \<and> octet b 1 div 64 = 2)"

fun link_local_multicast_raw :: "netip_addr \<Rightarrow> bool" where
  "link_local_multicast_raw (Addr4 b) = (octet b 0 = 224 \<and> octet b 1 = 0 \<and> octet b 2 = 0)"
| "link_local_multicast_raw (Addr6 b z) = (octet b 0 = 255 \<and> octet b 1 mod 16 = 2)"

fun private_raw :: "netip_addr \<Rightarrow> bool" where
  "private_raw (Addr4 b) = (octet b 0 = 10 \<or> (octet b 0 = 172 \<and> octet b 1 div 16 = 1)
     \<or> (octet b 0 = 192 \<and> octet b 1 = 168))"
| "private_raw (Addr6 b z) = (octet b 0 div 2 = 126)"

definition special_address :: "netip_addr \<Rightarrow> bool" where
  "special_address a \<longleftrightarrow>
     netip_unspecified a
     \<or> loopback_raw (netip_unmap a) \<or> multicast_raw (netip_unmap a)
     \<or> link_local_unicast_raw (netip_unmap a) \<or> link_local_multicast_raw (netip_unmap a)
     \<or> private_raw (netip_unmap a)"

datatype net_prefix = Prefix netip_addr nat

fun prefix_contains :: "net_prefix \<Rightarrow> netip_addr \<Rightarrow> bool" where
  "prefix_contains (Prefix (Addr4 p) n) (Addr4 b) =
     (be_dec b div 2 ^ (32 - n) = be_dec p div 2 ^ (32 - n))"
| "prefix_contains (Prefix (Addr6 p z) n) (Addr6 b z') =
     (z' = [] \<and> be_dec b div 2 ^ (128 - n) = be_dec p div 2 ^ (128 - n))"
| "prefix_contains _ _ = False"

section \<open>The filter\<close>

definition cgnatPrefix :: net_prefix where
  "cgnatPrefix = Prefix (Addr4 [byte 100, byte 64, byte 0, byte 0]) 10"
definition docV4Prefix1 :: net_prefix where
  "docV4Prefix1 = Prefix (Addr4 [byte 192, byte 0, byte 2, byte 0]) 24"
definition docV4Prefix2 :: net_prefix where
  "docV4Prefix2 = Prefix (Addr4 [byte 198, byte 51, byte 100, byte 0]) 24"
definition docV4Prefix3 :: net_prefix where
  "docV4Prefix3 = Prefix (Addr4 [byte 203, byte 0, byte 113, byte 0]) 24"
definition benchmarkV4Net :: net_prefix where
  "benchmarkV4Net = Prefix (Addr4 [byte 198, byte 18, byte 0, byte 0]) 15"
definition docV6Prefix :: net_prefix where
  "docV6Prefix =
     Prefix (Addr6 ([byte 0x20, byte 0x01, byte 0x0d, byte 0xb8] @ replicate 12 (byte 0)) []) 32"

definition isRoutablePeerAddress :: "address \<Rightarrow> bool" where
  "isRoutablePeerAddress s =
     (case netip_parse_addr s of
        None \<Rightarrow> False
      | Some a \<Rightarrow>
          if special_address a then False
          else if netip_is4 a
            \<and> (prefix_contains cgnatPrefix a \<or> prefix_contains docV4Prefix1 a
               \<or> prefix_contains docV4Prefix2 a \<or> prefix_contains docV4Prefix3 a
               \<or> prefix_contains benchmarkV4Net a) then False
          else if (case a of Addr4 b \<Rightarrow> octet b 0 = 0 \<or> octet b 0 \<ge> 240 | Addr6 _ _ \<Rightarrow> False)
            then False
          else if netip_is6 a \<and> prefix_contains docV6Prefix a then False
          else True)"

definition filterRoutableForwarderPeers :: "peer list \<Rightarrow> peer list \<times> nat" where
  "filterRoutableForwarderPeers peers =
     (if peers = [] then (peers, 0)
      else fold (\<lambda>p (filtered, dropped).
             if isRoutablePeerAddress (p_ip p) then (filtered @ [p], dropped)
             else (filtered, dropped + 1)) peers ([], 0))"

lemma filter_routable_fold:
  "fold (\<lambda>p (filtered, dropped).
      if isRoutablePeerAddress (p_ip p) then (filtered @ [p], dropped)
      else (filtered, dropped + 1)) peers (acc, k) =
   (acc @ filter (\<lambda>p. isRoutablePeerAddress (p_ip p)) peers,
    k + length (filter (\<lambda>p. \<not> isRoutablePeerAddress (p_ip p)) peers))"
  by (induction peers arbitrary: acc k) auto

lemma filterRoutableForwarderPeers_eq:
  "filterRoutableForwarderPeers peers =
     (filter (\<lambda>p. isRoutablePeerAddress (p_ip p)) peers,
      length (filter (\<lambda>p. \<not> isRoutablePeerAddress (p_ip p)) peers))"
  by (simp add: filterRoutableForwarderPeers_def filter_routable_fold)

lemma filterRoutable_count:
  "filterRoutableForwarderPeers peers = (kept, dropped) \<Longrightarrow> length kept + dropped = length peers"
  by (auto simp: filterRoutableForwarderPeers_eq sum_length_filter_compl)

section \<open>The IPv4 filter as a table of address blocks\<close>

definition unroutable_blocks :: "(nat \<times> nat) list" where
  "unroutable_blocks =
     [(0x00000000, 8), (0x0A000000, 8), (0x64400000, 10), (0x7F000000, 8), (0xA9FE0000, 16),
      (0xAC100000, 12), (0xC0000200, 24), (0xC0A80000, 16), (0xC6120000, 15), (0xC6336400, 24),
      (0xCB007100, 24), (0xE0000000, 4), (0xF0000000, 4)]"

definition routable_v4 :: "nat \<Rightarrow> bool" where
  "routable_v4 a \<longleftrightarrow> \<not> list_ex (\<lambda>(base, len). in_block base len a) unroutable_blocks"

lemma be_dec4_div28: "be_dec [a, b, c, d] div 268435456 = byte_val a div 16"
proof -
  have "be_dec [a, b, c, d] div 268435456 = be_dec [a, b, c, d] div 16777216 div 16"
    by (simp add: div_mult2_eq [symmetric])
  then show ?thesis by (simp add: be_dec4_div)
qed

text \<open>Two octets as one number.\<close>

lemma place_value_eq:
  assumes "m < b" "l < (b :: nat)"
  shows "n * b + m = k * b + l \<longleftrightarrow> n = k \<and> m = l"
proof -
  have "(n * b + m) div b = n" "(n * b + m) mod b = m" "(k * b + l) div b = k" "(k * b + l) mod b = l"
    using assms by auto
  then show ?thesis by metis
qed

lemma octet_blocks:
  assumes "m < (256 :: nat)"
  shows "n * 256 + m = 43518 \<longleftrightarrow> n = 169 \<and> m = 254"
    and "n * 256 + m = 49320 \<longleftrightarrow> n = 192 \<and> m = 168"
    and "(n * 256 + m) div 16 = 2753 \<longleftrightarrow> n = 172 \<and> m div 16 = 1"
proof -
  show "n * 256 + m = 43518 \<longleftrightarrow> n = 169 \<and> m = 254" "n * 256 + m = 49320 \<longleftrightarrow> n = 192 \<and> m = 168"
    using place_value_eq [OF assms, of 254 n 169] place_value_eq [OF assms, of 168 n 192] by simp_all
  have "(n * 256 + m) div 16 = n * 16 + m div 16" by simp
  moreover have "m div 16 < 16" using assms by auto
  ultimately show "(n * 256 + m) div 16 = 2753 \<longleftrightarrow> n = 172 \<and> m div 16 = 1"
    using place_value_eq [of "m div 16" 16 1 n 172] by simp
qed

lemma list_ex_table: "list_ex P [] = False" "list_ex P (x # xs) \<longleftrightarrow> P x \<or> list_ex P xs"
  by simp_all

lemma octet_block:
  "in_block 0 8 (be_dec [x, y, z, w]) \<longleftrightarrow> byte_val x = 0"
  "in_block 0x0A000000 8 (be_dec [x, y, z, w]) \<longleftrightarrow> byte_val x = 10"
  "in_block 0x7F000000 8 (be_dec [x, y, z, w]) \<longleftrightarrow> byte_val x = 127"
  "in_block 0xA9FE0000 16 (be_dec [x, y, z, w]) \<longleftrightarrow> byte_val x = 169 \<and> byte_val y = 254"
  "in_block 0xC0A80000 16 (be_dec [x, y, z, w]) \<longleftrightarrow> byte_val x = 192 \<and> byte_val y = 168"
  "in_block 0xAC100000 12 (be_dec [x, y, z, w]) \<longleftrightarrow> byte_val x = 172 \<and> byte_val y div 16 = 1"
  "in_block 0xE0000000 4 (be_dec [x, y, z, w]) \<longleftrightarrow> byte_val x div 16 = 14"
  "in_block 0xF0000000 4 (be_dec [x, y, z, w]) \<longleftrightarrow> byte_val x div 16 = 15"
  by (simp_all add: in_block_def be_dec4_div be_dec4_div28 octet_blocks)

lemma isRoutable_v4:
  assumes "length b = 4"
  shows "isRoutablePeerAddress (v4_string b) \<longleftrightarrow> routable_v4 (be_dec b)"
proof -
  obtain x y z w where b: "b = [x, y, z, w]" using assms by (rule length4E)
  have lt: "byte_val x < 256" "byte_val y < 256" by simp_all
  have hi: "240 \<le> byte_val x \<longleftrightarrow> byte_val x div 16 = 15" using lt(1) by (auto intro!: div_nat_eqI)
  have blocks: "routable_v4 (be_dec [x, y, z, w]) \<longleftrightarrow>
      \<not> (byte_val x = 0 \<or> byte_val x = 10 \<or> in_block 0x64400000 10 (be_dec [x, y, z, w]) \<or> byte_val x = 127
       \<or> (byte_val x = 169 \<and> byte_val y = 254) \<or> (byte_val x = 172 \<and> byte_val y div 16 = 1)
       \<or> in_block 0xC0000200 24 (be_dec [x, y, z, w]) \<or> (byte_val x = 192 \<and> byte_val y = 168)
       \<or> in_block 0xC6120000 15 (be_dec [x, y, z, w]) \<or> in_block 0xC6336400 24 (be_dec [x, y, z, w])
       \<or> in_block 0xCB007100 24 (be_dec [x, y, z, w]) \<or> byte_val x div 16 = 14 \<or> byte_val x div 16 = 15)"
    unfolding routable_v4_def unroutable_blocks_def
    by (simp only: list_ex_table prod.case octet_block simp_thms disj_assoc)
  have zero: "b = replicate 4 (byte 0) \<Longrightarrow> byte_val x = 0" 
  proof -
    assume "b = replicate 4 (byte 0)"
    also have "\<dots> = [byte 0, byte 0, byte 0, byte 0]" by code_simp
    finally show ?thesis by (simp add: b byte_def)
  qed
  have mc: "byte_val x = 224 \<Longrightarrow> byte_val x div 16 = 14" by simp
  have pre: "be_dec [byte 100, byte 64, byte 0, byte 0] = 0x64400000"
    "be_dec [byte 192, byte 0, byte 2, byte 0] = 0xC0000200"
    "be_dec [byte 198, byte 51, byte 100, byte 0] = 0xC6336400"
    "be_dec [byte 203, byte 0, byte 113, byte 0] = 0xCB007100"
    "be_dec [byte 198, byte 18, byte 0, byte 0] = 0xC6120000"
    by (simp_all add: be_dec4 byte_def)
  have code: "isRoutablePeerAddress (v4_string b) \<longleftrightarrow>
      \<not> special_address (Addr4 b)
      \<and> \<not> (in_block 0x64400000 10 (be_dec b) \<or> in_block 0xC0000200 24 (be_dec b)
           \<or> in_block 0xC6336400 24 (be_dec b) \<or> in_block 0xCB007100 24 (be_dec b)
           \<or> in_block 0xC6120000 15 (be_dec b))
      \<and> \<not> (octet b 0 = 0 \<or> octet b 0 \<ge> 240)"
    using assms
    by (auto simp: isRoutablePeerAddress_def netip_parse_v4_string cgnatPrefix_def docV4Prefix1_def
        docV4Prefix2_def docV4Prefix3_def benchmarkV4Net_def pre in_block_def)
  have special: "special_address (Addr4 b) \<longleftrightarrow> b = replicate 4 (byte 0) \<or> byte_val x = 127
      \<or> byte_val x div 16 = 14 \<or> (byte_val x = 169 \<and> byte_val y = 254)
      \<or> (byte_val x = 224 \<and> byte_val y = 0 \<and> byte_val z = 0)
      \<or> byte_val x = 10 \<or> (byte_val x = 172 \<and> byte_val y div 16 = 1) \<or> (byte_val x = 192 \<and> byte_val y = 168)"
    by (simp add: special_address_def octet_def b del: of_char_eq_iff)
  show ?thesis
    unfolding code special unfolding b blocks octet_def nth_Cons_0 hi
    using zero [unfolded b] mc by blast
qed

text \<open>The mapped form of an address passes the blocks that the code tests on \<open>Is4\<close> addresses
  only.\<close>

lemma isRoutable_mapped_cgnat:
  "isRoutablePeerAddress ''::ffff:100.64.0.1'' \<and> \<not> isRoutablePeerAddress ''100.64.0.1''
   \<and> isRoutablePeerAddress ''2001:db8::1%eth0'' \<and> \<not> isRoutablePeerAddress ''2001:db8::1''"
  by code_simp

end
