(* ===== verification/UrlQuery.thy ===== *)
theory UrlQuery
  imports GoUrl
begin

text \<open>
  Query strings of \<open>net/url\<close>: \<open>QueryEscape\<close>, \<open>QueryUnescape\<close>, \<open>ParseQuery\<close> and the operations of
  \<open>url.Values\<close>. The announce of a forwarder is written with them and an announce of a client is
  read with them.
\<close>

type_synonym url_values = "(string, string list) gomap"

definition unreserved :: "char \<Rightarrow> bool" where
  "unreserved c \<longleftrightarrow> is_alnum c \<or> c \<in> set ''-_.~''"

definition upper_hex :: "nat \<Rightarrow> char" where
  "upper_hex d = (if d < 10 then char_of (48 + d) else char_of (55 + d))"

definition escape_char :: "char \<Rightarrow> string" where
  "escape_char c =
     (if unreserved c then [c]
      else if c = CHR '' '' then ''+''
      else [CHR ''%'', upper_hex (byte_val c div 16), upper_hex (byte_val c mod 16)])"

definition query_escape :: "string \<Rightarrow> string" where
  "query_escape s = concat (map escape_char s)"

function query_unescape :: "string \<Rightarrow> string option" where
  "query_unescape [] = Some []"
| "query_unescape (c # s) =
     (if c = CHR ''%'' then
        (case s of
           a # b # t \<Rightarrow>
             (case (hex_val a, hex_val b) of
                (Some x, Some y) \<Rightarrow> map_option (\<lambda>r. char_of (16 * x + y) # r) (query_unescape t)
              | _ \<Rightarrow> None)
         | _ \<Rightarrow> None)
      else if c = CHR ''+'' then map_option (\<lambda>r. CHR '' '' # r) (query_unescape s)
      else map_option (\<lambda>r. c # r) (query_unescape s))"
  by pat_completeness auto
termination by (relation "measure length") auto

text \<open>One segment of a query; a segment that cannot be decoded is skipped.\<close>

definition parse_segment :: "string \<Rightarrow> (string \<times> string) option" where
  "parse_segment seg =
     (if CHR '';'' \<in> set seg then None
      else if seg = [] then None
      else (let (k, v) = (case cut_first (CHR ''='') seg of None \<Rightarrow> (seg, []) | Some r \<Rightarrow> r)
            in case (query_unescape k, query_unescape v) of
                 (Some k', Some v') \<Rightarrow> Some (k', v') | _ \<Rightarrow> None))"

definition values_add :: "string \<Rightarrow> string \<Rightarrow> url_values \<Rightarrow> url_values" where
  "values_add k v m = gm_put k (gm_get_or [] m k @ [v]) m"

definition parse_query :: "string \<Rightarrow> url_values" where
  "parse_query q = fold (\<lambda>seg m. case parse_segment seg of None \<Rightarrow> m | Some (k, v) \<Rightarrow> values_add k v m)
     (split_on (CHR ''&'') q) []"

definition values_get :: "url_values \<Rightarrow> string \<Rightarrow> string" where
  "values_get m k = (case gm_get m k of Some (v # vs) \<Rightarrow> v | _ \<Rightarrow> [])"

definition values_set :: "string \<Rightarrow> string \<Rightarrow> url_values \<Rightarrow> url_values" where
  "values_set k v m = gm_put k [v] m"

definition values_del :: "string \<Rightarrow> url_values \<Rightarrow> url_values" where
  "values_del k m = gm_del k m"

definition encode_pair :: "string \<times> string \<Rightarrow> string" where
  "encode_pair = (\<lambda>(k, v). query_escape k @ CHR ''='' # query_escape v)"

definition values_pairs :: "url_values \<Rightarrow> (string \<times> string) list" where
  "values_pairs m = [(k, v). k \<leftarrow> sort (map fst m), v \<leftarrow> gm_get_or [] m k]"

definition values_encode :: "url_values \<Rightarrow> string" where
  "values_encode m = join_with ''&'' (map encode_pair (values_pairs m))"

section \<open>Round trip\<close>

lemma hex_val_upper: "d < 16 \<Longrightarrow> hex_val (upper_hex d) = Some d"
proof -
  assume "d < 16"
  then have "d \<in> set [0..<16]" by simp
  moreover have "list_all (\<lambda>d. hex_val (upper_hex d) = Some d) [0..<16]" by code_simp
  ultimately show ?thesis by (simp only: list_all_iff)
qed

lemma unreserved_plain: "unreserved c \<Longrightarrow> c \<noteq> CHR ''%'' \<and> c \<noteq> CHR ''+'' \<and> c \<noteq> CHR ''&''
    \<and> c \<noteq> CHR '';'' \<and> c \<noteq> CHR ''=''"
proof -
  have "\<not> unreserved (CHR ''%'')" "\<not> unreserved (CHR ''+'')" "\<not> unreserved (CHR ''&'')"
    "\<not> unreserved (CHR '';'')" "\<not> unreserved (CHR ''='')" by code_simp+
  then show "unreserved c \<Longrightarrow> ?thesis" by auto
qed

lemma unescape_escape_char: "query_unescape (escape_char c @ s) = map_option (\<lambda>r. c # r) (query_unescape s)"
proof -
  have "byte_val c div 16 < 16" by (rule less_mult_imp_div_less) simp
  then have h: "hex_val (upper_hex (byte_val c div 16)) = Some (byte_val c div 16)"
    "hex_val (upper_hex (byte_val c mod 16)) = Some (byte_val c mod 16)"
    by (simp_all add: hex_val_upper)
  have "char_of (16 * (byte_val c div 16) + byte_val c mod 16) = c" by simp
  then show ?thesis
    using h unreserved_plain [of c] by (auto simp: escape_char_def)
qed

lemma unescape_escape: "query_unescape (query_escape s) = Some s"
  by (induction s) (simp_all add: query_escape_def unescape_escape_char)

text \<open>The separators of a query never occur in an escaped string.\<close>

lemma upper_hex_plain: "d < 16 \<Longrightarrow> upper_hex d \<notin> {CHR ''&'', CHR '';'', CHR ''=''}"
proof -
  assume "d < 16"
  then have "d \<in> set [0..<16]" by simp
  moreover have "list_all (\<lambda>d. upper_hex d \<notin> {CHR ''&'', CHR '';'', CHR ''=''}) [0..<16]" by code_simp
  then have "\<forall>d \<in> set [0..<16]. upper_hex d \<notin> {CHR ''&'', CHR '';'', CHR ''=''}"
    unfolding list_all_iff .
  ultimately show ?thesis by (rule bspec [rotated])
qed

lemma escape_plain: "set (query_escape s) \<inter> {CHR ''&'', CHR '';'', CHR ''=''} = {}"
proof -
  have "set (escape_char c) \<inter> {CHR ''&'', CHR '';'', CHR ''=''} = {}" for c
  proof -
    have "byte_val c div 16 < 16" by (rule less_mult_imp_div_less) simp
    then show ?thesis
      using unreserved_plain [of c] upper_hex_plain [of "byte_val c div 16"] upper_hex_plain [of "byte_val c mod 16"]
      by (auto simp: escape_char_def)
  qed
  then show ?thesis by (auto simp: query_escape_def)
qed

lemma parse_encode_pair: "parse_segment (encode_pair (k, v)) = Some (k, v)"
proof -
  have "CHR '';'' \<notin> set (encode_pair (k, v))" "encode_pair (k, v) \<noteq> []"
    using escape_plain [of k] escape_plain [of v] by (auto simp: encode_pair_def)
  moreover have "cut_first (CHR ''='') (encode_pair (k, v)) = Some (query_escape k, query_escape v)"
    using escape_plain [of k] by (simp add: encode_pair_def cut_first_append)
  ultimately show ?thesis by (simp add: parse_segment_def unescape_escape)
qed

lemma split_join: "segs \<noteq> [] \<Longrightarrow> \<forall>s \<in> set segs. c \<notin> set s \<Longrightarrow> split_on c (join_with [c] segs) = segs"
proof (induction segs)
  case (Cons x xs)
  then show ?case by (cases xs) (simp_all add: split_on_append)
qed simp

lemma parse_query_encode:
  "parse_query (values_encode m) = fold (\<lambda>(k, v). values_add k v) (values_pairs m) []"
proof (cases "values_pairs m = []")
  case True
  then show ?thesis by (simp add: values_encode_def parse_query_def parse_segment_def)
next
  case False
  have "CHR ''&'' \<notin> set (encode_pair kv)" for kv
    using escape_plain [of "fst kv"] escape_plain [of "snd kv"] by (auto simp: encode_pair_def split_beta)
  then have "split_on (CHR ''&'') (values_encode m) = map encode_pair (values_pairs m)"
    unfolding values_encode_def using False by (intro split_join) auto
  moreover have "fold (\<lambda>seg m. case parse_segment seg of None \<Rightarrow> m | Some (k, v) \<Rightarrow> values_add k v m)
      (map encode_pair ps) acc = fold (\<lambda>(k, v). values_add k v) ps acc" for ps acc
    by (induction ps arbitrary: acc) (auto simp: parse_encode_pair)
  ultimately show ?thesis by (simp add: parse_query_def)
qed

lemma fold_values_add:
  "gm_get (fold (\<lambda>(k, v). values_add k v) ps m) k =
     (let vs = map snd (filter (\<lambda>kv. fst kv = k) ps)
      in if vs = [] then gm_get m k else Some (gm_get_or [] m k @ vs))"
  by (induction ps arbitrary: m) (auto simp: values_add_def gm_get_or_def Let_def split: option.splits)

lemma filter_pairs: "filter (\<lambda>kv. fst kv = k) (map (Pair x) l) = (if x = k then map (Pair x) l else [])"
  by (induction l) auto

lemma values_pairs_filter:
  assumes "distinct ks"
  shows "map snd (filter (\<lambda>kv. fst kv = k) [(k, v). k \<leftarrow> ks, v \<leftarrow> f k]) = (if k \<in> set ks then f k else [])"
  using assms
proof (induction ks)
  case (Cons x ks)
  then show ?case by (auto simp: o_def filter_pairs)
qed simp

lemma query_round_trip:
  assumes "gm_wf m" "\<forall>(k, vs) \<in> set m. vs \<noteq> []"
  shows "gm_get (parse_query (values_encode m)) k = gm_get m k"
proof -
  have d: "distinct (sort (map fst m))" using assms(1) by simp
  have "map snd (filter (\<lambda>kv. fst kv = k) (values_pairs m)) = (if k \<in> fst ` set m then gm_get_or [] m k else [])"
    unfolding values_pairs_def using values_pairs_filter [OF d, of k "gm_get_or [] m"] by simp
  also have "\<dots> = gm_get_or [] m k"
    using gm_mem_iff [of m k] by (cases "gm_get m k") (auto simp: gm_get_or_def)
  finally have f: "map snd (filter (\<lambda>kv. fst kv = k) (values_pairs m)) = gm_get_or [] m k" .
  show ?thesis
    unfolding parse_query_encode fold_values_add Let_def f
    using assms(2) by (cases "gm_get m k") (auto simp: gm_get_or_def dest!: map_of_SomeD)
qed

end
