(* ===== verification/FwdAnnounce.thy ===== *)
theory FwdAnnounce
  imports QueueLemmas Routable UrlQuery
begin

text \<open>
  \<open>internal/server/forwarderAnnounce.go\<close>, \<open>forwarderHTTP.go\<close> and \<open>recordStats\<close> of
  \<open>forwarderStats.go\<close>: one announce to an upstream tracker and what becomes of its result.

  The network is outside the source: what the HTTP client, the UDP client and the decoder return
  are parameters, per attempt (\<open>http_attempt\<close>). A session can be cancelled while an announce is
  on the wire, so handling a result takes two views of the cancelled sessions: \<open>don\<close> when the
  result is handled first and \<open>don'\<close> when the cache is updated.
\<close>

section \<open>Results\<close>

record announce_result =
  ar_deferred :: bool
  ar_success :: bool
  ar_peers :: "peer list"
  ar_interval :: int
  ar_size :: nat
  ar_duration :: duration
  ar_error :: "go_error option"
  ar_non_retryable :: bool
  ar_suspend :: bool

definition empty_result :: announce_result where
  "empty_result = \<lparr>ar_deferred = False, ar_success = False, ar_peers = [], ar_interval = 0, ar_size = 0,
     ar_duration = 0, ar_error = None, ar_non_retryable = False, ar_suspend = False\<rparr>"

definition buildFailureResult :: "duration \<Rightarrow> go_error option \<Rightarrow> announce_result" where
  "buildFailureResult d err =
     (let classified = (case classifyForwarderError err of
            Some c \<Rightarrow> c | None \<Rightarrow> ErrForwarder Retryable ''unknown forwarder error'' err)
      in empty_result\<lparr>ar_success := False, ar_duration := d, ar_error := Some classified,
           ar_non_retryable := isPermanentErr (Some classified),
           ar_suspend := shouldSuspendErr (Some classified)\<rparr>)"

section \<open>Reading HTTP responses\<close>

definition maxForwarderHTTPResponseBytes :: nat where "maxForwarderHTTPResponseBytes = 2 ^ 20"
definition maxForwarderHTTPDrainBytes :: nat where "maxForwarderHTTPDrainBytes = 32 * 2 ^ 10"

definition response_too_large :: go_error where
  "response_too_large = ErrText ''forwarder response exceeds 1 MiB limit''"

text \<open>A body is what the connection delivers: bytes, and perhaps an error after them.
  \<open>io.ReadAll\<close> of an \<open>io.LimitReader\<close>: the error is not seen when the limit is reached first.\<close>

type_synonym body = "bytes \<times> go_error option"

definition read_limited :: "nat \<Rightarrow> body \<Rightarrow> go_error + bytes" where
  "read_limited n = (\<lambda>(content, err).
     (if length content \<ge> n then Inr (take n content)
      else case err of Some e \<Rightarrow> Inl e | None \<Rightarrow> Inr content))"

definition readHTTPAnnounceResponse :: "int \<Rightarrow> body \<Rightarrow> go_error + bytes" where
  "readHTTPAnnounceResponse contentLength b =
     (if contentLength > int maxForwarderHTTPResponseBytes then Inl response_too_large
      else case read_limited (maxForwarderHTTPResponseBytes + 1) b of
             Inl e \<Rightarrow> Inl e
           | Inr payload \<Rightarrow>
               (if length payload > maxForwarderHTTPResponseBytes then Inl response_too_large
                else Inr payload))"

text \<open>How many bytes \<open>discardHTTPResponseBody\<close> takes off a body.\<close>

definition discardHTTPResponseBody :: "body \<Rightarrow> nat" where
  "discardHTTPResponseBody b = min maxForwarderHTTPDrainBytes (length (fst b))"

section \<open>Announce addresses\<close>

text \<open>The query of an announce on top of the forwarder's own query.\<close>

definition announce_values :: "forward \<Rightarrow> request \<Rightarrow> string \<Rightarrow> url_values \<Rightarrow> url_values" where
  "announce_values f rq event q0 =
     (let q1 = values_set ''info_hash'' (rq_hash rq) q0;
          q2 = values_set ''peer_id'' (rq_peer_id rq) q1;
          q3 = values_set ''port'' (itoa (rq_port rq)) q2;
          q4 = values_set ''uploaded'' (nat_digits (unat (rq_uploaded rq))) q3;
          q5 = values_set ''downloaded'' (nat_digits (unat (rq_downloaded rq))) q4;
          q6 = values_set ''left'' (nat_digits (unat (rq_left rq))) q5;
          q7 = values_del ''event'' q6;
          q8 = (if event \<noteq> [] then values_set ''event'' event q7 else q7)
      in if f_ip f \<noteq> [] then values_set ''ipv4'' (f_ip f) (values_set ''ip'' (f_ip f) q8) else q8)"

text \<open>\<open>render\<close> is \<open>URL.String\<close>.\<close>

definition buildAnnounceURI :: "(url \<Rightarrow> string) \<Rightarrow> forward \<Rightarrow> request \<Rightarrow> string \<Rightarrow> string" where
  "buildAnnounceURI render f rq event =
     (case url_parse (f_uri f) of
        None \<Rightarrow> f_uri f
      | Some u \<Rightarrow>
          render (u\<lparr>u_raw_query := values_encode (announce_values f rq event (parse_query (u_raw_query u)))\<rparr>))"

section \<open>One HTTP request\<close>

datatype http_reply =
    RequestFailed go_error
  | TransportFailed go_error
  | HttpReply int string int body

text \<open>What the environment does around one attempt: whether the manager is stopping or the session
  cancelled when it starts, how the wait before it ends, and the reply. \<open>ha_done\<close> is the view of
  the sessions at each look while the reply is processed.\<close>

datatype wait_end = TimerFired | StoppedWaiting | CanceledWaiting

record http_attempt =
  ha_stopping :: bool
  ha_canceled :: bool
  ha_wait :: wait_end
  ha_reply :: http_reply
  ha_done :: "nat \<Rightarrow> session \<Rightarrow> bool"
  ha_now :: gotime
  ha_elapsed :: duration

definition http_status_error :: "int \<Rightarrow> string \<Rightarrow> go_error" where
  "http_status_error code status =
     (if isTrackerRejection code then ErrText (rejection_text code) else ErrText (status_text code status))"

definition wrap_error :: "string \<Rightarrow> go_error \<Rightarrow> go_error" where
  "wrap_error pre e = ErrWrap (pre @ error_string e) e"

definition doSingleHTTPRequest ::
  "(bytes \<Rightarrow> go_error + response) \<Rightarrow> announce_job \<Rightarrow> http_attempt \<Rightarrow> fmgr \<times> fwd_storage \<Rightarrow>
   (fmgr \<times> fwd_storage) \<times> announce_result" where
  "doSingleHTTPRequest decode job a s =
     (let d = ha_elapsed a in
      case ha_reply a of
        RequestFailed e \<Rightarrow> (s, buildFailureResult d (Some e))
      | TransportFailed e \<Rightarrow> (s, buildFailureResult d (Some e))
      | HttpReply code status contentLength b \<Rightarrow>
          (if code \<noteq> 200 then (s, buildFailureResult d (Some (http_status_error code status)))
           else case readHTTPAnnounceResponse contentLength b of
             Inl e \<Rightarrow> (s, buildFailureResult d (Some (wrap_error ''failed to read response: '' e)))
           | Inr payload \<Rightarrow>
               (case decode payload of
                  Inl e \<Rightarrow> (s, buildFailureResult d (Some (wrap_error ''failed to parse response: '' e)))
                | Inr resp \<Rightarrow>
                    (if rs_failure resp \<noteq> [] then
                       (case handleRetryError (ha_done a) (ha_now a) job (rs_failure resp) (rs_retry_in resp) s of
                          (s', True) \<Rightarrow> (s', empty_result\<lparr>ar_deferred := True, ar_duration := d\<rparr>)
                        | (s', False) \<Rightarrow>
                            (s', buildFailureResult d (Some (ErrText (''tracker failure: '' @ rs_failure resp)))))
                     else (s, empty_result\<lparr>ar_success := True, ar_peers := rs_peers resp,
                                ar_interval := rs_interval resp, ar_size := length payload,
                                ar_duration := d\<rparr>)))))"

section \<open>Retries\<close>

definition http_attempts :: "config \<Rightarrow> nat" where
  "http_attempts cfg = nat (if cf_forwarder_retry_attempts cfg \<le> 0 then 1 else cf_forwarder_retry_attempts cfg)"

definition http_backoff :: "config \<Rightarrow> duration" where
  "http_backoff cfg =
     (let b = wrap64 (cf_forwarder_retry_base_ms cfg * millisecond)
      in if b \<le> 0 then 500 * millisecond else b)"

text \<open>\<open>backoff * time.Duration(1<<retry)\<close>.\<close>

definition retry_wait :: "config \<Rightarrow> nat \<Rightarrow> duration" where
  "retry_wait cfg retry = wrap64 (http_backoff cfg * wrap64 (2 ^ retry))"

definition context_canceled :: go_error where
  "context_canceled = ErrText ''context canceled''"

text \<open>The attempts from number \<open>retry\<close> on, \<open>left\<close> of them; the list collects what is done, each wait and each
  request.\<close>

datatype http_action = Waited duration | Attempted

fun http_loop ::
  "(bytes \<Rightarrow> go_error + response) \<Rightarrow> announce_job \<Rightarrow> (nat \<Rightarrow> http_attempt) \<Rightarrow> nat \<Rightarrow> nat \<Rightarrow>
   go_error option \<Rightarrow> http_action list \<Rightarrow> fmgr \<times> fwd_storage \<Rightarrow>
   (fmgr \<times> fwd_storage) \<times> announce_result \<times> http_action list" where
  "http_loop decode job env retry 0 lastErr acts s =
     (s, buildFailureResult (ha_elapsed (env (retry - 1)))
           (case lastErr of
              Some e \<Rightarrow> Some e
            | None \<Rightarrow> Some (ErrText (''forwarder announce failed after '' @ itoa (int retry) @ '' attempt(s)''))),
      acts)"
| "http_loop decode job env retry (Suc left) lastErr acts s =
     (let a = env retry; cfg = fm_config (fst s) in
      if ha_stopping a then (s, buildFailureResult (ha_elapsed a) (Some context_canceled), acts)
      else if ha_canceled a then (s, buildFailureResult (ha_elapsed a) (Some context_canceled), acts)
      else (let acts' = (if retry > 0 then acts @ [Waited (retry_wait cfg retry)] else acts) in
        if retry > 0 \<and> ha_wait a \<noteq> TimerFired
        then (s, buildFailureResult (ha_elapsed a) (Some context_canceled), acts')
        else (case doSingleHTTPRequest decode job a s of
          (s', r) \<Rightarrow>
            (if ar_success r \<or> ar_deferred r then (s', r, acts' @ [Attempted])
             else if ar_non_retryable r \<or> ar_suspend r then (s', r, acts' @ [Attempted])
             else http_loop decode job env (retry + 1) left (ar_error r) (acts' @ [Attempted]) s'))))"

text \<open>The attempts ask for the announce address of the job, without an event; what the network answers
  depends on it.\<close>

definition doHTTPAnnounce ::
  "(url \<Rightarrow> string) \<Rightarrow> (bytes \<Rightarrow> go_error + response) \<Rightarrow> announce_job \<Rightarrow> (string \<Rightarrow> nat \<Rightarrow> http_attempt) \<Rightarrow>
   fmgr \<times> fwd_storage \<Rightarrow> (fmgr \<times> fwd_storage) \<times> announce_result \<times> http_action list" where
  "doHTTPAnnounce render decode job env s =
     http_loop decode job (env (buildAnnounceURI render (aj_forwarder job) (aj_request job) [])) 0
       (http_attempts (fm_config (fst s))) None [] s"

definition doUDPAnnounce :: "duration \<Rightarrow> go_error + response \<times> nat \<Rightarrow> announce_result" where
  "doUDPAnnounce d reply =
     (case reply of
        Inl e \<Rightarrow> buildFailureResult d (Some e)
      | Inr (resp, respBytes) \<Rightarrow>
          empty_result\<lparr>ar_success := True, ar_peers := rs_peers resp, ar_interval := rs_interval resp,
            ar_size := respBytes, ar_duration := d\<rparr>)"

section \<open>Handling a result\<close>

definition trunc_rat :: "rat \<Rightarrow> int" where
  "trunc_rat r = (if r \<ge> 0 then \<lfloor>r\<rfloor> else - \<lfloor>- r\<rfloor>)"

definition emaAlpha :: rat where "emaAlpha = f64 (15 / 100)"
definition emaRest :: rat where "emaRest = f64 (85 / 100)"

definition ema :: "duration \<Rightarrow> duration \<Rightarrow> duration" where
  "ema sample avg =
     trunc_rat (f64 (f64 (f64 (of_int sample) * emaAlpha) + f64 (f64 (of_int avg) * emaRest)))"

definition recordStats :: "gotime \<Rightarrow> string \<Rightarrow> duration \<Rightarrow> int \<Rightarrow> fmgr \<Rightarrow> fmgr" where
  "recordStats now name responseTime interval fm =
     (let st = (case gm_get (fm_stats fm) name of Some st \<Rightarrow> st | None \<Rightarrow> zero_stats);
          avg = (if fst_samples st = 0 then responseTime else ema responseTime (fst_avg st))
      in fm\<lparr>fm_stats := gm_put name \<lparr>fst_avg = avg, fst_last_interval = interval, fst_last_announce = now,
              fst_samples = fst_samples st + 1\<rparr> (fm_stats fm)\<rparr>)"

definition unroutable_error :: "nat \<Rightarrow> go_error" where
  "unroutable_error n =
     ErrText (''forwarder returned only unroutable peers ('' @ itoa (int n) @ '' total)'')"

definition route_filter :: "announce_result \<Rightarrow> announce_result" where
  "route_filter r =
     (if ar_success r then
        (case filterRoutableForwarderPeers (ar_peers r) of
           (routable, dropped) \<Rightarrow>
             (if ar_peers r \<noteq> [] \<and> routable = []
              then buildFailureResult (ar_duration r) (Some (unroutable_error (length (ar_peers r))))
              else r\<lparr>ar_peers := routable\<rparr>))
      else r)"

definition suspend_duration :: "config \<Rightarrow> duration" where
  "suspend_duration cfg =
     (let d = wrap64 (cf_forwarder_suspend_seconds cfg * second) in if d \<le> 0 then 300 * second else d)"

text \<open>\<open>don i\<close> tells which sessions have ended at the \<open>i\<close>-th look: on entry, before the result takes effect,
  and when an empty list is stored after a failure.\<close>

definition handleAnnounceResult ::
  "(nat \<Rightarrow> session \<Rightarrow> bool) \<Rightarrow> gotime \<Rightarrow> announce_job \<Rightarrow> announce_result \<Rightarrow>
   fmgr \<times> fwd_storage \<Rightarrow> fmgr \<times> fwd_storage" where
  "handleAnnounceResult don now job result0 = (\<lambda>(fm, fs).
     (if ar_deferred result0 \<or> canceled (don 0) job \<or> fm_stopped fm then (fm, fs)
      else (let name = getName (aj_forwarder job); result = route_filter result0 in
        if ar_success result then
          (case updatePeerCache (don 1) job (UpdatePeers now (aj_hash job) name (ar_peers result) (ar_interval result))
                  (fm, fs) of
             (fs1, False) \<Rightarrow> (fm, fs1)
           | (fs1, True) \<Rightarrow>
               (let fm1 = (if ar_peers result \<noteq> [] then resetFailure name fm else fm)
                in (recordStats now name (ar_duration result) (ar_interval result) fm1, fs1)))
        else if ar_suspend result then
          (if canceled (don 1) job \<or> fm_stopped fm then (fm, fs)
           else (suspendForwarderWithReason now name (suspend_duration (fm_config fm))
                   (case ar_error result of Some e \<Rightarrow> error_string e | None \<Rightarrow> []) fm, fs))
        else if canceled (don 1) job \<or> fm_stopped fm then (fm, fs)
        else (let (fm1, fs1) = (if ar_non_retryable result
                    then disableForwarder now name (disableReasonForError (ar_error result)) (fm, fs)
                    else registerFailure now name (fm, fs))
              in if \<not> isDisabled fm1 name
                 then (fm1, fst (updatePeerCache (don 2) job (UpdatePeers now (aj_hash job) name [] 60) (fm1, fs1)))
                 else (fm1, fs1)))))"

text \<open>Everything the environment contributes to one execution of a job.\<close>

record announce_env =
  ae_done :: "session \<Rightarrow> bool"
  ae_now :: gotime
  ae_render :: "url \<Rightarrow> string"
  ae_load :: "bytes \<Rightarrow> go_error + response"
  ae_attempts :: "string \<Rightarrow> nat \<Rightarrow> http_attempt"
  ae_udp :: "go_error + response \<times> nat"
  ae_udp_elapsed :: duration
  ae_done_result :: "nat \<Rightarrow> session \<Rightarrow> bool"
  ae_now_result :: gotime

definition run_protocol ::
  "announce_env \<Rightarrow> announce_job \<Rightarrow> fmgr \<times> fwd_storage \<Rightarrow> (fmgr \<times> fwd_storage) \<times> announce_result" where
  "run_protocol e job s =
     (if getProtocol (aj_forwarder job) = protocol_udp
      then (s, doUDPAnnounce (ae_udp_elapsed e) (ae_udp e))
      else (case doHTTPAnnounce (ae_render e) (ae_load e) job (ae_attempts e) s of (s', r, acts) \<Rightarrow> (s', r)))"

definition executeAnnounce ::
  "announce_env \<Rightarrow> announce_job \<Rightarrow> fmgr \<times> fwd_storage \<Rightarrow> fmgr \<times> fwd_storage" where
  "executeAnnounce e job = (\<lambda>(fm, fs).
     (let name = getName (aj_forwarder job) in
      if canceled (ae_done e) job \<or> fm_stopped fm then (fm, fs)
      else if isDisabled fm name then (fm, fs)
      else (case isSuspended (ae_now e) name fm of
              (fm1, True) \<Rightarrow> (fm1, fs)
            | (fm1, False) \<Rightarrow>
                (case run_protocol e job (fm1, fs) of
                   (s2, r) \<Rightarrow>
                     handleAnnounceResult (ae_done_result e) (ae_now_result e) job r s2))))"

text \<open>The two halves of \<open>executeAnnounce\<close>: the checks before the network is used, and what follows from its
  answer, which finds the manager as it is by then.\<close>

definition admit_announce :: "(session \<Rightarrow> bool) \<Rightarrow> gotime \<Rightarrow> announce_job \<Rightarrow> fmgr \<Rightarrow> fmgr \<times> bool" where
  "admit_announce don now job fm =
     (let name = getName (aj_forwarder job) in
      if canceled don job \<or> fm_stopped fm then (fm, False)
      else if isDisabled fm name then (fm, False)
      else (case isSuspended now name fm of (fm1, suspended) \<Rightarrow> (fm1, \<not> suspended)))"

definition run_announce :: "announce_env \<Rightarrow> announce_job \<Rightarrow> fmgr \<times> fwd_storage \<Rightarrow> fmgr \<times> fwd_storage" where
  "run_announce e job s =
     (case run_protocol e job s of
        (s', r) \<Rightarrow> handleAnnounceResult (ae_done_result e) (ae_now_result e) job r s')"

text \<open>A worker's treatment of a job taken off the queue.\<close>

definition worker_step ::
  "announce_env \<Rightarrow> announce_job \<Rightarrow> fmgr \<times> fwd_storage \<Rightarrow> fmgr \<times> fwd_storage" where
  "worker_step e job = (\<lambda>(fm, fs).
     (case worker_action (ae_done e) (ae_now e) job of
        DropJob \<Rightarrow> (finishJob job fm, fs)
      | PostponeJob \<Rightarrow> (schedule_or_finish (ae_done e) job fm, fs)
      | AnnounceNow \<Rightarrow> (case executeAnnounce e job (fm, fs) of (fm', fs') \<Rightarrow> (finishJob job fm', fs'))))"

text \<open>The end of a job whose announce was admitted.\<close>

definition finish_announce :: "announce_env \<Rightarrow> announce_job \<Rightarrow> fmgr \<times> fwd_storage \<Rightarrow> fmgr \<times> fwd_storage" where
  "finish_announce e job s = (case run_announce e job s of (fm', fs') \<Rightarrow> (finishJob job fm', fs'))"

lemma executeAnnounce_halves:
  "executeAnnounce e job (fm, fs) =
     (case admit_announce (ae_done e) (ae_now e) job fm of
        (fm1, admitted) \<Rightarrow> if admitted then run_announce e job (fm1, fs) else (fm1, fs))"
  by (simp add: executeAnnounce_def admit_announce_def run_announce_def Let_def split: prod.split bool.split)

section \<open>Forwarded events\<close>

text \<open>The event announces that are started, one for each forwarder.\<close>

definition forwardEventToAll :: "request \<Rightarrow> fmgr \<Rightarrow> (forward \<times> request) list" where
  "forwardEventToAll rq fm = (if fm_stopped fm then [] else map (\<lambda>f. (f, rq)) (fm_forwarders fm))"

definition ForwardStoppedEvent ::
  "info_hash \<Rightarrow> peer_id \<Rightarrow> request \<Rightarrow> fmgr \<Rightarrow> fmgr \<times> (forward \<times> request) list" where
  "ForwardStoppedEvent h p rq fm =
     (let fm1 = CancelPendingJobs h p fm
      in (fm1, forwardEventToAll (rq\<lparr>rq_event := ev_stopped\<rparr>) fm1))"

definition ForwardCompletedEvent :: "request \<Rightarrow> fmgr \<Rightarrow> (forward \<times> request) list" where
  "ForwardCompletedEvent rq fm = forwardEventToAll (rq\<lparr>rq_event := ev_completed\<rparr>) fm"

text \<open>One request for the address with the event of the request; \<open>fetch\<close> gives the reply for an address.\<close>

definition doHTTPEventRequest ::
  "(url \<Rightarrow> string) \<Rightarrow> (string \<Rightarrow> http_reply) \<Rightarrow> forward \<Rightarrow> request \<Rightarrow> go_error option" where
  "doHTTPEventRequest render fetch f rq =
     (case fetch (buildAnnounceURI render f rq (rq_event rq)) of
        RequestFailed e \<Rightarrow> Some e
      | TransportFailed e \<Rightarrow> Some e
      | HttpReply code status cl b \<Rightarrow>
          (if code \<noteq> 200 then Some (ErrText (''HTTP '' @ itoa code @ '' '' @ status)) else None))"

end
