(* ===== verification/Background.thy ===== *)
theory Background
  imports Prelude
begin

text \<open>
  \<open>internal/server/background.go\<close>: goroutines owned by a service. A wait group counts the running
  ones; once stopping begins no goroutine starts, and \<open>close\<close> returns when all have returned.
  The mutex makes \<open>begin\<close> and \<open>stop\<close> atomic, so an execution is a sequence of steps.
\<close>

section \<open>State and operations\<close>

record tasks =
  ts_canceled :: bool
  ts_stopped :: bool
  ts_wg :: nat

definition newBackgroundTasks :: tasks where
  "newBackgroundTasks = \<lparr>ts_canceled = False, ts_stopped = False, ts_wg = 0\<rparr>"

definition tasks_begin :: "tasks \<Rightarrow> tasks \<times> bool" where
  "tasks_begin ts = (if ts_stopped ts then (ts, False) else (ts\<lparr>ts_wg := ts_wg ts + 1\<rparr>, True))"

definition tasks_stop :: "tasks \<Rightarrow> tasks" where
  "tasks_stop ts = ts\<lparr>ts_stopped := True, ts_canceled := True\<rparr>"

text \<open>\<open>wg.Done\<close> panics (None) when the counter is zero; \<open>wg.Wait\<close> returns when it is.\<close>

definition wg_done :: "tasks \<Rightarrow> tasks option" where
  "wg_done ts = (if ts_wg ts = 0 then None else Some (ts\<lparr>ts_wg := ts_wg ts - 1\<rparr>))"

definition wait_returns :: "tasks \<Rightarrow> bool" where
  "wait_returns ts \<longleftrightarrow> ts_wg ts = 0"

section \<open>Groups of goroutines\<close>

text \<open>The contract every owner of goroutines relies on when it closes: one that runs can end, which removes
  it and nothing else, and the wait returns exactly when none is left. The client then gets that the
  goroutines may end in any order, and that the wait returns after the last and not before.\<close>

fun end_all :: "('r \<Rightarrow> 's \<Rightarrow> 's option) \<Rightarrow> 'r list \<Rightarrow> 's \<Rightarrow> 's option" where
  "end_all ends [] s = Some s"
| "end_all ends (r # rs) s = Option.bind (ends r s) (end_all ends rs)"

locale task_group =
  fixes good :: "'s \<Rightarrow> bool" and alive :: "'s \<Rightarrow> 'r list" and ends :: "'r \<Rightarrow> 's \<Rightarrow> 's option" and waited :: "'s \<Rightarrow> bool"
  assumes ends_alive: "good s \<Longrightarrow> r \<in> set (alive s) \<Longrightarrow>
      \<exists>s'. ends r s = Some s' \<and> good s' \<and> alive s' = remove1 r (alive s)"
    and waited_iff: "good s \<Longrightarrow> waited s \<longleftrightarrow> alive s = []"
begin

lemma end_some:
  "good s \<Longrightarrow> mset rs \<subseteq># mset (alive s) \<Longrightarrow>
     \<exists>s'. end_all ends rs s = Some s' \<and> good s' \<and> mset (alive s') = mset (alive s) - mset rs"
proof (induction rs arbitrary: s)
  case Nil
  then show ?case by simp
next
  case (Cons r rs)
  then have "r \<in> set (alive s)" using mset_subset_eqD [OF Cons.prems(2), of r] by simp
  from ends_alive [OF Cons.prems(1) this] obtain s1 where s1: "ends r s = Some s1" "good s1"
    "mset (alive s1) = mset (alive s) - {#r#}" by auto
  have "mset rs \<subseteq># mset (alive s1)" using Cons.prems(2) s1(3) by (simp add: insert_subset_eq_iff)
  from Cons.IH [OF s1(2) this] s1 show ?case by simp
qed

lemma any_order:
  assumes "good s" "mset rs = mset (alive s)"
  shows "\<exists>s'. end_all ends rs s = Some s' \<and> alive s' = [] \<and> waited s'"
proof -
  have "mset rs \<subseteq># mset (alive s)" using assms(2) by simp
  from end_some [OF assms(1) this] assms(2) waited_iff show ?thesis by auto
qed

lemma not_before:
  assumes "good s" "mset rs \<subset># mset (alive s)" "end_all ends rs s = Some s'"
  shows "\<not> waited s'"
proof -
  have "mset rs \<subseteq># mset (alive s)" using assms(2) by (rule subset_mset.less_imp_le)
  from end_some [OF assms(1) this] assms(3) have s': "good s'" "mset (alive s') = mset (alive s) - mset rs" by auto
  have "mset (alive s) - mset rs \<noteq> {#}" using assms(2) by (simp add: Diff_eq_empty_iff_mset subset_mset.less_le_not_le)
  then have "alive s' \<noteq> []" using s'(2) by auto
  with waited_iff [OF s'(1)] show ?thesis by simp
qed

end

section \<open>Executions\<close>

text \<open>The goroutines are named by numbers; a goroutine's end is its deferred \<open>wg.Done\<close>.\<close>

datatype task_event = Begun nat | Refused | Ended nat | Stopping

inductive task_step :: "tasks \<times> nat list \<Rightarrow> task_event \<Rightarrow> tasks \<times> nat list \<Rightarrow> bool" where
  run_started: "tasks_begin ts = (ts', True) \<Longrightarrow> i \<notin> set gs \<Longrightarrow> task_step (ts, gs) (Begun i) (ts', i # gs)"
| run_refused: "tasks_begin ts = (ts', False) \<Longrightarrow> task_step (ts, gs) Refused (ts', gs)"
| goroutine_end: "i \<in> set gs \<Longrightarrow> wg_done ts = Some ts' \<Longrightarrow> task_step (ts, gs) (Ended i) (ts', remove1 i gs)"
| stop_called: "task_step (ts, gs) Stopping (tasks_stop ts, gs)"

inductive_simps task_step_simps:
  "task_step (ts, gs) (Begun i) s" "task_step (ts, gs) Refused s"
  "task_step (ts, gs) (Ended i) s" "task_step (ts, gs) Stopping s"

inductive task_run :: "tasks \<times> nat list \<Rightarrow> task_event list \<Rightarrow> tasks \<times> nat list \<Rightarrow> bool" where
  run_nil: "task_run s [] s"
| run_cons: "task_step s e s' \<Longrightarrow> task_run s' es s'' \<Longrightarrow> task_run s (e # es) s''"

inductive_cases task_runE: "task_run s (e # es) s''"

definition tasks_inv :: "tasks \<times> nat list \<Rightarrow> bool" where
  "tasks_inv = (\<lambda>(ts, gs). ts_wg ts = length gs \<and> distinct gs \<and> ts_canceled ts = ts_stopped ts)"

lemma tasks_inv_step: "task_step s e s' \<Longrightarrow> tasks_inv s \<Longrightarrow> tasks_inv s'"
  by (induction rule: task_step.induct)
     (auto simp: tasks_inv_def tasks_begin_def wg_done_def tasks_stop_def length_remove1 split: if_splits)

lemma tasks_inv_run: "task_run s es s' \<Longrightarrow> tasks_inv s \<Longrightarrow> tasks_inv s'"
  by (induction rule: task_run.induct) (auto intro: tasks_inv_step)

text \<open>The counter of a goroutine that runs is positive: its \<open>wg.Done\<close> does not panic.\<close>

lemma ended_enabled: "tasks_inv (ts, gs) \<Longrightarrow> i \<in> set gs \<Longrightarrow> \<exists>s'. task_step (ts, gs) (Ended i) s'"
  by (auto simp: task_step_simps tasks_inv_def wg_done_def)

lemma stopped_step:
  "task_step s e s' \<Longrightarrow> ts_stopped (fst s) \<Longrightarrow>
     ts_stopped (fst s') \<and> (\<forall>i. e \<noteq> Begun i) \<and> set (snd s') \<subseteq> set (snd s)"
  by (induction rule: task_step.induct)
     (auto simp: tasks_begin_def wg_done_def tasks_stop_def dest: subsetD [OF set_remove1_subset] split: if_splits)

lemma stopped_run:
  "task_run s es s' \<Longrightarrow> ts_stopped (fst s) \<Longrightarrow>
     ts_stopped (fst s') \<and> (\<forall>i. Begun i \<notin> set es) \<and> set (snd s') \<subseteq> set (snd s)"
proof (induction rule: task_run.induct)
  case (run_cons s e s' es s'')
  from stopped_step [OF run_cons.hyps(1) run_cons.prems] run_cons.IH show ?case by fastforce
qed simp

text \<open>The goroutines of a service are such a group.\<close>

definition end_goroutine :: "nat \<Rightarrow> tasks \<times> nat list \<Rightarrow> (tasks \<times> nat list) option" where
  "end_goroutine i = (\<lambda>(ts, gs). map_option (\<lambda>ts'. (ts', remove1 i gs)) (wg_done ts))"

interpretation bg: task_group tasks_inv snd end_goroutine "\<lambda>s. wait_returns (fst s)"
  by unfold_locales
     (auto simp: tasks_inv_def end_goroutine_def wg_done_def wait_returns_def length_remove1)

lemma end_goroutines_run:
  "end_all end_goroutine rs s = Some s' \<Longrightarrow> set rs \<subseteq> set (snd s) \<Longrightarrow> distinct rs \<Longrightarrow> task_run s (map Ended rs) s'"
proof (induction rs arbitrary: s)
  case Nil
  then show ?case by (simp add: run_nil)
next
  case (Cons r rs)
  from Cons.prems(1) obtain s1 where s1: "end_goroutine r s = Some s1" "end_all end_goroutine rs s1 = Some s'"
    by (auto split: Option.bind_splits)
  have "task_step s (Ended r) s1" using s1(1) Cons.prems(2)
    by (cases s) (auto simp: end_goroutine_def task_step_simps)
  moreover have "set rs \<subseteq> set (snd s1)"
    using s1(1) Cons.prems(2,3) by (cases s) (auto simp: end_goroutine_def intro!: iffD2 [OF in_set_remove1])
  ultimately show ?case using Cons.IH [OF s1(2)] Cons.prems(3) by (auto intro: run_cons)
qed

text \<open>Once stopping has begun, \<open>close\<close> returns as soon as the goroutines that were running have
  returned, in any order.\<close>

lemma drain:
  assumes "tasks_inv (ts, gs)" "mset rs = mset gs"
  shows "\<exists>ts'. task_run (ts, gs) (map Ended rs) (ts', []) \<and> wait_returns ts'"
proof -
  obtain s' where s': "end_all end_goroutine rs (ts, gs) = Some s'" "snd s' = []" "wait_returns (fst s')"
    using bg.any_order [of "(ts, gs)" rs] assms by auto
  have "distinct rs" "set rs \<subseteq> set gs"
    using assms mset_eq_imp_distinct_iff [OF assms(2)] mset_eq_setD [OF assms(2)] by (auto simp: tasks_inv_def)
  with end_goroutines_run [OF s'(1)] s'(2,3) show ?thesis by (cases s') auto
qed

lemma wait_iff_idle: "tasks_inv (ts, gs) \<Longrightarrow> wait_returns ts \<longleftrightarrow> gs = []"
  using bg.waited_iff [of "(ts, gs)"] by simp

end
