(* ===== verification/UdpClient.thy ===== *)
theory UdpClient
  imports UdpServer FwdAnnounce Background
begin

text \<open>
  \<open>internal/server/udpForwarder.go\<close>: the client for upstream UDP trackers. The network is a
  parameter: per attempt, whether the context ends, whether a write fails, and the datagrams that
  arrive before the read ends with an error. What is sent is part of the result. The announces of
  one client are modelled one at a time.
\<close>

section \<open>State\<close>

record connection_entry =
  ce_id :: u64
  ce_timestamp :: gotime

record udp_forwarder =
  uf_timeout :: duration
  uf_max_retries :: nat
  uf_retry_base :: duration
  uf_connections :: "(string, connection_entry) gomap"
  uf_tasks :: tasks

definition connectionIDLifetime :: duration where "connectionIDLifetime = 2 * minute"
definition defaultUDPTimeout :: duration where "defaultUDPTimeout = 30 * second"

definition NewUDPForwarder :: "int \<Rightarrow> int \<Rightarrow> int \<Rightarrow> udp_forwarder" where
  "NewUDPForwarder timeout retries retryBaseMs =
     (let timeout' = (if timeout \<le> 0 then defaultUDPTimeout div second else timeout);
          retries' = (if retries \<le> 0 then 5 else retries);
          base' = (if retryBaseMs \<le> 0 then 500 else retryBaseMs)
      in \<lparr>uf_timeout = wrap64 (timeout' * second), uf_max_retries = nat retries',
          uf_retry_base = wrap64 (base' * millisecond), uf_connections = [],
          uf_tasks = fst (tasks_begin newBackgroundTasks)\<rparr>)"

text \<open>\<open>Stop\<close> once the tasks have been joined.\<close>

definition uf_Stop :: "udp_forwarder \<Rightarrow> udp_forwarder" where
  "uf_Stop uf = uf\<lparr>uf_tasks := tasks_stop (uf_tasks uf), uf_connections := []\<rparr>"

definition uf_cleanupConnections :: "gotime \<Rightarrow> udp_forwarder \<Rightarrow> udp_forwarder" where
  "uf_cleanupConnections now uf =
     uf\<lparr>uf_connections := filter (\<lambda>(n, e). \<not> time_sub now (ce_timestamp e) > connectionIDLifetime)
         (uf_connections uf)\<rparr>"

section \<open>Dialling and reading\<close>

definition join_host_port :: "string \<Rightarrow> string \<Rightarrow> string" where
  "join_host_port host port =
     (if CHR '':'' \<in> set host then ''['' @ host @ '']:'' @ port else host @ '':'' @ port)"

definition udp_dial_host :: "string \<Rightarrow> string option" where
  "udp_dial_host uri =
     map_option (\<lambda>u. if url_port u = [] then join_host_port (url_hostname u) ''6969'' else u_host u) (url_parse uri)"

fun readUDPTrackerResponse :: "nat \<Rightarrow> u32 \<Rightarrow> bytes list \<Rightarrow> go_error \<Rightarrow> go_error + bytes" where
  "readUDPTrackerResponse buf tid [] err = Inl err"
| "readUDPTrackerResponse buf tid (d # ds) err =
     (let b = take buf d
      in if length b < 8 \<or> get_u32 (bytes_at 4 4 b) \<noteq> tid then readUDPTrackerResponse buf tid ds err
         else Inr b)"

text \<open>One attempt: the context's error when the attempt starts, the error that ends the wait before
  it, the error of the write, and the datagrams that arrive before the read's error.\<close>

record udp_attempt =
  at_ctx :: "go_error option"
  at_timer :: "go_error option"
  at_write :: "go_error option"
  at_reads :: "bytes list"
  at_read_error :: go_error

definition waitRetry :: "udp_attempt \<Rightarrow> nat \<Rightarrow> go_error option" where
  "waitRetry a retry = (case at_ctx a of Some e \<Rightarrow> Some e | None \<Rightarrow> if retry = 0 then None else at_timer a)"

text \<open>How long the timer of \<open>waitRetry\<close> runs.\<close>

definition uf_retry_wait :: "udp_forwarder \<Rightarrow> nat \<Rightarrow> duration" where
  "uf_retry_wait uf retry = wrap64 (uf_retry_base uf * wrap64 (2 ^ retry))"

section \<open>Connecting\<close>

definition connect_request :: "u32 \<Rightarrow> bytes" where
  "connect_request tid = put_u64 udp_connect_magic @ put_u32 udp_action_connect @ put_u32 tid"

record connect_env =
  cn_bad_uri :: go_error
  cn_dial :: "string \<Rightarrow> go_error option"
  cn_tid :: u32
  cn_attempts :: "nat \<Rightarrow> udp_attempt"
  cn_now :: gotime

definition dialUDP :: "connect_env \<Rightarrow> string \<Rightarrow> go_error option" where
  "dialUDP e uri =
     (case udp_dial_host uri of
        None \<Rightarrow> Some (wrap_error ''invalid URI: '' (cn_bad_uri e))
      | Some host \<Rightarrow> cn_dial e host)"

definition too_short :: "string \<Rightarrow> nat \<Rightarrow> go_error" where
  "too_short what n = ErrText (what @ '' response too short: '' @ itoa (int n) @ '' bytes'')"

text \<open>What one reply to a connect request means: a final error, a failed attempt with the error it
  gives if it was the last one, or the connection id.\<close>

datatype 'a reply = FinalError go_error | TryAgain go_error | Reply 'a

definition connect_reply_of :: "bytes \<Rightarrow> u64 reply" where
  "connect_reply_of p =
     (let n = length p; action = get_u32 (bytes_at 0 4 p) in
      if n < 8 then TryAgain (too_short ''connect'' n)
      else if action = udp_action_error then
        FinalError (ErrText (''tracker error on connect: '' @
          (if n > 8 then drop 8 p else ''unknown tracker error'')))
      else if n < 16 then TryAgain (too_short ''connect'' n)
      else if action \<noteq> udp_action_connect then
        TryAgain (ErrText (''unexpected action in connect response: '' @ nat_digits (unat action)))
      else Reply (get_u64 (bytes_at 8 8 p)))"

text \<open>The attempts from number \<open>retry\<close> on, \<open>left\<close> of them, with the datagrams sent so far.\<close>

fun connect_loop ::
  "u32 \<Rightarrow> (nat \<Rightarrow> udp_attempt) \<Rightarrow> nat \<Rightarrow> nat \<Rightarrow> bytes list \<Rightarrow> (go_error + u64) \<times> bytes list" where
  "connect_loop tid env retry 0 sent = (Inr 0, sent)"
| "connect_loop tid env retry (Suc left) sent =
     (let a = env retry in
      case waitRetry a retry of
        Some e \<Rightarrow> (Inl e, sent)
      | None \<Rightarrow>
          (case at_write a of
             Some e \<Rightarrow>
               (if left = 0 then (Inl (wrap_error ''failed to send connect request: '' e), sent)
                else connect_loop tid env (retry + 1) left sent)
           | None \<Rightarrow>
               (let sent' = sent @ [connect_request tid] in
                case readUDPTrackerResponse 2048 tid (at_reads a) (at_read_error a) of
                  Inl e \<Rightarrow>
                    (if left = 0 then (Inl (wrap_error ''failed to read connect response: '' e), sent')
                     else connect_loop tid env (retry + 1) left sent')
                | Inr p \<Rightarrow>
                    (case connect_reply_of p of
                       FinalError e \<Rightarrow> (Inl e, sent')
                     | TryAgain e \<Rightarrow>
                         (if left = 0 then (Inl e, sent') else connect_loop tid env (retry + 1) left sent')
                     | Reply cid \<Rightarrow> (Inr cid, sent')))))"

definition uf_connect ::
  "connect_env \<Rightarrow> forward \<Rightarrow> udp_forwarder \<Rightarrow> udp_forwarder \<times> (go_error + u64) \<times> bytes list" where
  "uf_connect e f uf =
     (case dialUDP e (f_uri f) of
        Some err \<Rightarrow> (uf, Inl err, [])
      | None \<Rightarrow>
          (case connect_loop (cn_tid e) (cn_attempts e) 0 (uf_max_retries uf) [] of
             (Inl err, sent) \<Rightarrow> (uf, Inl err, sent)
           | (Inr cid, sent) \<Rightarrow>
               (uf\<lparr>uf_connections := gm_put (getName f) \<lparr>ce_id = cid, ce_timestamp = cn_now e\<rparr>
                     (uf_connections uf)\<rparr>, Inr cid, sent)))"

definition id_fresh :: "gotime \<Rightarrow> connection_entry \<Rightarrow> bool" where
  "id_fresh now e \<longleftrightarrow> time_sub now (ce_timestamp e) < connectionIDLifetime - 10 * second"

definition getConnectionID ::
  "connect_env \<Rightarrow> gotime \<Rightarrow> forward \<Rightarrow> udp_forwarder \<Rightarrow> udp_forwarder \<times> (go_error + u64) \<times> bytes list" where
  "getConnectionID e now f uf =
     (case gm_get (uf_connections uf) (getName f) of
        Some entry \<Rightarrow>
          (if id_fresh now entry then
             (case dialUDP e (f_uri f) of
                Some err \<Rightarrow> (uf, Inl err, [])
              | None \<Rightarrow> (uf, Inr (ce_id entry), []))
           else uf_connect e f uf)
      | None \<Rightarrow> uf_connect e f uf)"

section \<open>Announcing\<close>

definition event_code :: "string \<Rightarrow> u32" where
  "event_code e = (if e = ev_completed then 1 else if e = ev_started then 2 else if e = ev_stopped then 3 else 0)"

definition announce_ip :: "forward \<Rightarrow> u32" where
  "announce_ip f =
     (if f_ip f \<noteq> [] then
        (let ip = net_parse_ip (f_ip f)
         in if ip \<noteq> [] \<and> ip_to4 ip \<noteq> [] then get_u32 (ip_to4 ip) else 0)
      else 0)"

definition announce_num_want :: "request \<Rightarrow> u32" where
  "announce_num_want rq = (if rq_num_want rq > 0 then ucast (min (rq_num_want rq) max_num_want) else 50)"

definition buildAnnounceRequest :: "forward \<Rightarrow> request \<Rightarrow> u64 \<Rightarrow> u32 \<Rightarrow> bytes" where
  "buildAnnounceRequest f rq cid tid =
     put_u64 cid @ put_u32 udp_action_announce @ put_u32 tid @ rq_hash rq @ rq_peer_id rq
     @ put_u64 (rq_downloaded rq) @ put_u64 (rq_left rq) @ put_u64 (rq_uploaded rq)
     @ put_u32 (event_code (rq_event rq)) @ put_u32 (announce_ip f) @ put_u32 0
     @ put_u32 (announce_num_want rq) @ put_u16 (word_of_int (rq_port rq))"

text \<open>The peers of a reply: records of an address and a port until the data runs short; the address
  family is the one of the tracker's address.\<close>

definition udp_reply_peers :: "net_ip \<Rightarrow> bytes \<Rightarrow> peer list" where
  "udp_reply_peers remote peerData =
     (if ip_to4 remote = []
      then map (\<lambda>c. parse_peer_bytes (take 16 c) (drop 16 c)) (chunks 18 peerData)
      else map (\<lambda>c. parse_peer_bytes (take 4 c) (drop 4 c)) (chunks 6 peerData))"

definition announce_reply_of :: "net_ip \<Rightarrow> bytes \<Rightarrow> response reply" where
  "announce_reply_of remote p =
     (let n = length p; action = get_u32 (bytes_at 0 4 p) in
      if n < 8 then TryAgain (too_short ''announce'' n)
      else if action = udp_action_error then FinalError (ErrText (drop 8 p))
      else if n < 20 then TryAgain (too_short ''announce'' n)
      else if action \<noteq> udp_action_announce then
        TryAgain (ErrText (''unexpected action in announce response: '' @ nat_digits (unat action)))
      else Reply (empty_response\<lparr>rs_interval := uint (get_u32 (bytes_at 8 4 p)),
                     rs_peers := udp_reply_peers remote (drop 20 p)\<rparr>))"

definition shouldReconnectAfterTrackerError :: "string \<Rightarrow> bool" where
  "shouldReconnectAfterTrackerError errorMsg =
     (let msg = to_lower errorMsg in list_ex (contains msg)
        [''connection cookie'', ''cookie value'', ''cookie error'', ''connection id'', ''invalid connection''])"

definition tracker_error :: "string \<Rightarrow> go_error" where
  "tracker_error msg = ErrText (''tracker error: '' @ msg)"

definition reconnect_error :: "string \<Rightarrow> go_error \<Rightarrow> go_error" where
  "reconnect_error msg e =
     ErrWrap (''tracker error: '' @ msg @ '' (reconnect failed: '' @ error_string e @ '')'') e"

text \<open>What happens around one round of the loop: the attempt, its transaction id, the address of the
  tracker, and the connection made when the round ends with a reconnect.\<close>

record announce_round =
  rd_attempt :: udp_attempt
  rd_tid :: u32
  rd_remote :: net_ip
  rd_reconnect :: connect_env

text \<open>The loop: \<open>k\<close> counts the rounds, \<open>retry\<close> the attempts, of which \<open>left\<close> remain. A reconnect is
  tried once and does not consume an attempt, so the measure is the attempts and then the flag.\<close>

function announce_loop ::
  "forward \<Rightarrow> request \<Rightarrow> (nat \<Rightarrow> announce_round) \<Rightarrow> nat \<Rightarrow> nat \<Rightarrow> nat \<Rightarrow> bool \<Rightarrow> u64 \<Rightarrow> udp_forwarder \<Rightarrow>
   bytes list \<Rightarrow> udp_forwarder \<times> (go_error + response \<times> nat) \<times> bytes list" where
  "announce_loop f rq env k retry 0 reconnected cid uf sent =
     (uf, Inl (ErrText (''failed to get announce response after '' @ itoa (int (uf_max_retries uf)) @ '' retries'')),
      sent)"
| "announce_loop f rq env k retry (Suc left) reconnected cid uf sent =
     (let r = env k; a = rd_attempt r in
      case waitRetry a retry of
        Some e \<Rightarrow> (uf, Inl e, sent)
      | None \<Rightarrow>
          (case at_write a of
             Some e \<Rightarrow>
               (if left = 0 then (uf, Inl (wrap_error ''failed to send announce request: '' e), sent)
                else announce_loop f rq env (k + 1) (retry + 1) left reconnected cid uf sent)
           | None \<Rightarrow>
               (let sent' = sent @ [buildAnnounceRequest f rq cid (rd_tid r)] in
                case readUDPTrackerResponse 4096 (rd_tid r) (at_reads a) (at_read_error a) of
                  Inl e \<Rightarrow>
                    (if left = 0 then (uf, Inl (wrap_error ''failed to read announce response: '' e), sent')
                     else announce_loop f rq env (k + 1) (retry + 1) left reconnected cid uf sent')
                | Inr p \<Rightarrow>
                    (case announce_reply_of (rd_remote r) p of
                       TryAgain e \<Rightarrow>
                         (if left = 0 then (uf, Inl e, sent')
                          else announce_loop f rq env (k + 1) (retry + 1) left reconnected cid uf sent')
                     | Reply resp \<Rightarrow> (uf, Inr (resp, length p), sent')
                     | FinalError err \<Rightarrow>
                         (let msg = error_string err;
                              uf1 = uf\<lparr>uf_connections := gm_del (getName f) (uf_connections uf)\<rparr>
                          in if reconnected then (uf1, Inl (tracker_error msg), sent')
                             else if \<not> shouldReconnectAfterTrackerError msg
                             then (uf1, Inl (tracker_error msg), sent')
                             else (case uf_connect (rd_reconnect r) f uf1 of
                                     (uf2, Inl e, s) \<Rightarrow> (uf2, Inl (reconnect_error msg e), sent' @ s)
                                   | (uf2, Inr cid', s) \<Rightarrow>
                                       announce_loop f rq env (k + 1) retry (Suc left) True cid' uf2
                                         (sent' @ s)))))))"
  by pat_completeness auto
termination
  by (relation "measures [\<lambda>(f, rq, env, k, retry, left, reconnected, cid, uf, sent). left,
      \<lambda>(f, rq, env, k, retry, left, reconnected, cid, uf, sent). if reconnected then 0 else 1]") auto

declare announce_loop.simps [simp del]

text \<open>\<open>AnnounceContext\<close>. The deferred \<open>wg.Done\<close> runs on every return.\<close>

record announce_call =
  ac_now :: gotime
  ac_connect :: connect_env
  ac_rounds :: "nat \<Rightarrow> announce_round"

definition end_task :: "udp_forwarder \<Rightarrow> udp_forwarder" where
  "end_task uf = (case wg_done (uf_tasks uf) of Some ts \<Rightarrow> uf\<lparr>uf_tasks := ts\<rparr> | None \<Rightarrow> uf)"

definition AnnounceContext ::
  "announce_call \<Rightarrow> forward \<Rightarrow> request \<Rightarrow> udp_forwarder \<Rightarrow>
   udp_forwarder \<times> (go_error + response \<times> nat) \<times> bytes list" where
  "AnnounceContext c f rq uf =
     (case tasks_begin (uf_tasks uf) of
        (ts, False) \<Rightarrow> (uf, Inl context_canceled, [])
      | (ts, True) \<Rightarrow>
          (let uf1 = uf\<lparr>uf_tasks := ts\<rparr> in
           if ts_canceled ts then (end_task uf1, Inl context_canceled, [])
           else (case getConnectionID (ac_connect c) (ac_now c) f uf1 of
              (uf2, Inl e, s) \<Rightarrow> (end_task uf2, Inl (wrap_error ''failed to get connection ID: '' e), s)
            | (uf2, Inr cid, s) \<Rightarrow>
                (case announce_loop f rq (ac_rounds c) 0 0 (uf_max_retries uf2) False cid uf2 s of
                   (uf3, res, sent) \<Rightarrow> (end_task uf3, res, sent)))))"

end
