(* ===== verification/UdpLemmas.thy ===== *)
theory UdpLemmas
  imports UdpClient
begin

text \<open>
  The UDP client and the UDP server speak the same protocol: what one writes the other reads back.
  The client answers to nothing but replies with its transaction id and sends a bounded number of
  datagrams; a connection id that the client still uses is one that the server still knows.
\<close>

section \<open>Reading replies\<close>

definition own_reply :: "nat \<Rightarrow> u32 \<Rightarrow> bytes \<Rightarrow> bool" where
  "own_reply buf tid d \<longleftrightarrow> 8 \<le> length (take buf d) \<and> reply_tid (take buf d) = tid"

lemma read_reply_eq:
  "readUDPTrackerResponse buf tid ds err =
     (case filter (own_reply buf tid) ds of [] \<Rightarrow> Inl err | d # _ \<Rightarrow> Inr (take buf d))"
  by (induction buf tid ds err rule: readUDPTrackerResponse.induct)
     (auto simp: own_reply_def reply_tid_def Let_def)

lemma own_reply_fits: "length d \<le> buf \<Longrightarrow> own_reply buf tid d \<longleftrightarrow> 8 \<le> length d \<and> reply_tid d = tid"
  by (simp add: own_reply_def)

section \<open>The handshake\<close>

lemma connect_request_fields:
  "length (connect_request tid) = 16" "get_u64 (bytes_at 0 8 (connect_request tid)) = udp_connect_magic"
  "packet_action (connect_request tid) = udp_action_connect" "packet_tid (connect_request tid) = tid"
proof -
  note d = connect_request_def packet_action_def packet_tid_def
  show "length (connect_request tid) = 16" by (simp add: d)
  show "get_u64 (bytes_at 0 8 (connect_request tid)) = udp_connect_magic" by (simp add: d field_simps_bytes)
  show "packet_action (connect_request tid) = udp_action_connect" by (simp add: d field_simps_bytes)
  show "packet_tid (connect_request tid) = tid" by (simp add: d field_simps_bytes)
qed

lemma connect_reply_read:
  "connect_reply_of (sendConnectResponse udp_action_connect tid cid) = Reply cid"
proof -
  have "get_u64 (bytes_at 8 8 (sendConnectResponse udp_action_connect tid cid)) = cid"
    by (simp add: sendConnectResponse_def field_simps_bytes)
  then show ?thesis
    by (simp add: connect_reply_of_def Let_def udp_actions)
       (simp add: sendConnectResponse_def field_simps_bytes)
qed

section \<open>The announce request\<close>

lemma buildAnnounceRequest_read:
  assumes "length (rq_hash rq) = 20" "length (rq_peer_id rq) = 20"
  shows "read_announce cid udp_action_announce tid (drop 16 (buildAnnounceRequest f rq cid tid)) =
     Some \<lparr>ua_connection_id = cid, ua_action = udp_action_announce, ua_transaction_id = tid,
           ua_info_hash = rq_hash rq, ua_peer_id = rq_peer_id rq, ua_downloaded = rq_downloaded rq,
           ua_left = rq_left rq, ua_uploaded = rq_uploaded rq, ua_event = event_code (rq_event rq),
           ua_ip = announce_ip f, ua_key = 0, ua_num_want = announce_num_want rq,
           ua_port = word_of_int (rq_port rq)\<rparr>"
proof -
  have "drop 16 (buildAnnounceRequest f rq cid tid) =
      rq_hash rq @ rq_peer_id rq
      @ put_u64 (rq_downloaded rq) @ put_u64 (rq_left rq) @ put_u64 (rq_uploaded rq)
      @ put_u32 (event_code (rq_event rq)) @ put_u32 (announce_ip f) @ put_u32 0
      @ put_u32 (announce_num_want rq) @ put_u16 (word_of_int (rq_port rq))"
    by (simp add: buildAnnounceRequest_def)
  then show ?thesis using assms by (simp add: read_announce_def)
qed

lemma buildAnnounceRequest_fields:
  assumes "length (rq_hash rq) = 20" "length (rq_peer_id rq) = 20"
  shows "length (buildAnnounceRequest f rq cid tid) = 98"
    "get_u64 (bytes_at 0 8 (buildAnnounceRequest f rq cid tid)) = cid"
    "get_u32 (bytes_at 8 4 (buildAnnounceRequest f rq cid tid)) = udp_action_announce"
    "get_u32 (bytes_at 12 4 (buildAnnounceRequest f rq cid tid)) = tid"
  using assms by (simp_all add: buildAnnounceRequest_def field_simps_bytes)

lemma event_round_trip: "known_event e \<Longrightarrow> event_string (event_code e) = e"
  by (auto simp: known_event_def event_string_def event_code_def ev_started_def ev_stopped_def ev_completed_def)

lemma announce_num_want_sint:
  assumes "1 \<le> rq_num_want rq" "rq_num_want rq \<le> max_num_want"
  shows "sint (announce_num_want rq) = int (unat (rq_num_want rq))"
proof -
  have pos: "rq_num_want rq > 0" using assms(1) by (metis word_gt_0 word_le_0_iff zero_neq_one)
  have n: "uint (rq_num_want rq) \<le> 200" using assms(2) by (simp add: word_le_def max_num_want_def)
  have w: "announce_num_want rq = ucast (rq_num_want rq)"
    using pos assms(2) by (simp add: announce_num_want_def min_def)
  have z: "0 \<le> uint (rq_num_want rq)" by simp
  have "uint (rq_num_want rq) mod 2 ^ 32 = uint (rq_num_want rq)"
    by (rule mod_pos_pos_trivial [OF z order_le_less_trans [OF n]]) simp
  then have u: "uint (announce_num_want rq) = uint (rq_num_want rq)"
    unfolding w unsigned_ucast_eq take_bit_eq_mod by simp
  have "signed_take_bit 31 (uint (rq_num_want rq)) = uint (rq_num_want rq)"
    by (rule signed_take_bit_int_eq_self; rule order_trans [OF _ z] order_le_less_trans [OF n]) simp_all
  then have "sint (announce_num_want rq) = uint (rq_num_want rq)"
    unfolding sint_uint u by simp
  then show ?thesis by (simp only: uint_nat)
qed


text \<open>What the server makes of an announce sent by this client: the announce is accepted with the
  client's own fields.\<close>

lemma client_fields_accepted:
  assumes "request_ok rq"
  shows "\<exists>r. makeRequest now remote (rq_hash rq) (rq_peer_id rq) (itoa (uint (word_of_int (rq_port rq) :: u16)))
      (nat_digits (unat (rq_uploaded rq))) (nat_digits (unat (rq_downloaded rq))) (nat_digits (unat (rq_left rq)))
      ip (itoa (sint (announce_num_want rq))) (event_string (event_code (rq_event rq))) [] [] [] = Inr r
    \<and> rq_hash r = rq_hash rq \<and> rq_peer_id r = rq_peer_id rq \<and> rq_port r = rq_port rq
    \<and> rq_uploaded r = rq_uploaded rq \<and> rq_downloaded r = rq_downloaded rq \<and> rq_left r = rq_left rq
    \<and> rq_num_want r = rq_num_want rq \<and> rq_event r = rq_event rq \<and> rq_remote r = remote \<and> rq_ip r = ip"
proof -
  have ok: "length (rq_hash rq) = 20" "length (rq_peer_id rq) = 20" "1 \<le> rq_port rq" "rq_port rq \<le> 65535"
    "1 \<le> rq_num_want rq" "rq_num_want rq \<le> max_num_want" "known_event (rq_event rq)"
    using assms by (auto simp: request_ok_def info_hash_valid_def peer_id_valid_def)
  have port: "uint (word_of_int (rq_port rq) :: u16) = rq_port rq"
    using ok(3,4) by (simp add: uint_word_of_int)
  have u64: "parse_uint64 (nat_digits (unat w)) = Inr (unat w)" for w :: u64
    using unsigned_less [of w, where ?'a = nat] by (intro parse_uint64_digits) simp
  have want: "itoa (sint (announce_num_want rq)) = nat_digits (unat (rq_num_want rq))"
    using announce_num_want_sint ok(5,6) by (simp add: itoa_def)
  have norm: "normalizeNumWant (rq_num_want rq) = rq_num_want rq"
    using ok(5,6) by (auto simp: normalizeNumWant_def not_less [symmetric])
  show ?thesis
    unfolding port want event_round_trip [OF ok(7)]
    using ok by (simp add: makeRequest_def parse_field_def atoi_itoa u64 Let_def norm
        info_hash_valid_def peer_id_valid_def)
qed

section \<open>The announce reply\<close>

text \<open>The addresses that fit the family of the reply, with their ports.\<close>

definition udp_wire :: "bool \<Rightarrow> peer list \<Rightarrow> (bytes \<times> int) list" where
  "udp_wire isIPv6 ps =
     List.map_filter (\<lambda>p. map_option (\<lambda>b. (b, p_port p))
       (if isIPv6 then address_IPv6 (p_ip p) else address_IPv4 (p_ip p))) ps"

lemma udp_wire_simps [simp]:
  "udp_wire v6 [] = []"
  "udp_wire v6 (p # ps) = (case (if v6 then address_IPv6 (p_ip p) else address_IPv4 (p_ip p)) of
     None \<Rightarrow> udp_wire v6 ps | Some b \<Rightarrow> (b, p_port p) # udp_wire v6 ps)"
  by (auto simp: udp_wire_def map_filter_simps split: option.splits)

lemma udp_wire_length: "x \<in> set (udp_wire v6 ps) \<Longrightarrow> length (fst x) = (if v6 then 16 else 4)"
  by (induction ps) (auto dest: address_IPv4_length address_IPv6_length split: option.splits if_splits)

lemma udp_peer_eq:
  "udp_peer v6 p = (case (if v6 then address_IPv6 (p_ip p) else address_IPv4 (p_ip p)) of
     None \<Rightarrow> [] | Some b \<Rightarrow> peer_field (b, p_port p))"
  by (auto simp: udp_peer_def peer_field_def port_u16_def ip_to16_def ip_to4_def Let_def
      dest: address_IPv4_length address_IPv6_length split: option.splits)

lemma udp_peers_concat: "concat (map (udp_peer v6) ps) = concat (map peer_field (udp_wire v6 ps))"
  by (induction ps) (auto simp: udp_peer_eq split: option.splits)

lemma udp_reply_peers_wire:
  "udp_reply_peers remote (concat (map (udp_peer (ip_to4 remote = [])) ps)) =
     map read_back (udp_wire (ip_to4 remote = []) ps)"
proof -
  define v6 where "v6 = (ip_to4 remote = [])"
  define w where "w = (if v6 then 16 else 4 :: nat)"
  have len: "\<forall>x \<in> set (map peer_field (udp_wire v6 ps)). length x = w + 2"
    using udp_wire_length [of _ v6 ps] by (fastforce simp: peer_field_def w_def)
  have "chunks (w + 2) (concat (map peer_field (udp_wire v6 ps)) @ []) = map peer_field (udp_wire v6 ps)"
    by (rule chunks_concat [OF _ len]) simp_all
  moreover have "parse_peer_bytes (take w (peer_field x)) (drop w (peer_field x)) = read_back x"
    if "x \<in> set (udp_wire v6 ps)" for x
    using udp_wire_length [OF that] parse_peer_field
    by (cases x) (simp add: peer_field_def w_def)
  ultimately have "map (\<lambda>c. parse_peer_bytes (take w c) (drop w c)) (chunks (w + 2)
      (concat (map peer_field (udp_wire v6 ps)))) = map read_back (udp_wire v6 ps)"
    by simp
  then show ?thesis
    by (cases v6) (simp_all add: udp_peers_concat udp_reply_peers_def v6_def [symmetric] w_def)
qed

lemma announce_reply_read:
  assumes "0 \<le> rs_interval resp" "rs_interval resp < 2 ^ 32" "(ip_to4 remote = []) = (ip_to4 clientIP = [])"
  shows "announce_reply_of remote (sendAnnounceResponse clientIP tid resp) =
     Reply (empty_response\<lparr>rs_interval := rs_interval resp,
              rs_peers := map read_back (udp_wire (ip_to4 clientIP = []) (rs_peers resp))\<rparr>)"
proof -
  let ?d = "sendAnnounceResponse clientIP tid resp"
  have d: "drop 20 ?d = concat (map (udp_peer (ip_to4 remote = [])) (rs_peers resp))"
    using assms(3) by (simp add: sendAnnounceResponse_def)
  have i: "uint (get_u32 (bytes_at 8 4 ?d)) = rs_interval resp"
    using assms(1,2) by (simp add: sendAnnounceResponse_def field_simps_bytes uint_word_of_int)
  have a: "get_u32 (bytes_at 0 4 ?d) = udp_action_announce"
    by (simp add: sendAnnounceResponse_def field_simps_bytes)
  have "length ?d \<ge> 20" by (simp add: sendAnnounceResponse_def)
  then show ?thesis
    unfolding announce_reply_of_def Let_def a i d udp_reply_peers_wire
    using assms(3) by (simp add: udp_actions)
qed

section \<open>What the client sends\<close>

lemma connect_loop_sent:
  "\<exists>n \<le> left. snd (connect_loop tid env retry left sent) = sent @ replicate n (connect_request tid)"
proof (induction left arbitrary: retry sent)
  case 0
  then show ?case by simp
next
  case (Suc left)
  let ?p = "connect_request tid"
  have more: "\<exists>n \<le> Suc left. snd (connect_loop tid env (retry + 1) left (sent @ [?p])) = sent @ replicate n ?p"
  proof -
    from Suc.IH obtain n where "n \<le> left"
      "snd (connect_loop tid env (retry + 1) left (sent @ [?p])) = (sent @ [?p]) @ replicate n ?p" by blast
    then show ?thesis by (intro exI [of _ "Suc n"]) simp
  qed
  have skip: "\<exists>n \<le> Suc left. snd (connect_loop tid env (retry + 1) left sent) = sent @ replicate n ?p"
    using Suc.IH le_SucI by blast
  have none: "\<exists>n \<le> Suc left. sent = sent @ replicate n ?p" by (intro exI [of _ 0]) simp
  have one: "\<exists>n \<le> Suc left. sent @ [?p] = sent @ replicate n ?p" by (intro exI [of _ 1]) simp
  have one0: "\<exists>n \<le> Suc 0. [?p] = replicate n ?p" by (intro exI [of _ 1]) simp
  show ?case
    using more skip none one one0
    by (simp add: Let_def split: option.split sum.split reply.split)
qed

lemma uf_connect_sent:
  "\<exists>n \<le> uf_max_retries uf. snd (snd (uf_connect e f uf)) = replicate n (connect_request (cn_tid e))"
  using connect_loop_sent [of "uf_max_retries uf" "cn_tid e" "cn_attempts e" 0 "[]"]
  by (auto simp: uf_connect_def split: option.splits prod.splits sum.splits)

text \<open>What a connect and an announce change is the connection id of their own tracker.\<close>

definition uf_only :: "string \<Rightarrow> udp_forwarder \<Rightarrow> udp_forwarder \<Rightarrow> bool" where
  "uf_only name uf uf' \<longleftrightarrow> (\<exists>cs. uf' = uf\<lparr>uf_connections := cs\<rparr>
     \<and> (\<forall>n. n \<noteq> name \<longrightarrow> gm_get cs n = gm_get (uf_connections uf) n))"

lemma uf_only_refl [simp]: "uf_only name uf uf"
  unfolding uf_only_def by (intro exI [of _ "uf_connections uf"]) simp

lemma uf_only_trans:
  assumes "uf_only name a b" "uf_only name b c" shows "uf_only name a c"
proof -
  obtain cs ds where "b = a\<lparr>uf_connections := cs\<rparr>" "c = b\<lparr>uf_connections := ds\<rparr>"
    "\<And>n. n \<noteq> name \<Longrightarrow> gm_get cs n = gm_get (uf_connections a) n"
    "\<And>n. n \<noteq> name \<Longrightarrow> gm_get ds n = gm_get (uf_connections b) n"
    using assms unfolding uf_only_def by blast
  then show ?thesis unfolding uf_only_def by (intro exI [of _ ds]) simp
qed

lemma uf_only_put: "uf_only name uf (uf\<lparr>uf_connections := gm_put name e (uf_connections uf)\<rparr>)"
  unfolding uf_only_def by (intro exI [of _ "gm_put name e (uf_connections uf)"]) simp

lemma uf_only_del: "uf_only name uf (uf\<lparr>uf_connections := gm_del name (uf_connections uf)\<rparr>)"
  unfolding uf_only_def by (intro exI [of _ "gm_del name (uf_connections uf)"]) simp

lemma uf_only_own:
  "uf_only name uf uf' \<Longrightarrow>
     \<exists>cs own. uf' = uf\<lparr>uf_connections := cs\<rparr> \<and> gm_get cs = (gm_get (uf_connections uf))(name := own)"
  unfolding uf_only_def by (metis (no_types, lifting) ext fun_upd_apply)

lemma uf_only_retries: "uf_only name uf uf' \<Longrightarrow> uf_max_retries uf' = uf_max_retries uf"
  by (auto simp: uf_only_def)

text \<open>A run of the loop sends at most one datagram per remaining attempt, and for the one reconnect
  a repeated announce and the datagrams of a connect.\<close>

definition loop_budget :: "udp_forwarder \<Rightarrow> nat \<Rightarrow> bool \<Rightarrow> nat" where
  "loop_budget uf left reconnected = left + (if reconnected then 0 else uf_max_retries uf + 1)"

lemma uf_connect_count: "uf_connect e f uf = (uf', r, s) \<Longrightarrow> length s \<le> uf_max_retries uf"
  using uf_connect_sent [of uf e f] by auto

lemma uf_connect_only: "uf_connect e f uf = (uf', r, s) \<Longrightarrow> uf_only (getName f) uf uf'"
  by (auto simp: uf_connect_def uf_only_put split: option.splits prod.splits sum.splits)

text \<open>How a round ends: with a result, with a further attempt, or with a reconnect that succeeds.\<close>

lemma announce_round_cases:
  fixes f rq env k retry left reconnected cid uf sent
  defines "loop \<equiv> announce_loop f rq env k retry (Suc left) reconnected cid uf sent"
  obtains (finished) uf' r s where "loop = (uf', r, sent @ s)"
      "length s \<le> 1 + (if reconnected then 0 else uf_max_retries uf)"
      "uf_only (getName f) uf uf'"
  | (again) s where "loop = announce_loop f rq env (k + 1) (retry + 1) left reconnected cid uf (sent @ s)"
      "length s \<le> 1"
  | (reconnect) cid' uf' s where
      "loop = announce_loop f rq env (k + 1) retry (Suc left) True cid' uf' (sent @ s)"
      "\<not> reconnected" "length s \<le> 1 + uf_max_retries uf"
      "uf_only (getName f) uf uf'"
proof -
  note loop = announce_loop.simps(2) [of f rq env k retry left reconnected cid uf sent, folded loop_def,
      unfolded Let_def]
  show thesis
  proof (cases "waitRetry (rd_attempt (env k)) retry")
    case (Some e)
    then show thesis using finished [of uf "Inl e" "[]"] by (simp add: loop)
  next
    case wait: None
    let ?s = "[buildAnnounceRequest f rq cid (rd_tid (env k))]"
    show thesis
    proof (cases "at_write (rd_attempt (env k))")
      case (Some e)
      then show thesis using wait finished [of uf _ Nil] again [of Nil] by (cases "left = 0") (simp_all add: loop)
    next
      case wr: None
      show thesis
      proof (cases "readUDPTrackerResponse 4096 (rd_tid (env k)) (at_reads (rd_attempt (env k)))
          (at_read_error (rd_attempt (env k)))")
        case (Inl e)
        then show thesis using wait wr finished [of uf _ ?s] again [of ?s] by (cases "left = 0") (simp_all add: loop)
      next
        case read: (Inr p)
        show thesis
        proof (cases "announce_reply_of (rd_remote (env k)) p")
          case (TryAgain e)
          then show thesis
            using wait wr read finished [of uf _ ?s] again [of ?s] by (cases "left = 0") (simp_all add: loop)
        next
          case (Reply resp)
          then show thesis using wait wr read finished [of uf _ ?s] by (simp add: loop)
        next
          case (FinalError err)
          let ?uf = "uf\<lparr>uf_connections := gm_del (getName f) (uf_connections uf)\<rparr>"
          obtain uf2 res s where c: "uf_connect (rd_reconnect (env k)) f ?uf = (uf2, res, s)" by (metis prod_cases3)
          have only: "uf_only (getName f) uf ?uf" "uf_only (getName f) uf uf2"
            using uf_only_del uf_only_trans uf_connect_only [OF c] by blast+
          show thesis
            using wait wr read FinalError c uf_connect_count [OF c] only
              finished [of ?uf _ ?s] finished [of uf2 _ "?s @ s"] reconnect [of _ uf2 "?s @ s"]
            by (cases "reconnected \<or> \<not> shouldReconnectAfterTrackerError (error_string err)"; cases res)
               (auto simp: loop split: if_splits)
        qed
      qed
    qed
  qed
qed

lemma announce_loop_budget:
  "announce_loop f rq env k retry left reconnected cid uf sent = (uf', r, sent') \<Longrightarrow>
     length sent' \<le> length sent + loop_budget uf left reconnected
     \<and> uf_only (getName f) uf uf'"
proof (induction "(left, reconnected)" arbitrary: k retry left reconnected cid uf sent
    rule: wf_induct_rule [OF wf_measures [of "[\<lambda>(left, rec). left, \<lambda>(left, rec). of_bool (\<not> rec)]"]])
  case 1
  show ?case
  proof (cases left)
    case 0
    with "1.prems" show ?thesis by (auto simp: announce_loop.simps(1))
  next
    case (Suc n)
    then show ?thesis
    proof (cases rule: announce_round_cases [of f rq env k retry n reconnected cid uf sent])
      case (finished uf1 r1 s)
      with "1.prems" Suc show ?thesis by (auto simp: loop_budget_def)
    next
      case (again s)
      then have "announce_loop f rq env (k + 1) (retry + 1) n reconnected cid uf (sent @ s) = (uf', r, sent')"
        using "1.prems" Suc by simp
      from "1.hyps" [OF _ this] Suc again(2) show ?thesis by (auto simp: loop_budget_def)
    next
      case (reconnect cid1 uf1 s)
      then have "announce_loop f rq env (k + 1) retry left True cid1 uf1 (sent @ s) = (uf', r, sent')"
        using "1.prems" Suc by simp
      from "1.hyps" [OF _ this] Suc reconnect(2-) show ?thesis
        by (auto simp: loop_budget_def uf_only_retries intro: uf_only_trans)
    qed
  qed
qed

end
