(* ===== verification/Core.thy ===== *)
theory Core
  imports UdpLemmas
begin

text \<open>
  \<open>internal/server/core.go\<close>: the parts of the tracker put together, the forwarders added while it
  runs, and its shutdown. The HTTP and UDP receivers share the storage and the manager of
  \<open>co_tracker\<close>. Goroutines are not part of the state. DNS lookups are the parameter
  \<open>lookup_ip\<close>; of the JSON decoder the code uses two results, which are parameters.
\<close>

section \<open>State\<close>

record core =
  co_tracker :: tracker
  co_connections :: connections
  co_udp_closed :: bool
  co_closed :: bool

definition NewCore ::
  "(string \<Rightarrow> 'e + net_ip list) \<Rightarrow> gotime \<Rightarrow> config \<Rightarrow> core" where
  "NewCore lookup_ip now cfg =
     (let st = NewStorage (cf_age cfg);
          tk = (if cf_forwards cfg \<noteq> [] then
                  (case NewForwarderManager lookup_ip now cfg NewForwarderStorage of
                     (fm, fs) \<Rightarrow> \<lparr>tk_config = cfg, tk_storage = st\<lparr>st_fwd := Some fs\<rparr>, tk_manager = Some fm\<rparr>)
                else \<lparr>tk_config = cfg, tk_storage = st, tk_manager = None\<rparr>)
      in \<lparr>co_tracker = tk, co_connections = [], co_udp_closed = False, co_closed = False\<rparr>)"

text \<open>\<open>ensureForwarderManager\<close>: None when the tracker is closed.\<close>

definition ensureForwarderManager ::
  "(string \<Rightarrow> 'e + net_ip list) \<Rightarrow> gotime \<Rightarrow> core \<Rightarrow> core \<times> fmgr option" where
  "ensureForwarderManager lookup_ip now co =
     (let tk = co_tracker co in
      if co_closed co then (co, None)
      else case tk_manager tk of
        Some fm \<Rightarrow> (co, Some fm)
      | None \<Rightarrow>
          (let fs = (case st_fwd (tk_storage tk) of Some fs \<Rightarrow> fs | None \<Rightarrow> NewForwarderStorage)
           in case NewForwarderManager lookup_ip now (tk_config tk) fs of
                (fm, fs') \<Rightarrow>
                  (co\<lparr>co_tracker := tk\<lparr>tk_storage := (tk_storage tk)\<lparr>st_fwd := Some fs'\<rparr>,
                                       tk_manager := Some fm\<rparr>\<rparr>, Some fm)))"

text \<open>\<open>Close\<close>, which runs once: UDP intake, forwarding and the storage stop in this order.\<close>

definition fm_Stop :: "fmgr \<Rightarrow> fmgr" where
  "fm_Stop fm = fm_clear (fm_signal_stop fm)"

definition core_Close :: "core \<Rightarrow> core" where
  "core_Close co =
     (if co_closed co then co
      else (let co1 = co\<lparr>co_closed := True, co_udp_closed := True\<rparr>; tk = co_tracker co1;
                tk1 = tk\<lparr>tk_manager := map_option fm_Stop (tk_manager tk)\<rparr>
            in co1\<lparr>co_tracker := tk1\<lparr>tk_storage := storage_close (tk_storage tk1)\<rparr>\<rparr>))"

section \<open>Adding forwarders\<close>

text \<open>What a call of the JSON decoder gives: a value, the end of the input, or an error, which for a
  body is one of the three the handler tells apart, with its text.\<close>

datatype body_error = BodyTooLarge string | BodyTimeout string | BodyInvalid string
datatype 'a json_next = JsonValue 'a | JsonEOF | JsonError body_error

definition decodeForwarderRequest ::
  "string list json_next \<Rightarrow> unit json_next \<Rightarrow> body_error + string list" where
  "decodeForwarderRequest first trailing =
     (case first of
        JsonError e \<Rightarrow> Inl e
      | JsonEOF \<Rightarrow> Inr []
      | JsonValue urls \<Rightarrow>
          (case trailing of
             JsonEOF \<Rightarrow> Inr urls
           | JsonError e \<Rightarrow> Inl e
           | JsonValue _ \<Rightarrow> Inl (BodyInvalid ''request body must contain one JSON object'')))"

definition body_status :: "body_error \<Rightarrow> nat \<times> string" where
  "body_status e =
     (case e of BodyTooLarge s \<Rightarrow> (413, s) | BodyTimeout s \<Rightarrow> (408, s) | BodyInvalid s \<Rightarrow> (400, s))"

definition trimmed_urls :: "string list \<Rightarrow> string list" where
  "trimmed_urls us = filter (\<lambda>u. u \<noteq> []) (map trim_space us)"

definition query_urls :: "string \<Rightarrow> string list" where
  "query_urls raw =
     (let q = trim_space (values_get (parse_query raw) ''urls'')
      in if q \<noteq> [] then trimmed_urls (split_on (CHR '','') q) else [])"

record add_result =
  af_url :: string
  af_name :: string
  af_status :: string
  af_error :: "add_error option"

record add_response =
  ad_status :: string
  ad_added :: nat
  ad_failed :: nat
  ad_results :: "add_result list"

definition is_duplicate :: "add_error \<Rightarrow> bool" where
  "is_duplicate e \<longleftrightarrow> (\<exists>n. e = AlreadyExists n)"

lemma is_duplicate_simps [simp, code]:
  "is_duplicate (AlreadyExists n) = True" "is_duplicate ManagerStopped = False" "is_duplicate MissingUrl = False"
  "is_duplicate InvalidUrl = False" "is_duplicate (UnsupportedProtocol s) = False"
  "is_duplicate MissingHostname = False" "is_duplicate (MissingPort h) = False"
  by (simp_all add: is_duplicate_def)

text \<open>The loop over the addresses; the flag is \<open>allDuplicates\<close>.\<close>

fun add_forwarders ::
  "string list \<Rightarrow> fmgr \<times> add_response \<times> bool \<Rightarrow> fmgr \<times> add_response \<times> bool" where
  "add_forwarders [] s = s"
| "add_forwarders (u # us) (fm, resp, dup) =
     (case AddRuntimeForwarder u fm of
        (fm', Inl e) \<Rightarrow>
          add_forwarders us (fm', resp\<lparr>ad_failed := ad_failed resp + 1,
            ad_results := ad_results resp @ [\<lparr>af_url = u, af_name = [], af_status = ''error'', af_error = Some e\<rparr>]\<rparr>,
            dup \<and> is_duplicate e)
      | (fm', Inr f) \<Rightarrow>
          add_forwarders us (fm', resp\<lparr>ad_added := ad_added resp + 1,
            ad_results := ad_results resp @ [\<lparr>af_url = f_uri f, af_name = getName f, af_status = ''added'',
              af_error = None\<rparr>]\<rparr>, dup))"

datatype http_body = PlainText string | AddResponse add_response

definition add_status :: "add_response \<Rightarrow> bool \<Rightarrow> nat \<times> add_response" where
  "add_status resp allDuplicates =
     (if ad_added resp > 0 \<and> ad_failed resp > 0 then (200, resp\<lparr>ad_status := ''partial''\<rparr>)
      else if ad_added resp = 0 \<and> ad_failed resp > 0
      then (if allDuplicates then 409 else 400, resp\<lparr>ad_status := ''failed''\<rparr>)
      else (200, resp))"

definition HTTPAddForwarderHandler ::
  "(string \<Rightarrow> 'e + net_ip list) \<Rightarrow> gotime \<Rightarrow> string \<Rightarrow> string \<Rightarrow> string list json_next \<Rightarrow> unit json_next \<Rightarrow>
   core \<Rightarrow> core \<times> nat \<times> http_body" where
  "HTTPAddForwarderHandler lookup_ip now meth rawQuery first trailing co =
     (if meth \<noteq> ''POST'' \<and> meth \<noteq> ''GET'' then (co, 405, PlainText ''method not allowed'')
      else case (if meth = ''POST'' then decodeForwarderRequest first trailing else Inr []) of
        Inl e \<Rightarrow> (case body_status e of (status, s) \<Rightarrow> (co, status, PlainText (''invalid request body: '' @ s)))
      | Inr body \<Rightarrow>
          (let urls = query_urls rawQuery @ trimmed_urls body in
           if urls = [] then (co, 400, PlainText ''missing forwarder urls (use urls array or ?urls=url1,url2)'')
           else case ensureForwarderManager lookup_ip now co of
             (co1, None) \<Rightarrow> (co1, 503, PlainText ''tracker is shutting down'')
           | (co1, Some fm) \<Rightarrow>
               (case add_forwarders urls (fm, \<lparr>ad_status = ''added'', ad_added = 0, ad_failed = 0,
                       ad_results = []\<rparr>, True) of
                  (fm', resp, dup) \<Rightarrow>
                    (case add_status resp dup of
                       (status, resp') \<Rightarrow>
                         (co1\<lparr>co_tracker := (co_tracker co1)\<lparr>tk_manager := Some fm'\<rparr>\<rparr>, status,
                          AddResponse resp')))))"

section \<open>What adding does\<close>

lemma add_forwarders_result:
  "add_forwarders us (fm, resp, dup) = (fm', resp', dup') \<Longrightarrow>
     \<exists>fs rs. fm_forwarders fm' = fm_forwarders fm @ fs \<and> ad_results resp' = ad_results resp @ rs
       \<and> length rs = length us \<and> ad_added resp' = ad_added resp + length fs
       \<and> ad_added resp' + ad_failed resp' = ad_added resp + ad_failed resp + length us
       \<and> map af_url (filter (\<lambda>r. af_error r = None) rs) = map f_uri fs
       \<and> dup' = (dup \<and> (\<forall>r \<in> set rs. case af_error r of None \<Rightarrow> True | Some e \<Rightarrow> is_duplicate e))
       \<and> ad_status resp' = ad_status resp"
proof (induction us arbitrary: fm resp dup)
  case Nil
  then show ?case by auto
next
  case (Cons u us)
  obtain fm1 r where add: "AddRuntimeForwarder u fm = (fm1, r)" by (metis surj_pair)
  show ?case
  proof (cases r)
    case (Inl e)
    with Cons.prems add obtain fs rs where *: "fm_forwarders fm' = fm_forwarders fm1 @ fs"
      "ad_results resp' = (ad_results resp @ [\<lparr>af_url = u, af_name = [], af_status = ''error'', af_error = Some e\<rparr>]) @ rs"
      "length rs = length us" "ad_added resp' = ad_added resp + length fs"
      "ad_added resp' + ad_failed resp' = ad_added resp + (ad_failed resp + 1) + length us"
      "map af_url (filter (\<lambda>r. af_error r = None) rs) = map f_uri fs"
      "dup' = ((dup \<and> is_duplicate e) \<and> (\<forall>r \<in> set rs. case af_error r of None \<Rightarrow> True | Some e \<Rightarrow> is_duplicate e))"
      "ad_status resp' = ad_status resp"
      using Cons.IH by fastforce
    have "fm1 = fm" using add Inl AddRuntimeForwarder_error by simp
    with * show ?thesis
      by (intro exI [of _ fs] exI [of _ "\<lparr>af_url = u, af_name = [], af_status = ''error'', af_error = Some e\<rparr> # rs"])
         auto
  next
    case (Inr f)
    with Cons.prems add obtain fs rs where *: "fm_forwarders fm' = fm_forwarders fm1 @ fs"
      "ad_results resp' = (ad_results resp @ [\<lparr>af_url = f_uri f, af_name = getName f, af_status = ''added'',
         af_error = None\<rparr>]) @ rs"
      "length rs = length us" "ad_added resp' = (ad_added resp + 1) + length fs"
      "ad_added resp' + ad_failed resp' = (ad_added resp + 1) + ad_failed resp + length us"
      "map af_url (filter (\<lambda>r. af_error r = None) rs) = map f_uri fs"
      "dup' = (dup \<and> (\<forall>r \<in> set rs. case af_error r of None \<Rightarrow> True | Some e \<Rightarrow> is_duplicate e))"
      "ad_status resp' = ad_status resp"
      using Cons.IH by fastforce
    have "fm_forwarders fm1 = fm_forwarders fm @ [f]" using add Inr AddRuntimeForwarder_ok(1) by simp
    with * show ?thesis
      by (intro exI [of _ "f # fs"] exI [of _ "\<lparr>af_url = f_uri f, af_name = getName f, af_status = ''added'',
          af_error = None\<rparr> # rs"]) auto
  qed
qed

lemma AddRuntimeForwarder_names:
  assumes "AddRuntimeForwarder u fm = (fm', r)" "distinct (map getName (fm_forwarders fm))"
  shows "distinct (map getName (fm_forwarders fm'))"
proof (cases r)
  case (Inl e)
  with assms AddRuntimeForwarder_error [of u fm fm' e] show ?thesis by simp
next
  case (Inr f)
  with assms AddRuntimeForwarder_ok(1,4) have "fm_forwarders fm' = fm_forwarders fm @ [f]"
    "\<forall>g \<in> set (fm_forwarders fm). \<not> forwarder_clash (f_uri f) (getName f) g" by blast+
  with assms(2) show ?thesis by (auto simp: forwarder_clash_def)
qed

lemma add_forwarders_names:
  "add_forwarders us (fm, resp, dup) = (fm', resp', dup') \<Longrightarrow>
     distinct (map getName (fm_forwarders fm)) \<Longrightarrow> distinct (map getName (fm_forwarders fm'))"
proof (induction us arbitrary: fm resp dup)
  case (Cons u us)
  obtain fm1 r where add: "AddRuntimeForwarder u fm = (fm1, r)" by (metis surj_pair)
  note d = AddRuntimeForwarder_names [OF add Cons.prems(2)]
  from Cons.prems(1) add show ?case by (cases r) (auto intro: Cons.IH [OF _ d])
qed simp

lemma add_forwarders_jobs:
  "add_forwarders us (fm, resp, dup) = (fm', resp', dup') \<Longrightarrow> jobs_inv fm R \<Longrightarrow> jobs_inv fm' R"
proof (induction us arbitrary: fm resp dup)
  case (Cons u us)
  obtain fm1 r where add: "AddRuntimeForwarder u fm = (fm1, r)" by (metis surj_pair)
  have "jobs_inv fm1 R \<longleftrightarrow> jobs_inv fm R"
    using add by (intro jobs_inv_frame)
      (auto simp: AddRuntimeForwarder_def Let_def split: if_splits option.splits)
  then have "jobs_inv fm1 R" using Cons.prems(2) by simp
  with Cons.prems(1) add show ?case by (cases r) (auto intro: Cons.IH)
qed simp

text \<open>The status of an answer.\<close>

lemma add_status_codes:
  "fst (add_status resp dup) =
     (if ad_failed resp > 0 \<and> ad_added resp = 0 then if dup then 409 else 400 else 200)"
  by (simp add: add_status_def)

section \<open>Closing\<close>

lemma core_Close_idem: "core_Close (core_Close co) = core_Close co"
  by (simp add: core_Close_def Let_def)

lemma fm_Stop_fields [simp]:
  "fm_stopped (fm_Stop fm)" "fm_queue (fm_Stop fm) = []" "fm_pending (fm_Stop fm) = []"
  "fm_scheduled (fm_Stop fm) = []" "fm_capacity (fm_Stop fm) = fm_capacity fm"
  "fm_next_state (fm_Stop fm) = fm_next_state fm" "fm_forwarders (fm_Stop fm) = fm_forwarders fm"
  by (simp_all add: fm_Stop_def fm_clear_def fm_signal_stop_def)

lemma jobs_inv_stop: "jobs_inv fm R \<Longrightarrow> jobs_inv (fm_Stop fm) {}"
  by (simp add: jobs_inv_def owned_def held_jobs_def scheduled_list_def sched_unique_def)

end
