(* ===== verification/StatsView.thy ===== *)
theory StatsView
  imports Core
begin

text \<open>
  The statistics: the two providers (\<open>forwarderStats.go\<close> and \<open>simpleStatsProvider\<close> of \<open>core.go\<close>),
  the client statistics of \<open>storage.go\<close> and \<open>CollectStats\<close> of \<open>internal/observability/stats.go\<close>.
  Go strings are ordered by bytes, which is the lexicographic order of the lists. Where \<open>sort.Slice\<close>
  meets equal keys the model keeps their order; the code leaves it open.
\<close>

section \<open>Clients\<close>

definition client_name :: "request \<Rightarrow> string" where
  "client_name rq =
     (let n = decodeClient (rq_peer_id rq)
      in if n = unknown_client then (if rq_user_agent rq \<noteq> [] then rq_user_agent rq else unknown_client) else n)"

definition client_key :: "request \<Rightarrow> string" where
  "client_key rq =
     (let ip = p_ip (request_peer rq)
      in (if ip = [] then unknown_client else ip) @ CHR '':'' # client_name rq)"

record client_acc =
  ca_hashes :: "string list"
  ca_last :: gotime

definition note_request ::
  "string \<Rightarrow> request \<Rightarrow> (string, client_acc) gomap \<Rightarrow> (string, client_acc) gomap" where
  "note_request hashStr rq m =
     (let key = client_key rq;
          c0 = (case gm_get m key of Some c \<Rightarrow> c | None \<Rightarrow> \<lparr>ca_hashes = [], ca_last = rq_timestamp rq\<rparr>);
          c1 = c0\<lparr>ca_hashes := List.insert hashStr (ca_hashes c0)\<rparr>;
          c2 = (if rq_timestamp rq > ca_last c1 then c1\<lparr>ca_last := rq_timestamp rq\<rparr> else c1)
      in gm_put key c2 m)"

definition collect_clients :: "storage \<Rightarrow> (string, client_acc) gomap" where
  "collect_clients st =
     fold (\<lambda>(h, reqs). fold (\<lambda>(p, rq). note_request (hex_string h) rq) reqs) (st_requests st) []"

record client_info =
  ci_key :: string
  ci_hashes :: nat
  ci_seconds :: int

record client_stats =
  cl_active :: nat
  cl_clients :: "client_info list"

text \<open>\<open>int(t.Seconds())\<close>.\<close>

definition whole_seconds :: "duration \<Rightarrow> int" where
  "whole_seconds d = trunc_rat (dur_seconds d)"

definition GetClientStats :: "gotime \<Rightarrow> storage \<Rightarrow> client_stats" where
  "GetClientStats now st =
     (let clients = collect_clients st
      in \<lparr>cl_active = length clients,
          cl_clients = sort_key ci_key (map (\<lambda>(k, c). \<lparr>ci_key = k, ci_hashes = length (ca_hashes c),
            ci_seconds = whole_seconds (time_sub now (ca_last c))\<rparr>) clients)\<rparr>)"

text \<open>The lines that \<open>printClientStatsInline\<close> logs: the count, then one record per client.\<close>

definition printClientStatsInline :: "gotime \<Rightarrow> storage \<Rightarrow> nat \<times> (string \<times> nat \<times> int) list" where
  "printClientStatsInline now st =
     (let clients = collect_clients st
      in (length clients, map (\<lambda>(k, c). (k, length (ca_hashes c),
            whole_seconds (time_sub now (ca_last c)))) clients))"

section \<open>Peers by hash\<close>

record hash_peer_stat =
  hp_local :: nat
  hp_forwarder :: nat
  hp_complete :: int
  hp_incomplete :: int

definition hash_stat :: "request list \<Rightarrow> peer list \<Rightarrow> hash_peer_stat" where
  "hash_stat reqs peers =
     (case count_forwarded peers (count_local reqs ([], 0, 0)) of
        (seen, c, i) \<Rightarrow> \<lparr>hp_local = length reqs, hp_forwarder = length peers, hp_complete = c, hp_incomplete = i\<rparr>)"

definition simple_hash_stats :: "storage \<Rightarrow> (string, hash_peer_stat) gomap" where
  "simple_hash_stats st =
     fold (\<lambda>(h, reqs) m. gm_put (hex_string h) (hash_stat (map snd reqs) []) m) (st_requests st) []"

text \<open>The peers that the forwarders' cache holds for a hash, expired or not.\<close>

definition cached_peers :: "fwd_storage \<Rightarrow> info_hash \<Rightarrow> peer list" where
  "cached_peers fs h = concat (map (\<lambda>(n, e). fe_peers e) (fs_inner fs h))"

definition all_hashes :: "fwd_storage \<Rightarrow> storage \<Rightarrow> info_hash list" where
  "all_hashes fs st = remdups (map fst (fs_entries fs) @ map fst (st_requests st))"

definition GetHashPeerStats :: "fwd_storage \<Rightarrow> storage \<Rightarrow> (string, hash_peer_stat) gomap" where
  "GetHashPeerStats fs st =
     fold (\<lambda>h m. gm_put (hex_string h) (hash_stat (local_requests st h) (cached_peers fs h)) m)
       (all_hashes fs st) []"

definition GetTrackedHashes :: "fwd_storage \<Rightarrow> storage \<Rightarrow> nat" where
  "GetTrackedHashes fs st =
     length (remdups (map hex_string (map fst (fs_entries fs) @ map fst (st_requests st))))"

section \<open>Forwarders\<close>

record disabled_info =
  di_name :: string
  di_reason :: string
  di_failures :: int
  di_at :: int
  di_seconds :: int

definition unix_time :: "int \<Rightarrow> gotime" where
  "unix_time s = (s + 62135596800) * second"

definition GetDisabledForwarderDetails :: "gotime \<Rightarrow> fmgr \<Rightarrow> disabled_info list" where
  "GetDisabledForwarderDetails now fm =
     sort_key di_name (map (\<lambda>(n, d). \<lparr>di_name = n, di_reason = df_reason d, di_failures = df_failures d,
        di_at = df_at d, di_seconds = max 0 (whole_seconds (time_sub now (unix_time (df_at d))))\<rparr>)
      (fm_disabled fm))"

record suspended_info =
  si_name :: string
  si_reason :: string
  si_at :: int
  si_until :: int
  si_remaining :: int

definition GetSuspendedForwarderDetails :: "gotime \<Rightarrow> fmgr \<Rightarrow> fmgr \<times> suspended_info list" where
  "GetSuspendedForwarderDetails now fm =
     (let live = filter (\<lambda>(n, s). \<not> now > sf_until s) (fm_suspended fm)
      in (fm\<lparr>fm_suspended := live\<rparr>,
          sort_key si_name (map (\<lambda>(n, s). \<lparr>si_name = n, si_reason = sf_reason s, si_at = unix_seconds (sf_at s),
            si_until = unix_seconds (sf_until s),
            si_remaining = max 0 (whole_seconds (time_sub (sf_until s) now))\<rparr>) live)))"

record forwarder_stat =
  fo_name :: string
  fo_protocol :: string
  fo_avg :: duration
  fo_interval :: int
  fo_samples :: int
  fo_fails :: int
  fo_seconds :: int
  fo_has_stats :: bool

definition forwarder_stat_of :: "gotime \<Rightarrow> fmgr \<Rightarrow> forward \<Rightarrow> forwarder_stat" where
  "forwarder_stat_of now fm f =
     (let name = getName f; fails = gm_get_or 0 (fm_fail_counts fm) name;
          none = \<lparr>fo_name = name, fo_protocol = getProtocol f, fo_avg = 0, fo_interval = 0, fo_samples = 0,
                  fo_fails = fails, fo_seconds = 0, fo_has_stats = False\<rparr>
      in case gm_get (fm_stats fm) name of
           None \<Rightarrow> none
         | Some s \<Rightarrow>
             (if fst_samples s > 0 then
                none\<lparr>fo_avg := fst_avg s, fo_interval := fst_last_interval s, fo_samples := fst_samples s,
                     fo_seconds := whole_seconds (time_sub now (fst_last_announce s)), fo_has_stats := True\<rparr>
              else none))"

text \<open>Forwarders with samples come first, by response time; the others follow by name.\<close>

definition stat_rank :: "forwarder_stat \<Rightarrow> nat \<times> duration \<times> string" where
  "stat_rank s = (if fo_has_stats s then (0, fo_avg s, []) else (1, 0, fo_name s))"

definition GetForwarders :: "gotime \<Rightarrow> fmgr \<Rightarrow> forwarder_stat list" where
  "GetForwarders now fm = sort_key stat_rank (map (forwarder_stat_of now fm) (fm_forwarders fm))"

section \<open>The two providers\<close>

text \<open>What \<open>StatsDataProvider\<close> gives: one field for each of its methods.\<close>

record stats_provider =
  pv_config :: config
  pv_pending :: nat
  pv_tracked :: nat
  pv_disabled :: nat
  pv_disabled_details :: "disabled_info list"
  pv_suspended_details :: "suspended_info list"
  pv_active :: nat
  pv_forwarders :: "forwarder_stat list"
  pv_hashes :: "(string, hash_peer_stat) gomap"
  pv_clients :: "client_stats option"
  pv_queue :: "nat \<times> nat \<times> int"
  pv_workers :: "int \<times> int"
  pv_drops :: "nat \<times> nat \<times> nat"

definition GetPendingCount :: "fmgr \<Rightarrow> nat" where
  "GetPendingCount fm = length (fm_pending fm)"

definition GetDisabledForwarders :: "fmgr \<Rightarrow> nat" where
  "GetDisabledForwarders fm = length (fm_disabled fm)"

definition GetActiveForwarders :: "fmgr \<Rightarrow> nat" where
  "GetActiveForwarders fm = length (fm_forwarders fm)"

definition GetQueueMetrics :: "fmgr \<Rightarrow> nat \<times> nat \<times> int" where
  "GetQueueMetrics fm = (length (fm_queue fm), fm_capacity fm, queueFillPct fm)"

definition GetWorkerMetrics :: "fmgr \<Rightarrow> int \<times> int" where
  "GetWorkerMetrics fm = (fm_worker_count fm, fm_max_workers fm)"

definition GetDropCounters :: "fmgr \<Rightarrow> nat \<times> nat \<times> nat" where
  "GetDropCounters fm = (fm_dropped_full fm, fm_rate_limited fm, 0)"

text \<open>The suspended upstreams are read through an operation that also drops the ones whose time is
  over, so the provider comes with the manager it leaves.\<close>

definition forwarderStatsProvider ::
  "gotime \<Rightarrow> config \<Rightarrow> fwd_storage \<Rightarrow> storage \<Rightarrow> fmgr \<Rightarrow> fmgr \<times> stats_provider" where
  "forwarderStatsProvider now cfg fs st fm =
     (case GetSuspendedForwarderDetails now fm of (fm', suspended) \<Rightarrow>
        (fm', \<lparr>pv_config = cfg, pv_pending = GetPendingCount fm, pv_tracked = GetTrackedHashes fs st,
               pv_disabled = GetDisabledForwarders fm,
               pv_disabled_details = GetDisabledForwarderDetails now fm, pv_suspended_details = suspended,
               pv_active = GetActiveForwarders fm, pv_forwarders = GetForwarders now fm,
               pv_hashes = GetHashPeerStats fs st, pv_clients = Some (GetClientStats now st),
               pv_queue = GetQueueMetrics fm, pv_workers = GetWorkerMetrics fm,
               pv_drops = GetDropCounters fm\<rparr>))"

text \<open>Without forwarders the client table is computed by code of its own, with the number of hashes kept
  next to their set.\<close>

record simple_client =
  sc_count :: nat
  sc_last :: gotime
  sc_hashes :: "string list"

definition simple_note ::
  "string \<Rightarrow> request \<Rightarrow> (string, simple_client) gomap \<Rightarrow> (string, simple_client) gomap" where
  "simple_note hashStr rq m =
     (let ip0 = p_ip (request_peer rq);
          ip = (if ip0 = [] then unknown_client else ip0);
          name0 = decodeClient (rq_peer_id rq);
          name = (if name0 = unknown_client
                  then (if rq_user_agent rq \<noteq> [] then rq_user_agent rq else unknown_client) else name0);
          key = ip @ CHR '':'' # name;
          m1 = (if gm_mem key m then m
                else gm_put key \<lparr>sc_count = 0, sc_last = rq_timestamp rq, sc_hashes = []\<rparr> m);
          c0 = (case gm_get m1 key of Some c \<Rightarrow> c | None \<Rightarrow> \<lparr>sc_count = 0, sc_last = rq_timestamp rq, sc_hashes = []\<rparr>);
          hs = List.insert hashStr (sc_hashes c0);
          c1 = c0\<lparr>sc_hashes := hs, sc_count := length hs\<rparr>;
          c2 = (if rq_timestamp rq > sc_last c1 then c1\<lparr>sc_last := rq_timestamp rq\<rparr> else c1)
      in gm_put key c2 m1)"

definition simple_clients :: "storage \<Rightarrow> (string, simple_client) gomap" where
  "simple_clients st =
     fold (\<lambda>(h, reqs). fold (\<lambda>(p, rq). simple_note (hex_string h) rq) reqs) (st_requests st) []"

definition simple_GetClientStats :: "gotime \<Rightarrow> storage \<Rightarrow> client_stats" where
  "simple_GetClientStats now st =
     (let clients = simple_clients st
      in \<lparr>cl_active = length clients,
          cl_clients = sort_key ci_key (map (\<lambda>(k, c). \<lparr>ci_key = k, ci_hashes = sc_count c,
            ci_seconds = whole_seconds (time_sub now (sc_last c))\<rparr>) clients)\<rparr>)"

definition simple_GetTrackedHashes :: "storage \<Rightarrow> nat" where
  "simple_GetTrackedHashes st = length (st_requests st)"

definition simpleStatsProvider :: "gotime \<Rightarrow> config \<Rightarrow> storage \<Rightarrow> stats_provider" where
  "simpleStatsProvider now cfg st =
     \<lparr>pv_config = cfg, pv_pending = 0, pv_tracked = simple_GetTrackedHashes st, pv_disabled = 0,
      pv_disabled_details = [], pv_suspended_details = [], pv_active = 0, pv_forwarders = [],
      pv_hashes = simple_hash_stats st, pv_clients = Some (simple_GetClientStats now st),
      pv_queue = (0, 0, 0), pv_workers = (0, 0), pv_drops = (0, 0, 0)\<rparr>"

text \<open>\<open>HTTPStatsHandler\<close> chooses between them.\<close>

definition stats_provider_of :: "gotime \<Rightarrow> tracker \<Rightarrow> tracker \<times> stats_provider" where
  "stats_provider_of now tk =
     (case tk_manager tk of
        Some fm \<Rightarrow>
          (let fs = (case st_fwd (tk_storage tk) of Some fs \<Rightarrow> fs | None \<Rightarrow> NewForwarderStorage)
           in case forwarderStatsProvider now (tk_config tk) fs (tk_storage tk) fm of
                (fm', pv) \<Rightarrow> (tk\<lparr>tk_manager := Some fm'\<rparr>, pv))
      | None \<Rightarrow> (tk, simpleStatsProvider now (tk_config tk) (tk_storage tk)))"

section \<open>Collecting\<close>

record stats =
  sx_config :: config
  sx_pending :: nat
  sx_tracked :: nat
  sx_disabled :: nat
  sx_suspended :: nat
  sx_active :: nat
  sx_disabled_details :: "disabled_info list"
  sx_suspended_details :: "suspended_info list"
  sx_forwarders :: "forwarder_stat list"
  sx_hashes :: "(string, hash_peer_stat) gomap"
  sx_clients :: "client_stats option"
  sx_depth :: nat
  sx_capacity :: nat
  sx_fill :: int
  sx_workers :: int
  sx_max_workers :: int
  sx_dropped :: nat
  sx_limited :: nat
  sx_throttled :: nat

definition CollectStats :: "stats_provider \<Rightarrow> stats" where
  "CollectStats pv =
     (let (depth, capacity, fill) = pv_queue pv; (active, most) = pv_workers pv;
          (dropped, limited, throttled) = pv_drops pv
      in \<lparr>sx_config = pv_config pv, sx_pending = pv_pending pv, sx_tracked = pv_tracked pv,
          sx_disabled = pv_disabled pv, sx_suspended = length (pv_suspended_details pv),
          sx_active = pv_active pv, sx_disabled_details = pv_disabled_details pv,
          sx_suspended_details = pv_suspended_details pv, sx_forwarders = pv_forwarders pv,
          sx_hashes = pv_hashes pv, sx_clients = pv_clients pv, sx_depth = depth,
          sx_capacity = capacity, sx_fill = fill, sx_workers = active, sx_max_workers = most,
          sx_dropped = dropped, sx_limited = limited, sx_throttled = throttled\<rparr>)"

record simple_stats =
  ss_pending :: nat
  ss_tracked :: nat
  ss_disabled :: nat
  ss_suspended :: nat
  ss_active :: nat
  ss_workers :: int
  ss_clients :: nat

definition CollectSimpleStats :: "stats_provider \<Rightarrow> simple_stats" where
  "CollectSimpleStats pv =
     \<lparr>ss_pending = pv_pending pv, ss_tracked = pv_tracked pv, ss_disabled = pv_disabled pv,
      ss_suspended = length (pv_suspended_details pv), ss_active = pv_active pv,
      ss_workers = fst (pv_workers pv),
      ss_clients = (case pv_clients pv of Some c \<Rightarrow> cl_active c | None \<Rightarrow> 0)\<rparr>"

section \<open>Both providers agree\<close>

text \<open>The simple client table is the other one with the counts spelled out.\<close>

definition simple_of :: "client_acc \<Rightarrow> simple_client" where
  "simple_of c = \<lparr>sc_count = length (ca_hashes c), sc_last = ca_last c, sc_hashes = ca_hashes c\<rparr>"

lemma simple_note_key:
  "simple_note hs rq m =
     (let m1 = (if gm_mem (client_key rq) m then m
                else gm_put (client_key rq) \<lparr>sc_count = 0, sc_last = rq_timestamp rq, sc_hashes = []\<rparr> m);
          c0 = (case gm_get m1 (client_key rq) of
                  Some c \<Rightarrow> c | None \<Rightarrow> \<lparr>sc_count = 0, sc_last = rq_timestamp rq, sc_hashes = []\<rparr>);
          c1 = c0\<lparr>sc_hashes := List.insert hs (sc_hashes c0), sc_count := length (List.insert hs (sc_hashes c0))\<rparr>
      in gm_put (client_key rq)
           (if rq_timestamp rq > sc_last c1 then c1\<lparr>sc_last := rq_timestamp rq\<rparr> else c1) m1)"
  by (simp only: simple_note_def client_key_def client_name_def Let_def)

lemma simple_note_step:
  "simple_note hs rq (map (\<lambda>(k, c). (k, simple_of c)) m) = map (\<lambda>(k, c). (k, simple_of c)) (note_request hs rq m)"
proof -
  have put: "map (\<lambda>(k, c). (k, g c)) (gm_put k c m') = gm_put k (g c) (map (\<lambda>(k, c). (k, g c)) m')"
    for k c m' and g :: "client_acc \<Rightarrow> simple_client" by (induction m') auto
  have twice: "gm_put k v (gm_put k v' m') = gm_put k v m'" for k and v v' :: simple_client and m'
    by (induction m') auto
  show ?thesis
    unfolding simple_note_key note_request_def
    by (cases "gm_get m (client_key rq)") (simp_all add: Let_def gm_get_map_snd twice put simple_of_def)
qed

lemma simple_clients_eq: "simple_clients st = map (\<lambda>(k, c). (k, simple_of c)) (collect_clients st)"
proof -
  have "fold (\<lambda>(p, rq). simple_note hs rq) reqs (map (\<lambda>(k, c). (k, simple_of c)) m) =
      map (\<lambda>(k, c). (k, simple_of c)) (fold (\<lambda>(p, rq). note_request hs rq) reqs m)"
    for hs m and reqs :: "(peer_id \<times> request) list"
    by (induction reqs arbitrary: m) (auto simp: simple_note_step)
  then have "fold (\<lambda>(h, reqs). fold (\<lambda>(p, rq). simple_note (hex_string h) rq) reqs) rs
        (map (\<lambda>(k, c). (k, simple_of c)) m) =
      map (\<lambda>(k, c). (k, simple_of c))
        (fold (\<lambda>(h, reqs). fold (\<lambda>(p, rq). note_request (hex_string h) rq) reqs) rs m)"
    for m and rs :: "(info_hash \<times> (peer_id, request) gomap) list"
    by (induction rs arbitrary: m) auto
  from this [where m = Nil] show ?thesis by (simp add: simple_clients_def collect_clients_def)
qed

lemma simple_GetClientStats_eq: "simple_GetClientStats now st = GetClientStats now st"
  unfolding simple_GetClientStats_def GetClientStats_def Let_def simple_clients_eq
  by (simp add: simple_of_def comp_def split_def)

section \<open>What the client statistics count\<close>

text \<open>Every request with the name of its hash, in iteration order.\<close>

definition hashed_requests :: "storage \<Rightarrow> (string \<times> request) list" where
  "hashed_requests st = concat (map (\<lambda>(h, reqs). map (\<lambda>(p, rq). (hex_string h, rq)) reqs) (st_requests st))"

lemma collect_clients_flat:
  "collect_clients st = fold (\<lambda>(hs, rq). note_request hs rq) (hashed_requests st) []"
proof -
  have "fold (\<lambda>(h, reqs). fold (\<lambda>(p, rq). note_request (hex_string h) rq) reqs) rs m =
      fold (\<lambda>(hs, rq). note_request hs rq)
        (concat (map (\<lambda>(h, reqs). map (\<lambda>(p, rq). (hex_string h, rq)) reqs) rs)) m" for rs m
    by (induction rs arbitrary: m) (auto simp: fold_map comp_def case_prod_unfold)
  then show ?thesis by (simp add: collect_clients_def hashed_requests_def)
qed

text \<open>The entry of a client for a list of requests.\<close>

definition client_entry :: "(string \<times> request) list \<Rightarrow> string \<Rightarrow> client_acc option \<Rightarrow> bool" where
  "client_entry xs k c \<longleftrightarrow>
     (let mine = {x \<in> set xs. client_key (snd x) = k} in
      case c of
        None \<Rightarrow> mine = {}
      | Some c \<Rightarrow> mine \<noteq> {} \<and> distinct (ca_hashes c) \<and> set (ca_hashes c) = fst ` mine
                  \<and> ca_last c \<in> rq_timestamp ` snd ` mine
                  \<and> (\<forall>x \<in> mine. rq_timestamp (snd x) \<le> ca_last c))"

lemma note_request_entry:
  assumes "\<And>k. client_entry xs k (gm_get m k)"
  shows "client_entry (xs @ [(hs, rq)]) k (gm_get (note_request hs rq m) k)"
proof (cases "client_key rq = k")
  case False
  have "gm_get (note_request hs rq m) k = gm_get m k" using False by (simp add: note_request_def Let_def)
  moreover have "{x \<in> set (xs @ [(hs, rq)]). client_key (snd x) = k} = {x \<in> set xs. client_key (snd x) = k}"
    using False by auto
  ultimately show ?thesis using assms [of k] unfolding client_entry_def by simp
next
  case True
  have mine: "{x \<in> set (xs @ [(hs, rq)]). client_key (snd x) = k} =
      insert (hs, rq) {x \<in> set xs. client_key (snd x) = k}" using True by auto
  show ?thesis
  proof (cases "gm_get m k")
    case None
    with assms [of k] have e: "{x \<in> set xs. client_key (snd x) = k} = {}" by (simp add: client_entry_def Let_def)
    have "gm_get (note_request hs rq m) k = Some \<lparr>ca_hashes = [hs], ca_last = rq_timestamp rq\<rparr>"
      using None True by (simp add: note_request_def Let_def)
    then show ?thesis by (simp add: client_entry_def Let_def mine e del: set_append)
  next
    case (Some c)
    let ?M = "{x \<in> set xs. client_key (snd x) = k}"
    have c: "?M \<noteq> {}" "distinct (ca_hashes c)" "set (ca_hashes c) = fst ` ?M"
      "ca_last c \<in> rq_timestamp ` snd ` ?M" "\<forall>x \<in> ?M. rq_timestamp (snd x) \<le> ca_last c"
      using assms [of k] unfolding client_entry_def Let_def Some option.case by blast+
    have "gm_get (note_request hs rq m) k = Some \<lparr>ca_hashes = List.insert hs (ca_hashes c),
        ca_last = max (ca_last c) (rq_timestamp rq)\<rparr>"
      using Some True by (cases c) (auto simp: note_request_def Let_def max_def)
    moreover have "max (ca_last c) (rq_timestamp rq) \<in> rq_timestamp ` snd ` insert (hs, rq) ?M"
      using c(4) by (auto simp: max_def)
    moreover have "\<forall>x \<in> insert (hs, rq) ?M. rq_timestamp (snd x) \<le> max (ca_last c) (rq_timestamp rq)"
      using c(5) by (auto simp: le_max_iff_disj)
    ultimately show ?thesis
      using c(1-3) unfolding client_entry_def Let_def mine by simp
  qed
qed

lemma collect_clients_entry: "client_entry (hashed_requests st) k (gm_get (collect_clients st) k)"
proof -
  have "client_entry xs k (gm_get (fold (\<lambda>(hs, rq). note_request hs rq) xs []) k)" for xs k
  proof (induction xs arbitrary: k rule: rev_induct)
    case Nil
    then show ?case by (simp add: client_entry_def Let_def)
  next
    case (snoc x xs)
    from note_request_entry [OF snoc] show ?case by (cases x) simp
  qed
  then show ?thesis by (simp add: collect_clients_flat)
qed

lemma collect_clients_wf: "gm_wf (collect_clients st)"
  unfolding collect_clients_flat
  by (rule fold_keeps [where Q = gm_wf]) (auto simp: note_request_def Let_def)

lemma hashed_requests_set:
  assumes "requests_wf st"
  shows "set (hashed_requests st) = {(hex_string h, rq) | h p rq. st_get st h p = Some rq}"
proof -
  have wf: "gm_wf (st_requests st)" and inner: "gm_get (st_requests st) h = Some m \<Longrightarrow> gm_wf m" for h m
    using assms by (auto simp: requests_wf_def)
  have look: "st_get st h p = Some rq \<longleftrightarrow> (\<exists>m. (h, m) \<in> set (st_requests st) \<and> (p, rq) \<in> set m)" for h p rq
  proof (cases "gm_get (st_requests st) h")
    case None
    then show ?thesis by (simp add: gm_in_set [OF wf] st_get_def st_inner_def gm_get_or_def)
  next
    case (Some m)
    with gm_in_set [OF inner [OF Some], of p rq] show ?thesis
      by (simp add: gm_in_set [OF wf] st_get_def st_inner_def gm_get_or_def)
  qed
  have "x \<in> set (hashed_requests st) \<longleftrightarrow>
      (\<exists>h m p rq. (h, m) \<in> set (st_requests st) \<and> (p, rq) \<in> set m \<and> x = (hex_string h, rq))" for x
  proof
    assume "x \<in> set (hashed_requests st)"
    then obtain y where y: "y \<in> set (st_requests st)" "x \<in> (\<lambda>(p, rq). (hex_string (fst y), rq)) ` set (snd y)"
      unfolding hashed_requests_def by (auto simp: case_prod_beta)
    from y(2) obtain p rq where "(p, rq) \<in> set (snd y)" "x = (hex_string (fst y), rq)" by auto
    with y(1) show "\<exists>h m p rq. (h, m) \<in> set (st_requests st) \<and> (p, rq) \<in> set m \<and> x = (hex_string h, rq)"
      by (metis prod.collapse)
  next
    assume "\<exists>h m p rq. (h, m) \<in> set (st_requests st) \<and> (p, rq) \<in> set m \<and> x = (hex_string h, rq)"
    then obtain h m p rq where "(h, m) \<in> set (st_requests st)" "(p, rq) \<in> set m" "x = (hex_string h, rq)"
      by blast
    then show "x \<in> set (hashed_requests st)"
      by (auto simp: hashed_requests_def intro!: bexI [of _ "(h, m)"] image_eqI [of _ _ "(p, rq)"])
  qed
  then show ?thesis unfolding look by blast
qed

end
