(* ===== verification/FwdLemmas.thy ===== *)
theory FwdLemmas
  imports FwdAnnounce
begin

text \<open>
  Properties of \<open>FwdAnnounce\<close>: bounds on what is read and how often is retried, which results
  disable or suspend a forwarder, that the result of an ended session changes nothing, that only
  routable peers are cached, and that the job bookkeeping survives the work of a worker.
\<close>

section \<open>Reading bounds\<close>

lemma readHTTP_iff:
  "readHTTPAnnounceResponse cl (content, err) = Inr p \<longleftrightarrow>
     cl \<le> int maxForwarderHTTPResponseBytes \<and> length content \<le> maxForwarderHTTPResponseBytes
     \<and> err = None \<and> p = content"
  by (auto simp: readHTTPAnnounceResponse_def read_limited_def split: option.splits if_splits)

section \<open>Failure results\<close>

lemma buildFailure_flags:
  "ar_success (buildFailureResult d e) = False" "ar_deferred (buildFailureResult d e) = False"
  "ar_suspend (buildFailureResult d e) \<Longrightarrow> \<not> ar_non_retryable (buildFailureResult d e)"
  by (auto simp: buildFailureResult_def Let_def empty_result_def dest: suspend_not_permanent)

lemma buildFailure_rejection:
  "isTrackerRejection code \<Longrightarrow> ar_non_retryable (buildFailureResult d (Some (http_status_error code status)))"
  using classify_rejection_error [of code]
  by (auto simp: buildFailureResult_def http_status_error_def Let_def isPermanentErr_def split: option.splits)

lemma buildFailure_429:
  "ar_suspend (buildFailureResult d (Some (http_status_error 429 status)))"
  using classify_429_error [of status]
  by (auto simp: buildFailureResult_def http_status_error_def isTrackerRejection_def Let_def
      shouldSuspendErr_def split: option.splits)

section \<open>The retry loop\<close>

definition attempt_actions :: "config \<Rightarrow> nat \<Rightarrow> http_action list" where
  "attempt_actions cfg i = (if 0 < i then [Waited (retry_wait cfg i)] else []) @ [Attempted]"

text \<open>An attempt that neither a stop nor the end of the session interrupts, and whose outcome is to be retried.\<close>

definition retried :: "(bytes \<Rightarrow> go_error + response) \<Rightarrow> announce_job \<Rightarrow> http_attempt \<Rightarrow> bool" where
  "retried decode job a \<longleftrightarrow> \<not> ha_stopping a \<and> \<not> ha_canceled a \<and> ha_wait a = TimerFired
     \<and> (\<forall>s. let r = snd (doSingleHTTPRequest decode job a s)
            in \<not> ar_success r \<and> \<not> ar_deferred r \<and> \<not> ar_non_retryable r \<and> \<not> ar_suspend r)"

lemma http_loop_step:
  fixes env retry s
  defines "a \<equiv> env retry" and "cfg \<equiv> fm_config (fst s)"
  assumes "doSingleHTTPRequest decode job a s = (s1, r1)"
  obtains (aborted) r where "http_loop decode job env retry (Suc left) lastErr acts s = (s, r, acts)" "\<not> retried decode job a"
  | (cut) r where "0 < retry" "\<not> retried decode job a"
      "http_loop decode job env retry (Suc left) lastErr acts s = (s, r, acts @ [Waited (retry_wait cfg retry)])"
  | (ended) "http_loop decode job env retry (Suc left) lastErr acts s = (s1, r1, acts @ attempt_actions cfg retry)"
      "\<not> retried decode job a"
  | (again) "http_loop decode job env retry (Suc left) lastErr acts s =
      http_loop decode job env (retry + 1) left (ar_error r1) (acts @ attempt_actions cfg retry) s1"
proof -
  define acts' where "acts' = (if retry > 0 then acts @ [Waited (retry_wait cfg retry)] else acts)"
  have acts': "acts' @ [Attempted] = acts @ attempt_actions cfg retry"
    by (simp add: acts'_def attempt_actions_def)
  have step: "http_loop decode job env retry (Suc left) lastErr acts s =
      (if ha_stopping a \<or> ha_canceled a then (s, buildFailureResult (ha_elapsed a) (Some context_canceled), acts)
       else if retry > 0 \<and> ha_wait a \<noteq> TimerFired
       then (s, buildFailureResult (ha_elapsed a) (Some context_canceled), acts')
       else if ar_success r1 \<or> ar_deferred r1 \<or> ar_non_retryable r1 \<or> ar_suspend r1 then (s1, r1, acts' @ [Attempted])
       else http_loop decode job env (retry + 1) left (ar_error r1) (acts' @ [Attempted]) s1)"
    using assms(3) unfolding a_def cfg_def
    by (simp only: http_loop.simps Let_def prod.case acts'_def cfg_def split: if_split) blast
  have r1: "snd (doSingleHTTPRequest decode job a s) = r1" using assms(3) by simp
  have "\<not> retried decode job a" if "ha_stopping a \<or> ha_canceled a \<or> ha_wait a \<noteq> TimerFired
      \<or> ar_success r1 \<or> ar_deferred r1 \<or> ar_non_retryable r1 \<or> ar_suspend r1"
    using that r1 unfolding retried_def Let_def by metis
  note no = this
  consider "ha_stopping a \<or> ha_canceled a" | "\<not> (ha_stopping a \<or> ha_canceled a)" "retry > 0 \<and> ha_wait a \<noteq> TimerFired"
    | "\<not> (ha_stopping a \<or> ha_canceled a)" "\<not> (retry > 0 \<and> ha_wait a \<noteq> TimerFired)"
      "ar_success r1 \<or> ar_deferred r1 \<or> ar_non_retryable r1 \<or> ar_suspend r1"
    | "\<not> (ha_stopping a \<or> ha_canceled a)" "\<not> (retry > 0 \<and> ha_wait a \<noteq> TimerFired)"
      "\<not> (ar_success r1 \<or> ar_deferred r1 \<or> ar_non_retryable r1 \<or> ar_suspend r1)" by blast
  then show thesis
  proof cases
    case 1
    with no have "\<not> retried decode job a" by blast
    with 1 step show ?thesis by (intro aborted) (simp del: http_loop.simps)+
  next
    case 2
    with no have "\<not> retried decode job a" by blast
    with 2 step show ?thesis by (intro cut) (simp add: acts'_def del: http_loop.simps)+
  next
    case 3
    with no have "\<not> retried decode job a" by blast
    with step show ?thesis
      unfolding acts' if_not_P [OF 3(1)] if_not_P [OF 3(2)] if_P [OF 3(3)] by (rule ended)
  next
    case 4
    from step show ?thesis
      unfolding acts' if_not_P [OF 4(1)] if_not_P [OF 4(2)] if_not_P [OF 4(3)] by (rule again)
  qed
qed

text \<open>The loop does one round after the other, the last perhaps only up to its wait; when nothing interrupts it
  and every outcome is to be retried it makes all of its attempts and fails.\<close>

lemma http_loop_actions:
  assumes "http_loop decode job env retry left lastErr acts s = (s', r, acts')"
    and cfg: "\<And>s a. fm_config (fst (fst (doSingleHTTPRequest decode job a s))) = fm_config (fst s)"
  shows "\<exists>k \<le> left. \<exists>cut.
      acts' = acts @ concat (map (attempt_actions (fm_config (fst s))) [retry..<retry + k])
        @ (if cut then [Waited (retry_wait (fm_config (fst s)) (retry + k))] else [])
      \<and> (cut \<longrightarrow> 0 < retry + k \<and> k < left)
      \<and> ((\<forall>i \<in> {retry..<retry + left}. retried decode job (env i)) \<longrightarrow> k = left \<and> \<not> ar_success r)"
  using assms(1)
proof (induction left arbitrary: retry lastErr acts s)
  case 0
  then have "acts' = acts" "\<not> ar_success r" by (auto simp: buildFailure_flags)
  then show ?case by (intro exI [of _ 0] conjI exI [of _ False]) simp_all
next
  case (Suc left)
  obtain s1 r1 where d: "doSingleHTTPRequest decode job (env retry) s = (s1, r1)" by (metis surj_pair)
  have c: "fm_config (fst s1) = fm_config (fst s)" using cfg [of "env retry" s] d by simp
  have acts: "snd (snd (http_loop decode job env retry (Suc left) lastErr acts s)) = acts'"
    unfolding Suc.prems by simp
  from d show ?case
  proof (cases rule: http_loop_step [where left = left and lastErr = lastErr and acts = acts])
    case (aborted r0)
    have "acts' = acts" using acts unfolding aborted(1) by simp
    with aborted(2) show ?thesis by (intro exI [of _ 0] conjI exI [of _ False]) auto
  next
    case (cut r0)
    have "acts' = acts @ [Waited (retry_wait (fm_config (fst s)) retry)]" using acts unfolding cut(3) by simp
    with cut(1,2) show ?thesis by (intro exI [of _ 0] conjI exI [of _ True]) auto
  next
    case ended
    have "acts' = acts @ attempt_actions (fm_config (fst s)) retry" using acts unfolding ended(1) by simp
    with ended(2) show ?thesis by (intro exI [of _ 1] conjI exI [of _ False]) auto
  next
    case again
    from Suc.IH [OF Suc.prems [unfolded again]] obtain k b where k: "k \<le> left"
      "acts' = (acts @ attempt_actions (fm_config (fst s)) retry)
         @ concat (map (attempt_actions (fm_config (fst s))) [retry + 1..<retry + 1 + k])
         @ (if b then [Waited (retry_wait (fm_config (fst s)) (retry + 1 + k))] else [])"
      "b \<longrightarrow> k < left" "(\<forall>i \<in> {retry + 1..<retry + 1 + left}. retried decode job (env i)) \<longrightarrow> k = left \<and> \<not> ar_success r"
      unfolding c by blast
    have "[retry..<retry + Suc k] = retry # [retry + 1..<retry + 1 + k]" by (simp add: upt_conv_Cons)
    with k show ?thesis by (intro exI [of _ "Suc k"] conjI exI [of _ b]) auto
  qed
qed

section \<open>The job bookkeeping\<close>

lemma doSingle_state:
  "fst (doSingleHTTPRequest decode job a s) = s
   \<or> (\<exists>reason retryIn. fst (doSingleHTTPRequest decode job a s) =
        fst (handleRetryError (ha_done a) (ha_now a) job reason retryIn s))"
proof (cases "ha_reply a")
  case (HttpReply code status cl b)
  show ?thesis
  proof (cases "code = 200")
    case True
    show ?thesis
    proof (cases "readHTTPAnnounceResponse cl b")
      case (Inl e)
      with HttpReply True show ?thesis by (simp add: doSingleHTTPRequest_def)
    next
      case read: (Inr payload)
      show ?thesis
      proof (cases "decode payload")
        case (Inl e)
        with HttpReply True read show ?thesis by (simp add: doSingleHTTPRequest_def)
      next
        case (Inr resp)
        show ?thesis
          using HttpReply True read Inr
          by (cases "rs_failure resp = []";
              cases "snd (handleRetryError (ha_done a) (ha_now a) job (rs_failure resp) (rs_retry_in resp) s)")
             (auto simp: doSingleHTTPRequest_def Let_def case_prod_beta)
      qed
    qed
  next
    case False
    with HttpReply show ?thesis by (simp add: doSingleHTTPRequest_def)
  qed
qed (simp_all add: doSingleHTTPRequest_def)

lemma jobs_inv_doSingle:
  assumes "jobs_inv (fst s) R" "job \<in> R"
  shows "jobs_inv (fst (fst (doSingleHTTPRequest decode job a s))) R"
proof -
  obtain fm fs where s: "s = (fm, fs)" by (cases s)
  have "jobs_inv (fst (fst (handleRetryError don now job reason retryIn s))) R" for don now reason retryIn
    using jobs_inv_retry assms s by simp
  then show ?thesis
    using assms(1) doSingle_state [of decode job a s] by metis
qed

lemma jobs_inv_http_loop:
  "jobs_inv (fst s) R \<Longrightarrow> job \<in> R \<Longrightarrow>
     jobs_inv (fst (fst (http_loop decode job env retry left lastErr acts s))) R"
proof (induction left arbitrary: retry lastErr acts s)
  case (Suc left)
  obtain s1 r1 where d: "doSingleHTTPRequest decode job (env retry) s = (s1, r1)" by (metis surj_pair)
  have "jobs_inv (fst s1) R" using jobs_inv_doSingle [OF Suc.prems, of decode "env retry"] d by simp
  with Suc show ?case by (auto simp: Let_def d)
qed simp

lemma jobs_inv_register: "jobs_inv (fst (registerFailure now name s)) R \<longleftrightarrow> jobs_inv (fst s) R"
proof -
  obtain fm fs where s: "s = (fm, fs)" by (cases s)
  have "jobs_inv (fm\<lparr>fm_fail_counts := x\<rparr>) R \<longleftrightarrow> jobs_inv fm R" for x by (rule jobs_inv_frame) simp_all
  then show ?thesis by (simp add: s registerFailure_def Let_def jobs_inv_disable)
qed

lemma jobs_inv_bookkeeping:
  "jobs_inv (resetFailure name fm) R \<longleftrightarrow> jobs_inv fm R"
  "jobs_inv (recordStats now name d i fm) R \<longleftrightarrow> jobs_inv fm R"
  "jobs_inv (suspendForwarderWithReason now name d reason fm) R \<longleftrightarrow> jobs_inv fm R"
  by (rule jobs_inv_frame;
      simp add: resetFailure_def recordStats_def suspendForwarderWithReason_def Let_def)+

text \<open>The handling of a result without the checks that repeat: nothing happens for a deferred
  result, an ended session or a stopped manager.\<close>

definition apply_result ::
  "gotime \<Rightarrow> announce_job \<Rightarrow> bool \<Rightarrow> announce_result \<Rightarrow> fmgr \<times> fwd_storage \<Rightarrow> fmgr \<times> fwd_storage" where
  "apply_result now job publish r s =
     (let n = getName (aj_forwarder job); fm = fst s; fs = snd s in
      if ar_success r then
        (recordStats now n (ar_duration r) (ar_interval r) (if ar_peers r \<noteq> [] then resetFailure n fm else fm),
         UpdatePeers now (aj_hash job) n (ar_peers r) (ar_interval r) fs)
      else if ar_suspend r then
        (suspendForwarderWithReason now n (suspend_duration (fm_config fm))
           (case ar_error r of Some e \<Rightarrow> error_string e | None \<Rightarrow> []) fm, fs)
      else let s1 = (if ar_non_retryable r then disableForwarder now n (disableReasonForError (ar_error r)) s
                     else registerFailure now n s)
           in if isDisabled (fst s1) n \<or> \<not> publish then s1 else (fst s1, UpdatePeers now (aj_hash job) n [] 60 (snd s1)))"

lemma registerFailure_stopped: "fm_stopped (fst (registerFailure now name s)) = fm_stopped (fst s)"
  by (cases s) (simp add: registerFailure_def Let_def disable_frame)

lemma result_eq:
  "handleAnnounceResult don now job r s =
     (if ar_deferred r \<or> canceled (don 0) job \<or> canceled (don 1) job \<or> fm_stopped (fst s) then s
      else apply_result now job (\<not> canceled (don 2) job) (route_filter r) s)"
proof (cases s)
  case (Pair fm fs)
  show ?thesis
  proof (cases "ar_deferred r \<or> canceled (don 0) job \<or> canceled (don 1) job \<or> fm_stopped fm")
    case True
    then show ?thesis by (auto simp: Pair handleAnnounceResult_def Let_def updatePeerCache_def)
  next
    case live: False
    let ?n = "getName (aj_forwarder job)"
    obtain fm1 fs1 where s1: "(if ar_non_retryable (route_filter r)
        then disableForwarder now ?n (disableReasonForError (ar_error (route_filter r))) (fm, fs)
        else registerFailure now ?n (fm, fs)) = (fm1, fs1)" by (metis surj_pair)
    then have "fm1 = fst (if ar_non_retryable (route_filter r)
        then disableForwarder now ?n (disableReasonForError (ar_error (route_filter r))) (fm, fs)
        else registerFailure now ?n (fm, fs))" by simp
    then have "\<not> fm_stopped fm1" using live by (simp add: disable_frame registerFailure_stopped)
    then have upd: "fst (updatePeerCache (don 2) job u (fm1, fs1)) = (if canceled (don 2) job then fs1 else u fs1)" for u
      by (simp add: updatePeerCache_def)
    show ?thesis
    proof (cases "ar_success (route_filter r) \<or> ar_suspend (route_filter r)")
      case True
      with live show ?thesis
        by (auto simp: Pair handleAnnounceResult_def apply_result_def Let_def updatePeerCache_def)
    next
      case False
      with live have "handleAnnounceResult don now job r s =
          (if \<not> isDisabled fm1 ?n
           then (fm1, fst (updatePeerCache (don 2) job (UpdatePeers now (aj_hash job) ?n [] 60) (fm1, fs1)))
           else (fm1, fs1))"
        unfolding Pair handleAnnounceResult_def Let_def prod.case s1 by simp
      with False live show ?thesis
        unfolding upd by (auto simp add: Pair apply_result_def Let_def s1)
    qed
  qed
qed

lemma jobs_inv_result:
  "jobs_inv (fst s) R \<Longrightarrow> jobs_inv (fst (handleAnnounceResult don now job r s)) R"
  by (simp add: result_eq apply_result_def Let_def jobs_inv_bookkeeping jobs_inv_register jobs_inv_disable)

lemma executeAnnounce_state:
  "executeAnnounce e job s \<in> {s, (fst (isSuspended (ae_now e) (getName (aj_forwarder job)) (fst s)), snd s),
     handleAnnounceResult (ae_done_result e) (ae_now_result e) job
       (snd (run_protocol e job (fst (isSuspended (ae_now e) (getName (aj_forwarder job)) (fst s)), snd s)))
       (fst (run_protocol e job (fst (isSuspended (ae_now e) (getName (aj_forwarder job)) (fst s)), snd s)))}"
  by (cases s; cases "snd (isSuspended (ae_now e) (getName (aj_forwarder job)) (fst s))")
     (auto simp: executeAnnounce_def Let_def case_prod_beta)

lemma run_protocol_state:
  "fst (run_protocol e job s) = s \<or>
   fst (run_protocol e job s) = fst (http_loop (ae_load e) job (ae_attempts e (buildAnnounceURI (ae_render e) (aj_forwarder job) (aj_request job) [])) 0
     (http_attempts (fm_config (fst s))) None [] s)"
  by (simp add: run_protocol_def doHTTPAnnounce_def case_prod_beta)

lemma jobs_inv_execute:
  assumes inv: "jobs_inv (fst s) R" and job: "job \<in> R"
  shows "jobs_inv (fst (executeAnnounce e job s)) R"
proof -
  let ?fm1 = "fst (isSuspended (ae_now e) (getName (aj_forwarder job)) (fst s))"
  have inv1: "jobs_inv ?fm1 R" using inv jobs_inv_suspended by (simp add: suspended_frame(1))
  have "jobs_inv (fst (fst (run_protocol e job (?fm1, snd s)))) R"
    using run_protocol_state [of e job "(?fm1, snd s)"] jobs_inv_http_loop [of "(?fm1, snd s)" R job] job inv1
    by (metis fst_conv)
  then show ?thesis
    using executeAnnounce_state [of e job s] inv inv1
    by (elim insertE emptyE) (simp_all add: jobs_inv_result)
qed

text \<open>A worker that takes a job off the queue leaves the bookkeeping intact, whatever the network
  does.\<close>

lemma jobs_inv_worker:
  assumes "jobs_inv fm (insert job R)"
  shows "jobs_inv (fst (worker_step e job (fm, fs))) R"
proof -
  obtain fm' fs' where x: "executeAnnounce e job (fm, fs) = (fm', fs')" by force
  have "jobs_inv fm' (insert job R)" using jobs_inv_execute [of "(fm, fs)" "insert job R" job e] assms x by simp
  then show ?thesis
    using assms by (auto simp: worker_step_def x jobs_inv_finish jobs_inv_schedule_or_finish split: worker_action.splits)
qed

section \<open>Ended sessions\<close>

lemma route_filter_failure: "\<not> ar_success r \<Longrightarrow> route_filter r = r"
  by (simp add: route_filter_def)

lemma stale_result: "canceled (don 1) job \<Longrightarrow> handleAnnounceResult don now job r s = s"
  by (cases s) (simp add: handleAnnounceResult_def Let_def updatePeerCache_def)

section \<open>What a result does\<close>

lemma live_success:
  assumes "ar_success r" "\<not> ar_deferred r" "\<not> canceled (don 0) job" "\<not> canceled (don 1) job" "\<not> fm_stopped fm"
    and "ar_peers r = [] \<or> (\<exists>p \<in> set (ar_peers r). isRoutablePeerAddress (p_ip p))"
  shows "snd (handleAnnounceResult don now job r (fm, fs)) =
     UpdatePeers now (aj_hash job) (getName (aj_forwarder job))
       (filter (\<lambda>p. isRoutablePeerAddress (p_ip p)) (ar_peers r)) (ar_interval r) fs"
proof -
  have "filter (\<lambda>p. isRoutablePeerAddress (p_ip p)) (ar_peers r) \<noteq> [] \<or> ar_peers r = []"
    using assms(6) by (auto simp: filter_empty_conv)
  then have "route_filter r = r\<lparr>ar_peers := filter (\<lambda>p. isRoutablePeerAddress (p_ip p)) (ar_peers r)\<rparr>"
    using assms(1) by (auto simp: route_filter_def filterRoutableForwarderPeers_eq)
  then show ?thesis
    using assms(1-5) by (simp add: handleAnnounceResult_def Let_def updatePeerCache_def)
qed

lemma live_permanent:
  assumes "\<not> ar_success r" "\<not> ar_deferred r" "ar_non_retryable r" "\<not> ar_suspend r"
    "\<not> canceled (don 0) job" "\<not> canceled (don 1) job" "\<not> fm_stopped fm"
    and "named (getName (aj_forwarder job)) fm"
  shows "handleAnnounceResult don now job r (fm, fs) =
     disableForwarder now (getName (aj_forwarder job)) (disableReasonForError (ar_error r)) (fm, fs)"
proof -
  obtain fm1 fs1 where d: "disableForwarder now (getName (aj_forwarder job))
      (disableReasonForError (ar_error r)) (fm, fs) = (fm1, fs1)" by force
  have "isDisabled fm1 (getName (aj_forwarder job))"
    using disable_fields(1) [of now "getName (aj_forwarder job)" "disableReasonForError (ar_error r)" "(fm, fs)"
        "getName (aj_forwarder job)"] assms(8) d by simp
  then show ?thesis
    using assms(1-7) by (simp add: handleAnnounceResult_def Let_def route_filter_failure d)
qed

lemma live_suspend:
  assumes "\<not> ar_success r" "\<not> ar_deferred r" "ar_suspend r"
    "\<not> canceled (don 0) job" "\<not> canceled (don 1) job" "\<not> fm_stopped fm"
  shows "\<exists>reason. handleAnnounceResult don now job r (fm, fs) =
     (suspendForwarderWithReason now (getName (aj_forwarder job)) (suspend_duration (fm_config fm)) reason fm, fs)"
  using assms by (auto simp: handleAnnounceResult_def Let_def route_filter_failure)

lemma suspend_duration_pos: "0 < suspend_duration cfg"
  by (auto simp: suspend_duration_def Let_def second_def)

lemma suspend_duration_seconds:
  "0 < cf_forwarder_suspend_seconds cfg \<Longrightarrow> cf_forwarder_suspend_seconds cfg \<le> 9223372036 \<Longrightarrow>
     suspend_duration cfg = cf_forwarder_suspend_seconds cfg * second"
  "- 9223372036 \<le> cf_forwarder_suspend_seconds cfg \<Longrightarrow> cf_forwarder_suspend_seconds cfg \<le> 0 \<Longrightarrow>
     suspend_duration cfg = 300 * second"
  by (simp_all add: suspend_duration_def Let_def second_def wrap64_id)

section \<open>Cached peers are routable\<close>

definition fs_routable :: "fwd_storage \<Rightarrow> bool" where
  "fs_routable fs \<longleftrightarrow>
     (\<forall>h n e. fs_get fs h n = Some e \<longrightarrow> (\<forall>p \<in> set (fe_peers e). isRoutablePeerAddress (p_ip p)))"

lemma fs_routable_update:
  "fs_routable fs \<Longrightarrow> (\<And>p. p \<in> set peers \<Longrightarrow> isRoutablePeerAddress (p_ip p)) \<Longrightarrow>
     fs_routable (UpdatePeers now h n peers i fs)"
  by (auto simp: fs_routable_def fs_get_update)

lemma fs_routable_new: "fs_routable NewForwarderStorage"
  by (simp add: fs_routable_def fs_get_def fs_inner_def NewForwarderStorage_def gm_get_or_def)

lemma fs_routable_defer: "fs_routable fs \<Longrightarrow> fs_routable (fst (DeferAnnounce h n t fs))"
  unfolding fs_routable_def fs_get_defer
  by (auto simp: Let_def zero_entry_def split: if_splits option.splits)

lemma fs_routable_prune: "fs_wf fs \<Longrightarrow> fs_routable fs \<Longrightarrow> fs_routable (Prune now fs)"
  unfolding fs_routable_def
  by (auto simp: fs_get_prune prune_entry_def bind_eq_Some_conv split: if_splits)

lemma fs_routable_forget: "fs_wf fs \<Longrightarrow> fs_routable fs \<Longrightarrow> fs_routable (fs_forget name fs)"
  by (simp add: fs_routable_def fs_get_forget)

lemma fs_routable_cleanup: "fs_routable fs \<Longrightarrow> fs_routable (fs_cleanup h fs)"
  by (simp add: fs_routable_def fs_get_cleanup)

definition fs_ok :: "fwd_storage \<Rightarrow> bool" where
  "fs_ok fs \<longleftrightarrow> fs_wf fs \<and> fs_routable fs"

lemma fs_ok_ops [inv_intros]:
  "fs_ok NewForwarderStorage"
  "fs_ok fs \<Longrightarrow> (\<And>p. p \<in> set peers \<Longrightarrow> isRoutablePeerAddress (p_ip p)) \<Longrightarrow> fs_ok (UpdatePeers now h n peers i fs)"
  "fs_ok fs \<Longrightarrow> time_zero \<le> t \<Longrightarrow> fs_ok (fst (DeferAnnounce h n t fs))"
  "fs_ok fs \<Longrightarrow> fs_ok (Prune now fs)"
  "fs_ok fs \<Longrightarrow> fs_ok (fs_forget name fs)"
  "fs_ok fs \<Longrightarrow> fs_ok (fs_cleanup h fs)"
  unfolding fs_ok_def
  by (auto intro: fs_wf_new fs_routable_new fs_wf_update fs_routable_update fs_wf_defer fs_routable_defer
      fs_wf_prune fs_routable_prune fs_wf_forget fs_routable_forget fs_wf_cleanup fs_routable_cleanup)

lemma retry_storage:
  "snd (fst (handleRetryError don now job reason retryIn s)) = snd s
   \<or> snd (fst (handleRetryError don now job reason retryIn s)) = fs_forget (aj_fwd job) (snd s)
   \<or> (\<exists>m > 0. snd (fst (handleRetryError don now job reason retryIn s)) =
        fst (DeferAnnounce (aj_hash job) (aj_fwd job) (now + m * minute) (snd s)))"
proof (cases s)
  case (Pair fm fs)
  show ?thesis
    unfolding Pair
    by (rule handleRetryError_cases [of don now job reason retryIn fm fs]) (auto simp: disable_frame)
qed

lemma fs_ok_retry:
  assumes "fs_ok (snd s)" "time_zero \<le> now"
  shows "fs_ok (snd (fst (handleRetryError don now job reason retryIn s)))"
proof -
  have "fs_ok (fst (DeferAnnounce (aj_hash job) (aj_fwd job) (now + m * minute) (snd s)))" if "m > 0" for m
    using assms that by (intro fs_ok_ops(3)) (auto simp: time_zero_def minute_def)
  moreover have "fs_ok (fs_forget (aj_fwd job) (snd s))" using assms by (intro fs_ok_ops(5)) simp
  ultimately show ?thesis
    using retry_storage [of don now job reason retryIn s] assms(1) by metis
qed

lemma fs_ok_single:
  "fs_ok (snd s) \<Longrightarrow> time_zero \<le> ha_now a \<Longrightarrow> fs_ok (snd (fst (doSingleHTTPRequest decode job a s)))"
  using fs_ok_retry [of s "ha_now a"] doSingle_state [of decode job a s] by metis

lemma fs_ok_loop:
  "fs_ok (snd s) \<Longrightarrow> (\<And>i. time_zero \<le> ha_now (env i)) \<Longrightarrow>
     fs_ok (snd (fst (http_loop decode job env retry left lastErr acts s)))"
proof (induction left arbitrary: retry lastErr acts s)
  case (Suc left)
  obtain s1 r1 where d: "doSingleHTTPRequest decode job (env retry) s = (s1, r1)" by (metis surj_pair)
  have "fs_ok (snd s1)" using fs_ok_single [OF Suc.prems(1), of "env retry" decode job] Suc.prems(2) d by simp
  with Suc show ?case by (auto simp: Let_def d)
qed simp

lemma route_filter_routable: "ar_success (route_filter r) \<Longrightarrow> p \<in> set (ar_peers (route_filter r)) \<Longrightarrow>
    isRoutablePeerAddress (p_ip p)"
  by (auto simp: route_filter_def filterRoutableForwarderPeers_eq buildFailure_flags split: if_splits)

lemma fs_ok_result:
  assumes "fs_ok (snd s)"
  shows "fs_ok (snd (handleAnnounceResult don now job r s))"
proof -
  obtain fm fs where s: "s = (fm, fs)" by (cases s)
  have fs: "fs_ok fs" using assms s by simp
  have reg: "fs_ok (snd (registerFailure now n (fm, fs)))" for n
    using fs by (auto simp: registerFailure_def Let_def disable_frame fs_ok_ops)
  have dis: "fs_ok (snd (disableForwarder now n reason (fm, fs)))" for n reason
    using fs by (simp add: disable_frame fs_ok_ops)
  have nil: "fs_ok fs' \<Longrightarrow> fs_ok (UpdatePeers now h n [] i fs')" for fs' h n i
    by (intro fs_ok_ops(2)) auto
  show ?thesis
    using fs reg dis
    by (simp add: result_eq s apply_result_def Let_def fs_ok_ops nil route_filter_routable)
qed

text \<open>The second half alone, on any state.\<close>

lemma jobs_inv_finish_announce:
  assumes "jobs_inv (fst s) (insert job R)"
  shows "jobs_inv (fst (finish_announce e job s)) R"
proof -
  have "jobs_inv (fst (fst (run_protocol e job s))) (insert job R)"
    using run_protocol_state [of e job s] jobs_inv_http_loop [OF assms insertI1] assms by metis
  then have "jobs_inv (fst (run_announce e job s)) (insert job R)"
    by (simp add: run_announce_def case_prod_beta jobs_inv_result)
  then show ?thesis by (simp add: finish_announce_def case_prod_beta jobs_inv_finish)
qed

definition env_times :: "announce_env \<Rightarrow> bool" where
  "env_times e \<longleftrightarrow> (\<forall>uri i. time_zero \<le> ha_now (ae_attempts e uri i))"

lemma fs_ok_execute:
  assumes "fs_ok (snd s)" "env_times e"
  shows "fs_ok (snd (executeAnnounce e job s))"
proof -
  have p: "fs_ok (snd (fst (run_protocol e job s')))" if "snd s' = snd s" for s'
    using run_protocol_state [of e job s'] fs_ok_loop [of s' "ae_attempts e uri" for uri] assms that
    unfolding env_times_def by metis
  show ?thesis
    using executeAnnounce_state [of e job s] assms(1)
    by (elim insertE emptyE) (simp_all add: fs_ok_result p)
qed

lemma fs_ok_worker: "fs_ok fs \<Longrightarrow> env_times e \<Longrightarrow> fs_ok (snd (worker_step e job (fm, fs)))"
  using fs_ok_execute [of "(fm, fs)" e job]
  by (auto simp: worker_step_def split: worker_action.splits prod.splits)

lemma fs_ok_finish_announce:
  assumes "fs_ok (snd s)" "env_times e" shows "fs_ok (snd (finish_announce e job s))"
proof -
  have "fs_ok (snd (fst (run_protocol e job s)))"
    using run_protocol_state [of e job s] fs_ok_loop [of s "ae_attempts e uri" for uri] assms unfolding env_times_def by metis
  then show ?thesis by (simp add: finish_announce_def run_announce_def case_prod_beta fs_ok_result)
qed

end
