(* ===== verification/System.thy ===== *)
theory System
  imports StatsView FwdLemmas
begin

text \<open>
  The running tracker as a transition system. A state is the core with the jobs that workers hold, and
  those of them whose announce has been admitted and is on the wire; a step is an announce over HTTP, a
  datagram, an addition of forwarders, a look at the statistics, a worker taking a job, dropping or
  postponing it, admitting its announce or handling the answer, a tick of the scheduler or of the scaling
  loop, a clean-up, or a stage of the shutdown. Each handler is one step and the worker's treatment of a job
  two, before and after the network, so that anything can happen to the upstream, the client or the
  manager in between. The sessions that end while an answer is handled are in its environment
  (\<open>announce_env\<close>).
\<close>

section \<open>States and steps\<close>

record system =
  sy_core :: core
  sy_running :: "announce_job list"
  sy_admitted :: "announce_job list"

definition sy_tracker :: "system \<Rightarrow> tracker" where
  "sy_tracker s = co_tracker (sy_core s)"

definition with_tracker :: "(tracker \<Rightarrow> tracker) \<Rightarrow> system \<Rightarrow> system" where
  "with_tracker f s = s\<lparr>sy_core := (sy_core s)\<lparr>co_tracker := f (co_tracker (sy_core s))\<rparr>\<rparr>"

text \<open>The manager works on its own state and on the cache, which the storage shares.\<close>

definition with_manager :: "(fmgr \<times> fwd_storage \<Rightarrow> fmgr \<times> fwd_storage) \<Rightarrow> tracker \<Rightarrow> tracker" where
  "with_manager f tk =
     (case (tk_manager tk, st_fwd (tk_storage tk)) of
        (Some fm, Some fs) \<Rightarrow>
          (case f (fm, fs) of
             (fm', fs') \<Rightarrow> tk\<lparr>tk_manager := Some fm', tk_storage := (tk_storage tk)\<lparr>st_fwd := Some fs'\<rparr>\<rparr>)
      | _ \<Rightarrow> tk)"

definition set_handler_state :: "udp_server \<Rightarrow> core \<Rightarrow> core" where
  "set_handler_state sv co = co\<lparr>co_connections := sv_connections sv, co_tracker := sv_tracker sv\<rparr>"

definition permutes :: "(forward list \<Rightarrow> forward list) \<Rightarrow> bool" where
  "permutes shuffle \<longleftrightarrow> (\<forall>l. mset (shuffle l) = mset l)"

text \<open>A step is labelled with the operation and, where clients or the clock decide what happens, with its
  inputs.\<close>

datatype sys_label =
    HttpAnnounce gotime string string string "string \<Rightarrow> string"
  | UdpDatagram gotime bytes net_ip
  | AddForwarders | ShowStats
  | TakeJob | CompleteJob | AdmitJob | FinishJob
  | SchedulerTick gotime | ScaleTick | PurgeTick gotime | UdpCleanup
  | CloseIntake | StopManager | ClearManager | CloseStorage

inductive sys_op :: "system \<Rightarrow> sys_label \<Rightarrow> system \<Rightarrow> bool" where
  http_announce: "permutes shuffle \<Longrightarrow>
    HTTPHandler (bencode :: bool \<Rightarrow> response \<Rightarrow> string + string) err_text shuffle now remote xrealip ua get
      (sy_tracker s) = (tk', status, body) \<Longrightarrow>
    sys_op s (HttpAnnounce now remote xrealip ua get) (with_tracker (\<lambda>_. tk') s)"
| datagram: "permutes shuffle \<Longrightarrow> \<not> co_udp_closed (sy_core s) \<Longrightarrow>
    handlePackets err_text shuffle random now data ip
      \<lparr>sv_connections = co_connections (sy_core s), sv_tracker = sy_tracker s\<rparr> = (sv', reply) \<Longrightarrow>
    sys_op s (UdpDatagram now data ip) (s\<lparr>sy_core := set_handler_state sv' (sy_core s)\<rparr>)"
| add_forwarder:
    "HTTPAddForwarderHandler (lookup_ip :: string \<Rightarrow> string + net_ip list) now meth raw first trailing (sy_core s) =
      (co', status, body) \<Longrightarrow>
    sys_op s AddForwarders (s\<lparr>sy_core := co'\<rparr>)"
| show_stats: "sys_op s ShowStats (with_tracker (\<lambda>tk. fst (stats_provider_of now tk)) s)"
| take_job: "tk_manager (sy_tracker s) = Some fm \<Longrightarrow> fm_queue fm = job # q \<Longrightarrow>
    sys_op s TakeJob (with_tracker (\<lambda>tk. tk\<lparr>tk_manager := Some (fm\<lparr>fm_queue := q\<rparr>)\<rparr>)
      (s\<lparr>sy_running := job # sy_running s\<rparr>))"
| complete_job: "sy_running s = pre @ job # post \<Longrightarrow> job \<notin> set (sy_admitted s) \<Longrightarrow> env_times e \<Longrightarrow>
    sys_op s CompleteJob (with_tracker (with_manager (worker_step e job)) (s\<lparr>sy_running := pre @ post\<rparr>))"
| admit_job: "job \<in> set (sy_running s) \<Longrightarrow> job \<notin> set (sy_admitted s) \<Longrightarrow>
    tk_manager (sy_tracker s) = Some fm \<Longrightarrow> worker_action don now job = AnnounceNow \<Longrightarrow>
    admit_announce don now job fm = (fm', True) \<Longrightarrow>
    sys_op s AdmitJob (with_tracker (\<lambda>tk. tk\<lparr>tk_manager := Some fm'\<rparr>) (s\<lparr>sy_admitted := job # sy_admitted s\<rparr>))"
| finish_job: "sy_running s = pre @ job # post \<Longrightarrow> job \<in> set (sy_admitted s) \<Longrightarrow> env_times e \<Longrightarrow>
    sys_op s FinishJob (with_tracker (with_manager (finish_announce e job))
      (s\<lparr>sy_running := pre @ post, sy_admitted := remove1 job (sy_admitted s)\<rparr>))"
| tick: "sys_op s (SchedulerTick now) (with_tracker
    (\<lambda>tk. with_manager (scheduler_tick (session_done (tk_storage tk)) now) tk) s)"
| scale: "sys_op s ScaleTick (with_tracker (with_manager (\<lambda>(fm, fs). (fst (scaleWorkers_tick fm), fs))) s)"
| purge: "sys_op s (PurgeTick now) (with_tracker (\<lambda>tk. tk\<lparr>tk_storage := purgeExpired now (tk_storage tk)\<rparr>) s)"
| udp_cleanup: "sys_op s UdpCleanup (s\<lparr>sy_core := (sy_core s)\<lparr>co_connections :=
    cleanup_connections now (co_connections (sy_core s))\<rparr>\<rparr>)"
| close_intake: "sys_op s CloseIntake (s\<lparr>sy_core := (sy_core s)\<lparr>co_closed := True, co_udp_closed := True\<rparr>\<rparr>)"
| stop_manager: "co_closed (sy_core s) \<Longrightarrow>
    sys_op s StopManager (with_tracker (with_manager (\<lambda>(fm, fs). (fm_signal_stop fm, fs))) s)"
| clear_manager: "tk_manager (sy_tracker s) = Some fm \<Longrightarrow> fm_stopped fm \<Longrightarrow> sy_running s = [] \<Longrightarrow>
    sys_op s ClearManager (with_tracker (with_manager (\<lambda>(fm, fs). (fm_clear fm, fs))) s)"
| close_storage: "co_closed (sy_core s) \<Longrightarrow>
    sys_op s CloseStorage (with_tracker (\<lambda>tk. tk\<lparr>tk_storage := storage_close (tk_storage tk)\<rparr>) s)"

definition sys_step :: "system \<Rightarrow> system \<Rightarrow> bool" where
  "sys_step s s' \<longleftrightarrow> (\<exists>l. sys_op s l s')"

lemma sys_stepI: "sys_op s l s' \<Longrightarrow> sys_step s s'"
  by (auto simp: sys_step_def)

definition sys_init :: "(string \<Rightarrow> string + net_ip list) \<Rightarrow> gotime \<Rightarrow> config \<Rightarrow> system" where
  "sys_init lookup_ip now cfg = \<lparr>sy_core = NewCore lookup_ip now cfg, sy_running = [], sy_admitted = []\<rparr>"

inductive reachable :: "config \<Rightarrow> system \<Rightarrow> bool" for cfg where
  start: "reachable cfg (sys_init lookup_ip now cfg)"
| move: "reachable cfg s \<Longrightarrow> sys_step s s' \<Longrightarrow> reachable cfg s'"

inductive_cases reachableE: "reachable cfg s"

section \<open>The invariant\<close>

definition mgr_fs_ok :: "announce_job set \<Rightarrow> fmgr \<times> fwd_storage \<Rightarrow> bool" where
  "mgr_fs_ok R s \<longleftrightarrow> mgr_ok R (fst s) \<and> fs_ok (snd s)"

definition tk_ok :: "announce_job set \<Rightarrow> tracker \<Rightarrow> bool" where
  "tk_ok R tk \<longleftrightarrow> tk_wf tk R \<and> pred_option fs_ok (st_fwd (tk_storage tk))
     \<and> (\<forall>f \<in> set (cf_forwards (tk_config tk)). getName f \<noteq> []) \<and> (tk_manager tk = None \<longrightarrow> R = {})"

definition sys_ok :: "system \<Rightarrow> bool" where
  "sys_ok s \<longleftrightarrow> tk_ok (set (sy_running s)) (sy_tracker s) \<and> gm_wf (co_connections (sy_core s))"

subsection \<open>The forwarder list\<close>

lemma forwarders_disable: "set (fm_forwarders (fst (disableForwarder now name reason s))) \<subseteq> set (fm_forwarders (fst s))"
  by (simp add: disable_forwarders subseq_set subseq_remove_first)

lemma forwarders_register: "set (fm_forwarders (fst (registerFailure now name s))) \<subseteq> set (fm_forwarders (fst s))"
proof -
  obtain fm fs where s: "s = (fm, fs)" by (cases s)
  show ?thesis
    using forwarders_disable [of now name threshold_reason "(fm\<lparr>fm_fail_counts := x\<rparr>, fs)" for x]
    by (simp add: s registerFailure_def Let_def)
qed

lemma forwarders_bookkeeping:
  "fm_forwarders (resetFailure name fm) = fm_forwarders fm"
  "fm_forwarders (recordStats now name d i fm) = fm_forwarders fm"
  "fm_forwarders (suspendForwarderWithReason now name d reason fm) = fm_forwarders fm"
  "fm_forwarders (finishJob job fm) = fm_forwarders fm"
  "fm_forwarders (fst (scheduleJob don job fm)) = fm_forwarders fm"
  "fm_forwarders (fst (getSuspendedUntil n now fm)) = fm_forwarders fm"
  by (simp_all add: resetFailure_def recordStats_def suspendForwarderWithReason_def Let_def finishJob_def
      scheduleJob_def getSuspendedUntil_def split: option.splits)

lemma forwarders_schedule: "fm_forwarders (schedule_or_finish don job fm) = fm_forwarders fm"
  by (simp add: schedule_or_finish_def forwarders_bookkeeping case_prod_beta split: bool.split)

lemma forwarders_process: "fm_forwarders (processScheduledReadyJob don now job fm) = fm_forwarders fm"
proof -
  have "fm_forwarders fm1 = fm_forwarders fm" if "getSuspendedUntil n now fm = (fm1, u)" for n fm1 u
    using that forwarders_bookkeeping(6) [of n now fm] by simp
  then show ?thesis
    by (auto simp: processScheduledReadyJob_def Let_def forwarders_bookkeeping forwarders_schedule try_send_def
        split: prod.split option.split)
qed

lemma forwarders_tick: "fm_forwarders (fst (scheduler_tick don now (fm, fs))) = fm_forwarders fm"
proof -
  have "fm_forwarders (fold finishJob L fm) = fm_forwarders fm" for L fm
    by (induction L arbitrary: fm) (simp_all add: forwarders_bookkeeping)
  moreover have "fm_forwarders (fold (processScheduledReadyJob don now) L fm) = fm_forwarders fm" for L fm
    by (induction L arbitrary: fm) (simp_all add: forwarders_process)
  ultimately show ?thesis by (simp add: scheduler_tick_def Let_def)
qed

lemma forwarders_retry:
  "set (fm_forwarders (fst (fst (handleRetryError don now job reason retryIn s)))) \<subseteq> set (fm_forwarders (fst s))"
proof -
  obtain fm fs where s: "s = (fm, fs)" by (cases s)
  have put: "fm_forwarders (put_retry d j r fm) = fm_forwarders fm" for d j r
    by (simp add: put_retry_def Let_def case_prod_beta forwarders_bookkeeping)
  show ?thesis
    unfolding s
    by (rule handleRetryError_cases [of don now job reason retryIn fm fs])
       (use forwarders_disable [of now "aj_fwd job" "permanent_reason reason" "(fm, fs)"] in \<open>simp_all add: put\<close>)
qed

lemma forwarders_loop:
  "set (fm_forwarders (fst (fst (http_loop decode job env retry left lastErr acts s)))) \<subseteq>
     set (fm_forwarders (fst s))"
proof (induction left arbitrary: retry lastErr acts s)
  case (Suc left)
  obtain s1 r1 where d: "doSingleHTTPRequest decode job (env retry) s = (s1, r1)" by (metis surj_pair)
  have sub: "set (fm_forwarders (fst s1)) \<subseteq> set (fm_forwarders (fst s))"
    using doSingle_state [of decode job "env retry" s] forwarders_retry [of _ _ job _ _ s] unfolding d fst_conv
    by (metis order_refl)
  have "set (fm_forwarders (fst (fst (http_loop decode job env i left l w s1)))) \<subseteq> set (fm_forwarders (fst s))"
    for i l w
    by (rule order_trans [OF Suc.IH sub])
  with sub show ?case by (simp add: Let_def d)
qed simp

lemma forwarders_result:
  "set (fm_forwarders (fst (handleAnnounceResult don now job r s))) \<subseteq> set (fm_forwarders (fst s))"
  using forwarders_disable forwarders_register
  by (simp add: result_eq apply_result_def Let_def forwarders_bookkeeping)

lemma forwarders_finish: "set (fm_forwarders (fst (finish_announce e job s))) \<subseteq> set (fm_forwarders (fst s))"
proof -
  have "set (fm_forwarders (fst (fst (run_protocol e job s)))) \<subseteq> set (fm_forwarders (fst s))"
    using run_protocol_state [of e job s] forwarders_loop by (metis order_refl)
  then show ?thesis
    by (simp add: finish_announce_def run_announce_def case_prod_beta forwarders_bookkeeping
        order_trans [OF forwarders_result])
qed

lemma forwarders_worker:
  "set (fm_forwarders (fst (worker_step e job s))) \<subseteq> set (fm_forwarders (fst s))"
proof -
  obtain fm fs where s: "s = (fm, fs)" by (cases s)
  let ?fm1 = "fst (isSuspended (ae_now e) (getName (aj_forwarder job)) fm)"
  have 1: "fm_forwarders ?fm1 = fm_forwarders fm"
    by (simp add: suspended_frame(1) forwarders_bookkeeping)
  have "set (fm_forwarders (fst (fst (run_protocol e job (?fm1, fs))))) \<subseteq> set (fm_forwarders fm)"
    using run_protocol_state [of e job "(?fm1, fs)"] forwarders_loop
    by (metis 1 fst_conv order_refl)
  then have "set (fm_forwarders (fst (executeAnnounce e job s))) \<subseteq> set (fm_forwarders fm)"
    using executeAnnounce_state [of e job s] 1 unfolding s fst_conv snd_conv
    by (elim insertE emptyE) (simp_all add: order_trans [OF forwarders_result])
  then show ?thesis
    by (auto simp: s worker_step_def forwarders_bookkeeping forwarders_schedule
        split: worker_action.splits prod.splits)
qed

subsection \<open>Preservation\<close>

lemma mgr_fs_worker:
  assumes "mgr_fs_ok (insert job R) s" "env_times e"
  shows "mgr_fs_ok R (worker_step e job s)"
proof -
  obtain fm fs where s: "s = (fm, fs)" by (cases s)
  have "jobs_inv (fst (worker_step e job s)) R"
    using assms(1) jobs_inv_worker by (simp add: mgr_fs_ok_def mgr_ok_def s)
  moreover have "fs_ok (snd (worker_step e job s))"
    using assms fs_ok_worker by (simp add: mgr_fs_ok_def s)
  ultimately show ?thesis
    using assms(1) forwarders_worker [of e job s] by (auto simp: mgr_fs_ok_def mgr_ok_def)
qed

lemma mgr_fs_finish:
  assumes "mgr_fs_ok (insert job R) s" "env_times e"
  shows "mgr_fs_ok R (finish_announce e job s)"
  using assms jobs_inv_finish_announce [of s job R e] fs_ok_finish_announce [of s e job] forwarders_finish [of e job s]
  by (auto simp: mgr_fs_ok_def mgr_ok_def)

lemma mgr_fs_tick:
  assumes "mgr_fs_ok R s" shows "mgr_fs_ok R (scheduler_tick don now s)"
proof -
  obtain fm fs where s: "s = (fm, fs)" by (cases s)
  have "snd (scheduler_tick don now (fm, fs)) = Prune now fs" by (simp add: scheduler_tick_def Let_def)
  then show ?thesis
    using assms jobs_inv_tick [of fm R don now fs] fs_ok_ops(4) [of fs now]
    by (auto simp: s mgr_fs_ok_def mgr_ok_def forwarders_tick)
qed

text \<open>Steps that leave the jobs alone.\<close>

lemma mgr_ok_frame:
  assumes "fm_pending fm' = fm_pending fm" "fm_scheduled fm' = fm_scheduled fm" "fm_queue fm' = fm_queue fm"
    "fm_capacity fm' = fm_capacity fm" "fm_next_state fm' = fm_next_state fm"
    "fm_forwarders fm' = fm_forwarders fm"
  shows "mgr_ok R fm' \<longleftrightarrow> mgr_ok R fm"
  using jobs_inv_frame [OF assms(1-5)] assms(6) by (simp add: mgr_ok_def)

lemma mgr_ok_scale: "mgr_ok R (fst (scaleWorkers_tick fm)) \<longleftrightarrow> mgr_ok R fm"
  by (rule mgr_ok_frame) (simp_all add: scaleWorkers_tick_def Let_def)

lemma mgr_ok_signal: "mgr_ok R (fm_signal_stop fm) \<longleftrightarrow> mgr_ok R fm"
  by (rule mgr_ok_frame) (simp_all add: fm_signal_stop_def)

lemma mgr_ok_suspensions: "mgr_ok R (fst (GetSuspendedForwarderDetails now fm)) \<longleftrightarrow> mgr_ok R fm"
  by (rule mgr_ok_frame) (simp_all add: GetSuspendedForwarderDetails_def Let_def)

lemma mgr_ok_admit:
  assumes "admit_announce don now job fm = (fm', admitted)" shows "mgr_ok R fm' \<longleftrightarrow> mgr_ok R fm"
proof -
  have "fm' \<in> {fm, fst (isSuspended now (getName (aj_forwarder job)) fm)}"
    using assms by (auto simp: admit_announce_def Let_def case_prod_beta split: if_splits)
  moreover have "mgr_ok R (fst (isSuspended now n fm)) \<longleftrightarrow> mgr_ok R fm" for n
    by (simp add: mgr_ok_def suspended_frame(1) forwarders_bookkeeping jobs_inv_suspended)
  ultimately show ?thesis by auto
qed

lemma mgr_ok_clear: "mgr_ok R fm \<Longrightarrow> mgr_ok {} (fm_clear fm)"
  by (simp add: mgr_ok_def jobs_inv_def owned_def held_jobs_def scheduled_list_def sched_unique_def fm_clear_def)

lemma jobs_inv_take:
  assumes "jobs_inv fm R" "fm_queue fm = job # q"
  shows "jobs_inv (fm\<lparr>fm_queue := q\<rparr>) (insert job R)"
proof -
  have "held_jobs (fm\<lparr>fm_queue := q\<rparr>) \<union> insert job R = held_jobs fm \<union> R"
    using assms(2) by (auto simp: held_jobs_def scheduled_list_def)
  then show ?thesis using assms by (simp add: jobs_inv_def sched_unique_def scheduled_list_def)
qed

text \<open>The construction of a manager.\<close>

lemma fs_ok_age: "fs_ok (fs\<lparr>fs_max_age := a\<rparr>) \<longleftrightarrow> fs_ok fs"
  by (simp add: fs_ok_def fs_wf_def fs_routable_def fs_get_def fs_inner_def)

lemma mgr_fs_disable: "mgr_fs_ok R s \<Longrightarrow> mgr_fs_ok R (disableForwarder now name reason s)"
  using forwarders_disable [of now name reason s]
  by (auto simp: mgr_fs_ok_def mgr_ok_def jobs_inv_disable disable_frame fs_ok_ops)

lemma mgr_fs_sweep:
  "mgr_fs_ok R s \<Longrightarrow> mgr_fs_ok R (fold (\<lambda>f s. case bad f of None \<Rightarrow> s
     | Some x \<Rightarrow> disableForwarder now (getName f) (reason x) s) fs s)"
  by (rule fold_keeps) (auto intro: mgr_fs_disable split: option.split)

lemma mgr_fs_new:
  assumes "\<forall>f \<in> set (cf_forwards cfg). getName f \<noteq> []" "fs_ok fs"
  shows "mgr_fs_ok {} (NewForwarderManager lookup_ip now cfg fs)"
proof -
  let ?fs1 = "if cf_age cfg > 0 then fs\<lparr>fs_max_age := age_duration (cf_age cfg)\<rparr> else fs"
  have "mgr_fs_ok {} (init_manager cfg, ?fs1)"
    using assms jobs_inv_init [of cfg]
    by (simp add: mgr_fs_ok_def mgr_ok_def fs_ok_age) (simp add: init_manager_def Let_def)
  then have "mgr_fs_ok {} (validateAndRemoveInvalidForwarders now (init_manager cfg, ?fs1))"
    unfolding validateAndRemoveInvalidForwarders_def by (rule mgr_fs_sweep)
  then have ok: "mgr_fs_ok {} (checkAndRemoveBlockedForwarders lookup_ip now
      (validateAndRemoveInvalidForwarders now (init_manager cfg, ?fs1)))"
    unfolding checkAndRemoveBlockedForwarders_def by (rule mgr_fs_sweep)
  have "mgr_ok {} (removeDuplicateForwardersByDomain fm)" if "mgr_ok {} fm" for fm
  proof (cases "dedupe_by_domain (fm_forwarders fm)")
    case None
    with that show ?thesis by (simp add: removeDuplicateForwardersByDomain_def)
  next
    case (Some r)
    obtain l names where r: "r = (l, names)" by (cases r)
    have "set l \<subseteq> set (fm_forwarders fm)" using subseq_set [OF dedupe_subseq [OF Some [unfolded r]]] .
    moreover have "jobs_inv (removeDuplicateForwardersByDomain fm) {} \<longleftrightarrow> jobs_inv fm {}"
      using Some r by (intro jobs_inv_frame) (simp_all add: removeDuplicateForwardersByDomain_def)
    ultimately show ?thesis
      using that Some r by (auto simp: mgr_ok_def removeDuplicateForwardersByDomain_def)
  qed
  with ok show ?thesis by (simp add: NewForwarderManager_def Let_def mgr_fs_ok_def)
qed

text \<open>Announces.\<close>

lemma fwd_delete: "pred_option fs_ok (st_fwd st) \<Longrightarrow> pred_option fs_ok (st_fwd (deleteLocked h p st))"
  by (auto simp: deleteLocked_def Let_def option.pred_map comp_def fs_ok_ops split: option.splits)
     (auto simp: option.pred_set fs_ok_ops)

lemma fwd_event:
  "pred_option fs_ok (st_fwd (tk_storage tk)) \<Longrightarrow>
     pred_option fs_ok (st_fwd (tk_storage (fst (handle_event shuffle now rq tk))))"
  using fwd_delete [of "tk_storage tk" "rq_hash rq" "rq_peer_id rq"]
  by (auto simp: handle_event_storage Let_def st_fwd_update option.pred_set fs_ok_ops)

lemma permutes_set: "permutes shuffle \<Longrightarrow> set (shuffle l) = set l"
  unfolding permutes_def by (metis set_mset_mset)

lemma tk_ok_process:
  assumes "tk_ok R tk" "permutes shuffle"
  shows "tk_ok R (fst (ProcessAnnounce shuffle fam now a b c d e f g h i j k l m tk))"
proof -
  have "tk_ok R (fst (handle_event shuffle now rq tk))" for rq
    using assms tk_wf_event [of tk R shuffle now rq] fwd_event permutes_set manager_event [of shuffle now rq tk]
    by (auto simp: tk_ok_def handle_event_config)
  then show ?thesis using assms(1) by (simp add: ProcessAnnounce_def case_prod_beta split: sum.split)
qed

lemma tk_ok_http:
  assumes "HTTPHandler bencode err_text shuffle now remote xrealip ua get tk = (tk', status, body)"
    and "tk_ok R tk" "permutes shuffle"
  shows "tk_ok R tk'"
proof -
  have "tk' = fst (HTTPHandler bencode err_text shuffle now remote xrealip ua get tk)" using assms(1) by simp
  then show ?thesis
    using tk_ok_process [OF assms(2,3)] by (simp add: HTTPHandler_def case_prod_beta split: sum.split)
qed

lemma tk_ok_packet:
  assumes "tk_ok R (sv_tracker sv)" "permutes shuffle"
  shows "tk_ok R (sv_tracker (fst (handlePackets err_text shuffle random now data ip sv)))"
proof -
  have "tk_ok R (fst (handleAnnounce err_text shuffle now data ip (sv_tracker sv)))" for data
    using assms(1) tk_ok_process [OF assms]
    by (simp add: handleAnnounce_def Let_def udp_ProcessAnnounce_def case_prod_beta split: option.split sum.split)
  then show ?thesis
    using assms(1) by (simp add: handlePackets_def handlePacket_def Let_def case_prod_beta)
qed

lemma connections_packet:
  "gm_wf (sv_connections sv) \<Longrightarrow>
     gm_wf (sv_connections (fst (handlePackets err_text shuffle random now data ip sv)))"
  using gm_wf_connections by (simp add: handlePackets_def Let_def)

text \<open>Adding forwarders.\<close>

lemma add_names_nonempty:
  assumes "AddRuntimeForwarder u fm = (fm', r)" "\<forall>f \<in> set (fm_forwarders fm). getName f \<noteq> []"
  shows "\<forall>f \<in> set (fm_forwarders fm'). getName f \<noteq> []"
  using assms
  by (auto simp: AddRuntimeForwarder_def Let_def getName_empty_iff split: if_splits option.splits)

lemma add_forwarders_nonempty:
  "add_forwarders us (fm, resp, dup) = (fm', resp', dup') \<Longrightarrow>
     \<forall>f \<in> set (fm_forwarders fm). getName f \<noteq> [] \<Longrightarrow> \<forall>f \<in> set (fm_forwarders fm'). getName f \<noteq> []"
proof (induction us arbitrary: fm resp dup)
  case (Cons u us)
  obtain fm1 r where add: "AddRuntimeForwarder u fm = (fm1, r)" by (metis surj_pair)
  note n = add_names_nonempty [OF add Cons.prems(2)]
  from Cons.prems(1) add show ?case by (cases r) (use Cons.IH [OF _ n] in auto)
qed simp

lemma mgr_ok_add:
  "add_forwarders us (fm, resp, dup) = (fm', resp', dup') \<Longrightarrow> mgr_ok R fm \<Longrightarrow> mgr_ok R fm'"
  using add_forwarders_jobs add_forwarders_nonempty unfolding mgr_ok_def by blast

lemma tk_ok_manager:
  assumes "tk_ok R tk" "tk_manager tk = Some fm" "st_fwd (tk_storage tk) = Some fs" "mgr_fs_ok R' (fm', fs')"
  shows "tk_ok R' (tk\<lparr>tk_manager := Some fm', tk_storage := (tk_storage tk)\<lparr>st_fwd := Some fs'\<rparr>\<rparr>)"
  using assms by (simp add: tk_ok_def tk_wf_def mgr_fs_ok_def storage_wf_set_fwd)

lemma tk_ok_parts:
  assumes "tk_ok R tk" "tk_manager tk = Some fm"
  obtains fs where "st_fwd (tk_storage tk) = Some fs" "mgr_fs_ok R (fm, fs)"
  using assms by (auto simp: tk_ok_def tk_wf_def mgr_fs_ok_def)

lemma tk_ok_with_manager:
  assumes "tk_ok R tk" "\<And>fm fs. mgr_fs_ok R (fm, fs) \<Longrightarrow> mgr_fs_ok R' (f (fm, fs))" "tk_manager tk = None \<Longrightarrow> R' = R"
  shows "tk_ok R' (with_manager f tk)"
proof (cases "tk_manager tk")
  case None
  with assms show ?thesis by (simp add: with_manager_def)
next
  case (Some fm)
  then obtain fs where fs: "st_fwd (tk_storage tk) = Some fs" "mgr_fs_ok R (fm, fs)"
    using tk_ok_parts assms(1) by blast
  obtain fm' fs' where f: "f (fm, fs) = (fm', fs')" by (metis surj_pair)
  have "mgr_fs_ok R' (fm', fs')" using assms(2) [OF fs(2)] f by simp
  with tk_ok_manager [OF assms(1) Some fs(1)] show ?thesis by (simp add: with_manager_def Some fs f)
qed

lemma tk_ok_set_manager:
  "tk_ok R tk \<Longrightarrow> tk_manager tk = Some fm \<Longrightarrow> mgr_ok R' fm' \<Longrightarrow> tk_ok R' (tk\<lparr>tk_manager := Some fm'\<rparr>)"
  by (simp add: tk_ok_def tk_wf_def)

lemma tk_ok_new_manager:
  assumes "tk_ok R tk" "tk_manager tk = None" "pred_option fs_ok (Some fs)"
    and "NewForwarderManager lookup_ip now (tk_config tk) fs = (fm, fs')"
  shows "tk_ok R (tk\<lparr>tk_storage := (tk_storage tk)\<lparr>st_fwd := Some fs'\<rparr>, tk_manager := Some fm\<rparr>)"
proof -
  have "mgr_fs_ok {} (fm, fs')" using mgr_fs_new [of "tk_config tk" fs lookup_ip now] assms by (simp add: tk_ok_def)
  with assms(1,2) show ?thesis by (simp add: tk_ok_def tk_wf_def mgr_fs_ok_def storage_wf_set_fwd)
qed

lemma tk_ok_ensure:
  assumes "tk_ok R (co_tracker co)" "ensureForwarderManager lookup_ip now co = (co', r)"
  shows "tk_ok R (co_tracker co')" "r = Some fm \<Longrightarrow> tk_manager (co_tracker co') = Some fm"
    "co_connections co' = co_connections co"
proof -
  let ?tk = "co_tracker co"
  let ?fs = "case st_fwd (tk_storage ?tk) of Some fs \<Rightarrow> fs | None \<Rightarrow> NewForwarderStorage"
  obtain fm1 fs1 where n: "NewForwarderManager lookup_ip now (tk_config ?tk) ?fs = (fm1, fs1)" by (metis surj_pair)
  have "pred_option fs_ok (Some ?fs)" using assms(1) by (auto simp: tk_ok_def fs_ok_ops split: option.split)
  note new = tk_ok_new_manager [OF assms(1) _ this n]
  show "tk_ok R (co_tracker co')" "r = Some fm \<Longrightarrow> tk_manager (co_tracker co') = Some fm"
    "co_connections co' = co_connections co"
    using assms new by (auto simp: ensureForwarderManager_def Let_def n split: if_splits option.splits)
qed

lemma tk_ok_add_handler:
  assumes "tk_ok R (co_tracker co)" "HTTPAddForwarderHandler lookup_ip now meth raw first trailing co = (co', status, body)"
  shows "tk_ok R (co_tracker co') \<and> co_connections co' = co_connections co"
proof -
  obtain co1 r where e: "ensureForwarderManager lookup_ip now co = (co1, r)" by (metis surj_pair)
  note ens = tk_ok_ensure [OF assms(1) e]
  have add: "tk_ok R ((co_tracker co1)\<lparr>tk_manager := Some fm'\<rparr>)"
    if "r = Some fm" "add_forwarders us (fm, resp, dup) = (fm', resp', dup')" for fm us resp dup fm' resp' dup'
  proof -
    have "mgr_ok R fm" using ens(1) ens(2) [OF that(1)] tk_ok_parts by (metis fst_conv mgr_fs_ok_def)
    then have "mgr_ok R fm'" by (rule mgr_ok_add [OF that(2)])
    then show ?thesis by (rule tk_ok_set_manager [OF ens(1) ens(2) [OF that(1)]])
  qed
  have "co' \<in> {co, co1} \<or> (\<exists>fm us resp dup fm' resp' dup'. r = Some fm
      \<and> add_forwarders us (fm, resp, dup) = (fm', resp', dup')
      \<and> co' = co1\<lparr>co_tracker := (co_tracker co1)\<lparr>tk_manager := Some fm'\<rparr>\<rparr>)"
    using assms(2) unfolding HTTPAddForwarderHandler_def Let_def e
    by (auto split: if_splits sum.splits option.splits prod.splits) blast+
  then show ?thesis using assms(1) ens(1,3) add by auto
qed

text \<open>The storage alone.\<close>

lemma tk_ok_storage:
  assumes "tk_ok R tk" "storage_wf st'" "pred_option fs_ok (st_fwd st')"
    and "st_fwd (tk_storage tk) = None \<longleftrightarrow> st_fwd st' = None"
  shows "tk_ok R (tk\<lparr>tk_storage := st'\<rparr>)"
proof -
  have "\<exists>fs. st_fwd st' = Some fs" if "\<exists>fs. st_fwd (tk_storage tk) = Some fs" using assms(4) that by auto
  with assms(1-3) show ?thesis
    by (cases "tk_manager tk") (simp_all add: tk_ok_def tk_wf_def)
qed

lemma fwd_some_delete: "st_fwd (deleteLocked h p st) = None \<longleftrightarrow> st_fwd st = None"
  by (auto simp: deleteLocked_def Let_def split: option.splits)

lemma tk_ok_purge:
  assumes "tk_ok R tk" shows "tk_ok R (tk\<lparr>tk_storage := purgeExpired now (tk_storage tk)\<rparr>)"
proof -
  let ?st = "tk_storage tk"
  have "pred_option fs_ok (st_fwd (purgeExpired now ?st))"
    unfolding purgeExpired_def
    by (rule fold_keeps [where Q = "\<lambda>st. pred_option fs_ok (st_fwd st)"])
       (use assms in \<open>auto simp: tk_ok_def intro: fwd_delete\<close>)
  moreover have "st_fwd (purgeExpired now ?st) = None \<longleftrightarrow> st_fwd ?st = None"
    unfolding purgeExpired_def
    by (rule fold_keeps [where Q = "\<lambda>st. st_fwd st = None \<longleftrightarrow> st_fwd ?st = None"]) (auto simp: fwd_some_delete)
  ultimately show ?thesis
    using assms by (intro tk_ok_storage) (auto simp: tk_ok_def tk_wf_def storage_wf_purge)
qed

lemma tk_ok_close:
  assumes "tk_ok R tk" shows "tk_ok R (tk\<lparr>tk_storage := storage_close (tk_storage tk)\<rparr>)"
proof -
  have "st_fwd (storage_close (tk_storage tk)) = st_fwd (tk_storage tk)"
    unfolding storage_close_def by (rule fold_keeps) auto
  with assms show ?thesis by (intro tk_ok_storage) (auto simp: tk_ok_def tk_wf_def storage_wf_close)
qed

lemma tk_ok_mgr: "tk_ok R tk \<Longrightarrow> tk_manager tk = Some fm \<Longrightarrow> mgr_ok R fm"
  by (simp add: tk_ok_def tk_wf_def)

lemma tk_ok_stats: "tk_ok R tk \<Longrightarrow> tk_ok R (fst (stats_provider_of now tk))"
  using tk_ok_mgr [of R tk]
  by (cases "tk_manager tk")
     (auto simp: stats_provider_of_def forwarderStatsProvider_def Let_def case_prod_beta mgr_ok_suspensions intro!: tk_ok_set_manager)

section \<open>Every reachable state\<close>

lemma with_tracker_simps [simp]:
  "sy_tracker (with_tracker f s) = f (sy_tracker s)" "sy_running (with_tracker f s) = sy_running s"
  "co_connections (sy_core (with_tracker f s)) = co_connections (sy_core s)"
  "co_closed (sy_core (with_tracker f s)) = co_closed (sy_core s)"
  "sy_tracker (s\<lparr>sy_running := r\<rparr>) = sy_tracker s" "sy_tracker (s\<lparr>sy_admitted := r\<rparr>) = sy_tracker s"
  "sy_admitted (with_tracker f s) = sy_admitted s"
  by (simp_all add: with_tracker_def sy_tracker_def)

lemma sys_ok_op: "sys_op s l s' \<Longrightarrow> sys_ok s \<Longrightarrow> sys_ok s'"
proof (induction rule: sys_op.induct)
  case http_announce
  then show ?case by (auto simp: sys_ok_def intro: tk_ok_http)
next
  case (datagram shuffle s err_text random now data ip sv' reply)
  then have "sv' = fst (handlePackets err_text shuffle random now data ip
      \<lparr>sv_connections = co_connections (sy_core s), sv_tracker = sy_tracker s\<rparr>)" by simp
  with datagram show ?case
    using tk_ok_packet [of "set (sy_running s)" "\<lparr>sv_connections = co_connections (sy_core s), sv_tracker = sy_tracker s\<rparr>"]
      connections_packet [of "\<lparr>sv_connections = co_connections (sy_core s), sv_tracker = sy_tracker s\<rparr>"]
    by (simp add: sys_ok_def sy_tracker_def set_handler_state_def)
next
  case (add_forwarder lookup_ip now meth raw first trailing s co' status body)
  with tk_ok_add_handler [OF _ add_forwarder(1), of "set (sy_running s)"] show ?case
    by (simp add: sys_ok_def sy_tracker_def)
next
  case show_stats
  then show ?case by (simp add: sys_ok_def tk_ok_stats)
next
  case (take_job s fm job q)
  then have "mgr_ok (set (sy_running s)) fm" by (auto simp: sys_ok_def intro: tk_ok_mgr)
  then have "mgr_ok (insert job (set (sy_running s))) (fm\<lparr>fm_queue := q\<rparr>)"
    using jobs_inv_take take_job(2) by (simp add: mgr_ok_def)
  with take_job show ?case by (auto simp: sys_ok_def intro: tk_ok_set_manager)
next
  case (complete_job s pre job post e)
  then have "set (sy_running s) = insert job (set (pre @ post))" by auto
  moreover have "tk_manager (sy_tracker s) \<noteq> None"
    using complete_job by (auto simp: sys_ok_def tk_ok_def)
  ultimately show ?case
    using complete_job mgr_fs_worker [of job "set (pre @ post)" _ e]
    by (auto simp: sys_ok_def intro!: tk_ok_with_manager)
next
  case (admit_job job s fm don now fm')
  then have "mgr_ok (set (sy_running s)) fm'"
    using mgr_ok_admit [OF admit_job(5)] tk_ok_mgr by (auto simp: sys_ok_def)
  with admit_job show ?case by (auto simp: sys_ok_def intro: tk_ok_set_manager)
next
  case (finish_job s pre job post e)
  then have "set (sy_running s) = insert job (set (pre @ post))" by auto
  moreover have "tk_manager (sy_tracker s) \<noteq> None"
    using finish_job by (auto simp: sys_ok_def tk_ok_def)
  ultimately show ?case
    using finish_job mgr_fs_finish [of job "set (pre @ post)" _ e]
    by (auto simp: sys_ok_def intro!: tk_ok_with_manager)
next
  case tick
  then show ?case by (auto simp: sys_ok_def intro!: tk_ok_with_manager mgr_fs_tick)
next
  case scale
  then show ?case by (auto simp: sys_ok_def mgr_fs_ok_def mgr_ok_scale intro!: tk_ok_with_manager)
next
  case purge
  then show ?case by (simp add: sys_ok_def tk_ok_purge)
next
  case udp_cleanup
  then show ?case by (simp add: sys_ok_def sy_tracker_def cleanup_connections_def gm_wf_filter)
next
  case close_intake
  then show ?case by (simp add: sys_ok_def sy_tracker_def)
next
  case stop_manager
  then show ?case by (auto simp: sys_ok_def mgr_fs_ok_def mgr_ok_signal intro!: tk_ok_with_manager)
next
  case clear_manager
  then show ?case by (auto simp: sys_ok_def mgr_fs_ok_def mgr_ok_clear intro!: tk_ok_with_manager)
next
  case close_storage
  then show ?case by (simp add: sys_ok_def tk_ok_close)
qed

lemma sys_ok_init:
  assumes "\<forall>f \<in> set (cf_forwards cfg). getName f \<noteq> []"
  shows "sys_ok (sys_init lookup_ip now cfg)"
proof (cases "cf_forwards cfg = []")
  case True
  then show ?thesis
    by (simp add: sys_init_def NewCore_def sys_ok_def sy_tracker_def tk_ok_def tk_wf_def storage_wf_new)
       (simp add: NewStorage_def)
next
  case False
  obtain fm fs where n: "NewForwarderManager lookup_ip now cfg NewForwarderStorage = (fm, fs)" by (metis surj_pair)
  have "mgr_fs_ok {} (fm, fs)" using mgr_fs_new [OF assms fs_ok_ops(1), of lookup_ip now] n by simp
  with False n assms show ?thesis
    by (simp add: sys_init_def NewCore_def sys_ok_def sy_tracker_def tk_ok_def tk_wf_def storage_wf_set_fwd
        storage_wf_new mgr_fs_ok_def)
qed

lemma reachable_ok:
  assumes "reachable cfg s" "\<forall>f \<in> set (cf_forwards cfg). getName f \<noteq> []"
  shows "sys_ok s"
  using assms(1)
proof (induction rule: reachable.induct)
  case start
  show ?case by (rule sys_ok_init [OF assms(2)])
qed (auto simp: sys_step_def intro: sys_ok_op)

end
