(* ===== verification/Examples.thy ===== *)
theory Examples
  imports System
begin

text \<open>
  Concrete states on which the witnesses of the properties run: a tracker that starts with the
  default configuration and one upstream tracker, the same tracker after one HTTP announce, and
  the requests and jobs this makes. Everything here is evaluated by \<open>code_simp\<close>.
\<close>

section \<open>A tracker with one upstream\<close>

definition example_forward :: forward where
  "example_forward = \<lparr>f_name = [], f_uri = ''http://tracker.example.org/announce'', f_ip = [], f_host = []\<rparr>"

definition example_config :: config where
  "example_config = defaultConfig\<lparr>cf_forwards := [example_forward]\<rparr>"

definition example_now :: gotime where
  "example_now = 365 * 24 * hour"

definition example_start :: system where
  "example_start = sys_init (\<lambda>_. Inl ''no such host'') example_now example_config"

definition example_hash :: info_hash where
  "example_hash = replicate 20 (CHR ''h'')"

definition example_peer :: peer_id where
  "example_peer = replicate 20 (CHR ''p'')"

definition example_query :: "string \<Rightarrow> string" where
  "example_query k =
     (if k = ''info_hash'' then example_hash else if k = ''peer_id'' then example_peer
      else if k = ''port'' then ''6881'' else if k \<in> {''uploaded'', ''downloaded''} then ''0''
      else if k = ''left'' then ''5'' else if k = ''event'' then ''started'' else [])"

definition example_request :: request where
  "example_request = \<lparr>rq_timestamp = example_now + hour, rq_remote = ''10.0.0.1'', rq_hash = example_hash,
     rq_peer_id = example_peer, rq_port = 6881, rq_uploaded = 0, rq_downloaded = 0, rq_left = 5, rq_ip = [],
     rq_num_want = 50, rq_compact = False, rq_no_peer_id = False, rq_event = ''started'', rq_user_agent = []\<rparr>"

text \<open>The announce of one peer, and the state it leaves.\<close>

definition example_announce :: "tracker \<times> nat \<times> string" where
  "example_announce = HTTPHandler (\<lambda>_ r. Inr (rs_failure r) :: string + string) (\<lambda>_. ''bad'') id
     (example_now + hour) ''10.0.0.1:999'' [] [] example_query (sy_tracker example_start)"

definition example_state :: system where
  "example_state = with_tracker (\<lambda>_. fst example_announce) example_start"

definition example_manager :: fmgr where
  "example_manager = the (tk_manager (sy_tracker example_state))"

definition example_cache :: fwd_storage where
  "example_cache = the (st_fwd (tk_storage (sy_tracker example_state)))"

definition example_job :: announce_job where
  "example_job = hd (fm_queue example_manager)"

lemma permutes_id: "permutes id"
  by (simp add: permutes_def)

lemma example_name: "getName example_forward = ''tracker.example.org''"
  by code_simp

lemma example_names: "\<forall>f \<in> set (cf_forwards example_config). getName f \<noteq> []"
  by (simp add: example_config_def example_name)

lemma example_op:
  "sys_op example_start (HttpAnnounce (example_now + hour) ''10.0.0.1:999'' [] [] example_query) example_state"
proof -
  obtain tk st b where a: "example_announce = (tk, st, b)" by (cases example_announce)
  show ?thesis
    unfolding example_state_def a fst_conv
    by (rule sys_op.http_announce [OF permutes_id a [unfolded example_announce_def]])
qed

lemma example_step: "sys_step example_start example_state"
  by (rule sys_stepI [OF example_op])

lemma example_reachable: "reachable example_config example_state"
  using reachable.start example_step unfolding example_start_def by (rule reachable.move)

text \<open>One evaluation of the announce gives every fact the witnesses use.\<close>

lemma example_evaluated:
  "case example_announce of (tk, status, body) \<Rightarrow>
     status = 200 \<and>
     (case (tk_manager tk, st_fwd (tk_storage tk)) of
        (Some fm, Some fs) \<Rightarrow>
          length (fm_queue fm) = 1
          \<and> (case hd (fm_queue fm) of j \<Rightarrow>
                aj_hash j = example_hash \<and> aj_fwd j = ''tracker.example.org'' \<and> aj_peer j = example_peer
                \<and> aj_forwarder j = example_forward \<and> job_context j = Some 0 \<and> aj_request j = example_request)
          \<and> isJobPending fm example_hash ''tracker.example.org'' example_peer
          \<and> \<not> fm_stopped fm \<and> fm_forwarders fm = [example_forward] \<and> fm_scheduled fm = []
          \<and> fm_capacity fm = 10000 \<and> fm_config fm = example_config \<and> fs_entries fs = []
          \<and> fm_fail_counts fm = [] \<and> fm_disabled fm = [] \<and> fm_suspended fm = []
      | _ \<Rightarrow> False)
     \<and> st_get (tk_storage tk) example_hash example_peer = Some example_request
     \<and> peerContext (tk_storage tk) example_hash example_peer = Some 0
     \<and> \<not> st_stopped (tk_storage tk) \<and> st_ended (tk_storage tk) = []"
  by code_simp

lemma example_tracker: "sy_tracker example_state = fst example_announce"
  by (simp add: example_state_def)

lemma example_has_manager: "tk_manager (sy_tracker example_state) = Some example_manager"
  and example_has_cache: "st_fwd (tk_storage (sy_tracker example_state)) = Some example_cache"
proof -
  have "tk_manager (sy_tracker example_state) \<noteq> None" "st_fwd (tk_storage (sy_tracker example_state)) \<noteq> None"
    using example_evaluated by (auto simp: example_tracker case_prod_beta split: option.splits)
  then show "tk_manager (sy_tracker example_state) = Some example_manager"
    "st_fwd (tk_storage (sy_tracker example_state)) = Some example_cache"
    by (simp_all add: example_manager_def example_cache_def)
qed

lemma example_queue: "fm_queue example_manager = [example_job]"
proof -
  have "length (fm_queue example_manager) = 1"
    using example_evaluated example_has_manager example_has_cache
    by (simp add: example_tracker case_prod_beta)
  then show ?thesis by (cases "fm_queue example_manager") (auto simp: example_job_def)
qed

lemma example_job_fields:
  "aj_hash example_job = example_hash" "aj_fwd example_job = ''tracker.example.org''"
  "aj_peer example_job = example_peer" "aj_forwarder example_job = example_forward"
  "job_context example_job = Some 0" "aj_request example_job = example_request"
  using example_evaluated example_has_manager example_has_cache example_queue
  by (simp_all add: example_tracker case_prod_beta example_job_def)

lemma example_manager_fields:
  "isJobPending example_manager example_hash ''tracker.example.org'' example_peer"
  "\<not> fm_stopped example_manager" "fm_forwarders example_manager = [example_forward]"
  "fm_scheduled example_manager = []" "fm_capacity example_manager = 10000"
  "fm_config example_manager = example_config" "fs_entries example_cache = []"
  "fm_fail_counts example_manager = []" "fm_disabled example_manager = []" "fm_suspended example_manager = []"
  using example_evaluated example_has_manager example_has_cache
  by (simp_all add: example_tracker case_prod_beta example_job_def)

lemma example_start_idle:
  "\<exists>fm. tk_manager (sy_tracker example_start) = Some fm \<and> fm_queue fm = [] \<and> scheduled_list fm = []
     \<and> sy_running example_start = []"
proof -
  have "case tk_manager (sy_tracker example_start) of
      Some fm \<Rightarrow> fm_queue fm = [] \<and> scheduled_list fm = [] \<and> sy_running example_start = [] | None \<Rightarrow> False"
    by code_simp
  then show ?thesis by (auto split: option.splits)
qed

lemma example_storage_fields:
  "st_get (tk_storage (sy_tracker example_state)) example_hash example_peer = Some example_request"
  "peerContext (tk_storage (sy_tracker example_state)) example_hash example_peer = Some 0"
  "\<not> session_done (tk_storage (sy_tracker example_state)) c"
  using example_evaluated
  by (simp_all add: example_tracker session_done_def case_prod_beta)

lemma example_manager_ok: "mgr_ok {} example_manager" "fs_ok example_cache"
proof -
  have ok: "tk_ok (set (sy_running example_state)) (sy_tracker example_state)"
    using reachable_ok [OF example_reachable example_names] by (simp add: sys_ok_def)
  have "sy_running example_state = []"
    by (simp add: example_state_def example_start_def sys_init_def)
  with tk_ok_mgr [OF ok example_has_manager] show "mgr_ok {} example_manager" by simp
  from ok example_has_cache show "fs_ok example_cache" by (simp add: tk_ok_def)
qed

end
