(* ===== verification/TrackerTheorems.thy ===== *)
theory TrackerTheorems
  imports Examples
begin

text \<open>
  What the receiving side promises: the answer to an announce, the selection of its peers, the
  counts, the registered peers and their sessions, and the acceptance of a request.
\<close>

section \<open>Announces\<close>

text \<open>C5. The answer to an accepted announce: it lists at most the number of peers the client wants,
  which is between 1 and 200, at pairwise different addresses, without the client itself and only of
  the address family asked for; the counts of seeders and leechers add up to the number of different
  addresses known; a normal answer keeps the client away for the configured interval at least, and a
  refusal is one of the two overload messages with the matching interval.\<close>

theorem announce_response:
  assumes "ProcessAnnounce shuffle fam now remote ih pid port up dn lf ip nw ev ua cf nf tk = (tk', Inr resp)"
    and "0 < cf_announce_interval (tk_config tk)"
  shows "\<exists>rq. makeRequest now remote ih pid port up dn lf ip nw ev ua cf nf = Inr rq
    \<and> length (rs_peers resp) \<le> unat (rq_num_want rq) \<and> 1 \<le> rq_num_want rq \<and> rq_num_want rq \<le> 200
    \<and> distinct (map (\<lambda>p. (p_ip p, p_port p)) (rs_peers resp))
    \<and> (\<forall>p \<in> set (rs_peers resp). p_id p \<noteq> pid \<and> family_ok fam p
         \<and> (p_ip p, p_port p) \<noteq> (p_ip (request_peer rq), rq_port rq))
    \<and> rs_complete resp + rs_incomplete resp =
        int (card (ips_of (local_requests (tk_storage tk') ih) (fwd_peers now (st_fwd (tk_storage tk')) ih)))
    \<and> (rs_failure resp = [] \<longrightarrow> cf_announce_interval (tk_config tk) \<le> rs_interval resp
         \<and> rs_min_interval resp = cf_announce_interval (tk_config tk))
    \<and> (rs_failure resp \<noteq> [] \<longrightarrow> rs_min_interval resp = rs_interval resp
         \<and> (rs_failure resp = queue_full_reason \<and> rs_interval resp = cf_announce_interval (tk_config tk)
            \<or> (\<exists>n > 0. rs_failure resp = tracker_busy n \<and> rs_interval resp = n)))"
proof -
  obtain rq tk1 r0 where rq: "makeRequest now remote ih pid port up dn lf ip nw ev ua cf nf = Inr rq"
    and ev: "handle_event shuffle now rq tk = (tk1, r0)"
    and tk': "tk' = tk1" and resp: "resp = finish_response fam now rq tk1 r0"
    using assms(1) by (auto simp: ProcessAnnounce_def split: sum.splits prod.splits)
  note ok = makeRequest_ok [OF rq] and fields = makeRequest_fields [OF rq]
  have want: "1 \<le> rq_num_want rq" "rq_num_want rq \<le> 200" "rq_num_want rq \<noteq> 0"
    using ok by (auto simp: request_ok_def max_num_want_def)
  have cfg: "tk_config tk1 = tk_config tk" using handle_event_config [of shuffle now rq tk] ev by simp
  note peers = filterPeers_props [OF want(3), of fam _ "request_peer rq"]
  obtain seen c i where t: "tally_of (local_requests (tk_storage tk1) (rq_hash rq))
      (fwd_peers now (st_fwd (tk_storage tk1)) (rq_hash rq)) = (seen, c, i)" by (metis surj_pair)
  have counts: "rs_complete resp + rs_incomplete resp =
      int (card (ips_of (local_requests (tk_storage tk1) ih) (fwd_peers now (st_fwd (tk_storage tk1)) ih)))"
    using finish_response_counts [OF t] tally_total(1) [OF t] fields(1) by (simp add: resp)
  have times: "(rs_failure resp = [] \<longrightarrow> cf_announce_interval (tk_config tk) \<le> rs_interval resp
         \<and> rs_min_interval resp = cf_announce_interval (tk_config tk))
    \<and> (rs_failure resp \<noteq> [] \<longrightarrow> rs_min_interval resp = rs_interval resp
         \<and> (rs_failure resp = queue_full_reason \<and> rs_interval resp = cf_announce_interval (tk_config tk)
            \<or> (\<exists>n > 0. rs_failure resp = tracker_busy n \<and> rs_interval resp = n)))"
    using finish_response_fields [where fam = fam and now = now and rq = rq and tk = tk1 and resp = r0]
      handle_event_failure [of shuffle now rq tk] ev cfg assms(2)
    by (auto simp: resp)
  show ?thesis
    using peers times counts want rq fields
    by (intro exI [of _ rq]) (auto simp: resp tk' finish_response_fields wanted_peer_def)
qed

text \<open>The announce of the example is answered.\<close>

lemma http_answered:
  assumes "HTTPHandler bencode err_text shuffle now remote xrealip ua get tk = (tk', 200, body)"
  shows "\<exists>resp. ProcessAnnounce shuffle 0 now (getRemoteAddr (tk_config tk) remote xrealip) (get ''info_hash'')
    (get ''peer_id'') (get ''port'') (get ''uploaded'') (get ''downloaded'') (get ''left'') (get ''ip'')
    (get ''numwant'') (get ''event'') ua (get ''compact'') (get ''no_peer_id'') tk = (tk', Inr resp)"
  using assms by (auto simp: HTTPHandler_def split: prod.splits sum.splits)

definition example_process :: "tracker \<times> (request_error + response)" where
  "example_process = ProcessAnnounce id 0 (example_now + hour)
     (getRemoteAddr (tk_config (sy_tracker example_start)) ''10.0.0.1:999'' [])
     (example_query ''info_hash'') (example_query ''peer_id'') (example_query ''port'') (example_query ''uploaded'')
     (example_query ''downloaded'') (example_query ''left'') (example_query ''ip'') (example_query ''numwant'')
     (example_query ''event'') [] (example_query ''compact'') (example_query ''no_peer_id'') (sy_tracker example_start)"

lemma example_process_answered: "\<exists>resp. example_process = (sy_tracker example_state, Inr resp)"
proof -
  obtain tk b where a: "example_announce = (tk, 200, b)"
    using example_evaluated by (cases example_announce) auto
  from http_answered [OF a [unfolded example_announce_def]]
  show ?thesis by (simp add: example_process_def example_tracker a)
qed

lemma example_start_config: "tk_config (sy_tracker example_start) = example_config"
  by (simp add: example_start_def sys_init_def sy_tracker_def NewCore_def Let_def split: prod.splits)

lemma announce_response_witness:
  "\<exists>resp. example_process = (sy_tracker example_state, Inr resp) \<and> length (rs_peers resp) \<le> 200
     \<and> rs_complete resp + rs_incomplete resp = int (card (ips_of
         (local_requests (tk_storage (sy_tracker example_state)) (example_query ''info_hash''))
         (fwd_peers (example_now + hour) (st_fwd (tk_storage (sy_tracker example_state)))
            (example_query ''info_hash''))))"
proof -
  obtain resp where r: "example_process = (sy_tracker example_state, Inr resp)"
    using example_process_answered by blast
  have "0 < cf_announce_interval (tk_config (sy_tracker example_start))"
    by (simp add: example_start_config example_config_def defaultConfig_def)
  from announce_response [OF r [unfolded example_process_def] this] obtain rq :: request where
    w: "length (rs_peers resp) \<le> unat (rq_num_want rq)" "rq_num_want rq \<le> 200"
    and c: "rs_complete resp + rs_incomplete resp = int (card (ips_of
         (local_requests (tk_storage (sy_tracker example_state)) (example_query ''info_hash''))
         (fwd_peers (example_now + hour) (st_fwd (tk_storage (sy_tracker example_state)))
            (example_query ''info_hash''))))" by blast
  from w(2) have "unat (rq_num_want rq) \<le> 200" by (simp add: word_le_nat_alt)
  with w(1) r c show ?thesis by auto
qed

text \<open>C30. \<open>filterPeers\<close> is the first \<open>numWant\<close> of the peers that are not the requester and are of the
  family, without the later ones at an address already listed.\<close>

theorem filter_peers_spec:
  "filterPeers fam peers requester numWant =
     take (unat (if numWant = 0 then 50 else numWant)) (dedup_peers {} (filter (wanted_peer fam requester) peers))"
proof (cases "numWant = 0")
  case True
  then have "filterPeers fam peers requester numWant = filterPeers fam peers requester 50"
    by (simp add: filterPeers_def default_num_want_def)
  also have "\<dots> = take (unat (50 :: u64)) (dedup_peers {} (filter (wanted_peer fam requester) peers))"
    by (rule filterPeers_eq) simp
  finally show ?thesis using True by simp
qed (simp add: filterPeers_eq)

section \<open>Scrapes\<close>

text \<open>C31. A scrape answers for the torrents asked for and no others; of a torrent it reports as many
  seeders and leechers together as there are different addresses among the registered and the cached
  upstream peers, at most as many leechers as registered addresses, and this total does not depend on
  the order in which the maps are walked.\<close>

theorem scrape_counts:
  "(case getScrapeResponse now st fs hs of
      Inl NoInfohashes \<Rightarrow> hs = []
    | Inl BadInfohash \<Rightarrow> (\<exists>h \<in> set hs. length h \<noteq> 20)
    | Inr files \<Rightarrow> hs \<noteq> [] \<and> (\<forall>h. gm_mem h files \<longleftrightarrow> h \<in> set hs)
        \<and> (\<forall>h s. gm_get files h = Some s \<longrightarrow> length h = 20
             \<and> sc_complete s + sc_incomplete s = int (card (ips_of (local_requests st h) (fwd_peers now fs h)))
             \<and> 0 \<le> sc_incomplete s \<and> sc_incomplete s \<le> int (card (ips_of (local_requests st h) []))
             \<and> sc_downloaded s = sc_complete s))"
proof (cases "getScrapeResponse now st fs hs")
  case (Inl e)
  then show ?thesis
    by (auto simp: getScrapeResponse_def Let_def list_all_iff info_hash_valid_def split: if_splits)
next
  case (Inr files)
  have valid: "hs \<noteq> []" "\<forall>h \<in> set hs. length h = 20"
    using Inr by (auto simp: getScrapeResponse_def Let_def list_all_iff info_hash_valid_def split: if_splits)
  have one: "sc_complete (scrape_one now st fs h) + sc_incomplete (scrape_one now st fs h) =
        int (card (ips_of (local_requests st h) (fwd_peers now fs h)))
      \<and> 0 \<le> sc_incomplete (scrape_one now st fs h)
      \<and> sc_incomplete (scrape_one now st fs h) \<le> int (card (ips_of (local_requests st h) []))
      \<and> sc_downloaded (scrape_one now st fs h) = sc_complete (scrape_one now st fs h)" for h
  proof -
    obtain seen c i where t: "tally_of (local_requests st h) (fwd_peers now fs h) = (seen, c, i)"
      by (metis surj_pair)
    show ?thesis using tally_total [OF t] by (simp add: scrape_one_def t)
  qed
  show ?thesis
    using valid one by (simp add: Inr getScrapeResponse_get [OF Inr])
qed

lemma scrape_counts_witness:
  "sc_complete (scrape_one example_now (NewStorage 180) None example_hash) +
   sc_incomplete (scrape_one example_now (NewStorage 180) None example_hash) =
     int (card (ips_of (local_requests (NewStorage 180) example_hash) (fwd_peers example_now None example_hash)))"
proof -
  have r: "getScrapeResponse example_now (NewStorage 180) None [example_hash] =
      Inr [(example_hash, scrape_one example_now (NewStorage 180) None example_hash)]"
    by code_simp
  show ?thesis
    using scrape_counts [where now = example_now and st = "NewStorage 180" and fs = None and hs = "[example_hash]"] by (simp add: r)
qed

section \<open>Registered peers and their sessions\<close>

text \<open>C28. Every operation of the peer store keeps it well formed: requests are filed under their
  torrent and peer, no torrent has an empty peer list, a session context belongs to one peer only and
  is not an ended one, and while the store runs exactly the registered peers have a session.\<close>

theorem storage_invariant:
  assumes "storage_wf st"
  shows "storage_wf (fst (storage_update r st)) \<and> storage_wf (storage_delete r st)
    \<and> storage_wf (purgeExpired now st) \<and> storage_wf (storage_close st) \<and> storage_wf (NewStorage age)"
  using assms by (simp add: storage_delete_def inv_intros)

lemma storage_invariant_witness:
  "storage_wf (storage_delete example_request (fst (storage_update example_request (NewStorage 180))))"
  using storage_invariant [OF storage_wf_update [OF storage_wf_new], of example_request] by blast

text \<open>C29. \<open>purgeExpired\<close> removes exactly the peers whose last announce is older than the configured
  age, and leaves the other peers alone. It cancels exactly the contexts of the peers that it removes: a
  context is cancelled afterwards if and only if it was before or belonged to a removed peer. A removed peer
  has no session any more, and the others keep theirs.\<close>

theorem purge_exact:
  assumes "storage_wf st" and "\<not> st_stopped st"
  shows "(\<forall>h p. st_get (purgeExpired now st) h p =
        (case st_get st h p of None \<Rightarrow> None
         | Some r \<Rightarrow> if timeStampDelta now r > st_age st then None else Some r))
    \<and> (\<forall>h p. peerContext (purgeExpired now st) h p =
          (if st_get (purgeExpired now st) h p = None then None else peerContext st h p))
    \<and> (\<forall>c. session_done (purgeExpired now st) c \<longleftrightarrow> session_done st c
          \<or> (\<exists>h p. peerContext st h p = Some c \<and> st_get (purgeExpired now st) h p = None))"
proof -
  have get: "st_get (purgeExpired now st) h p =
      (case st_get st h p of None \<Rightarrow> None
       | Some r \<Rightarrow> if timeStampDelta now r > st_age st then None else Some r)" for h p
    using assms by (simp add: st_get_purge storage_wf_def)
  have none: "peerContext st h p = None" if "st_get st h p = None" for h p
    using assms that by (simp add: storage_wf_def sessions_match_def)
  have key: "(h, p) \<in> set (expired_keys now st) \<longleftrightarrow> st_get st h p \<noteq> None \<and> st_get (purgeExpired now st) h p = None" for h p
    using assms(1) by (auto simp: get expired_keys_iff storage_wf_def split: option.splits)
  have "peerContext (purgeExpired now st) h p =
        (if st_get (purgeExpired now st) h p = None then None else peerContext st h p)" for h p
    using none [of h p] key [of h p] fold_delete_context [of "expired_keys now st" st h p]
    by (auto simp: purgeExpired_def [symmetric] get split: option.splits)
  moreover have "session_done (purgeExpired now st) c \<longleftrightarrow> session_done st c
      \<or> (\<exists>h p. peerContext st h p = Some c \<and> st_get (purgeExpired now st) h p = None)" for c
    using none key fold_delete_done [of "expired_keys now st" st c]
    unfolding purgeExpired_def [symmetric] by fastforce
  ultimately show ?thesis using get by blast
qed

lemma purge_exact_witness:
  "let st = fst (storage_update example_request (NewStorage 180)); st' = purgeExpired (example_now + 10 * hour) st
   in st_get st example_hash example_peer = Some example_request \<and> st_get st' example_hash example_peer = None
     \<and> \<not> session_done st 0 \<and> session_done st' 0"
proof -
  define st where "st = fst (storage_update example_request (NewStorage 180))"
  have wf: "storage_wf st" unfolding st_def by (intro inv_intros)
  have st: "\<not> st_stopped st" "st_get st example_hash example_peer = Some example_request"
    "peerContext st example_hash example_peer = Some 0" "\<not> session_done st 0"
    "timeStampDelta (example_now + 10 * hour) example_request > st_age st"
    unfolding st_def by code_simp+
  note purged = purge_exact [OF wf st(1), of "example_now + 10 * hour"]
  have gone: "st_get (purgeExpired (example_now + 10 * hour) st) example_hash example_peer = None"
    using purged st(2,5) by simp
  moreover have "session_done (purgeExpired (example_now + 10 * hour) st) 0" using purged gone st(3) by blast
  ultimately show ?thesis using st(2,4) unfolding st_def [symmetric] Let_def by simp
qed

text \<open>C27. Once a peer's session is ended, by a stop or by its expiry, its context stays cancelled
  whatever announces and removals follow, and if the peer comes back it gets a different context: work
  queued for the old session can never pass for work of the new one.\<close>

theorem session_cancellation:
  assumes "storage_wf st" and "peerContext st h p = Some c"
    and "sts.run ops (deleteLocked h p st) st'"
  shows "session_done st' c
    \<and> (\<forall>r. rq_hash r = h \<and> rq_peer_id r = p \<longrightarrow> snd (storage_update r (deleteLocked h p st)) \<noteq> c)"
proof
  have close: "closes (h, p) st (deleteLocked h p st)" by (simp add: closes_def)
  have ctx: "peerContext st (fst (h, p)) (snd (h, p)) = Some c" using assms(2) by simp
  show "session_done st' c" by (rule sts.closed_for_good [OF assms(1) ctx close assms(3)])
  show "\<forall>r. rq_hash r = h \<and> rq_peer_id r = p \<longrightarrow> snd (storage_update r (deleteLocked h p st)) \<noteq> c"
  proof (intro allI impI)
    fix r :: request assume r: "rq_hash r = h \<and> rq_peer_id r = p"
    have "opens (h, p) (deleteLocked h p st) (fst (storage_update r (deleteLocked h p st)))"
      using r by (auto simp: opens_def)
    moreover have "peerContext (fst (storage_update r (deleteLocked h p st))) (fst (h, p)) (snd (h, p)) =
        Some (snd (storage_update r (deleteLocked h p st)))"
      using r by (simp add: peerContext_update)
    ultimately show "snd (storage_update r (deleteLocked h p st)) \<noteq> c"
      by (rule sts.reopen_differs [OF assms(1) ctx close])
  qed
qed

lemma session_cancellation_witness:
  "session_done (deleteLocked example_hash example_peer (tk_storage (sy_tracker example_state))) 0"
proof -
  have "tk_ok (set (sy_running example_state)) (sy_tracker example_state)"
    using reachable_ok [OF example_reachable example_names] by (simp add: sys_ok_def)
  then have wf: "storage_wf (tk_storage (sy_tracker example_state))" by (simp add: tk_ok_def tk_wf_def)
  show ?thesis
    using session_cancellation [OF wf example_storage_fields(2) sts.run_nil] by blast
qed

section \<open>Requests\<close>

text \<open>C32. \<open>MakeRequest\<close> accepts an announce exactly when the torrent and peer ids have 20 bytes, the
  port is a number from 1 to 65535 and the three counters parse as unsigned numbers, and then the request
  is determined: the ids, the port and each counter are those of the announce, the peer count is the number that
  was asked for, at most 200, or 50 when there is none, an event that is not known is dropped, the flags are
  set by the text 1, and the time, the addresses and the user agent are carried over. So it is well formed, and
  its peer has the address that the announce gives, or else the one it came from.\<close>

theorem request_acceptance:
  "makeRequest now remote ih pid port up dn lf ip nw ev ua cf nf = Inr r \<longleftrightarrow>
     length ih = 20 \<and> length pid = 20
     \<and> (\<exists>d u n l. atoi port = Inr d \<and> 1 \<le> d \<and> d \<le> 65535
         \<and> parse_uint64 up = Inr u \<and> parse_uint64 dn = Inr n \<and> parse_uint64 lf = Inr l
         \<and> r = \<lparr>rq_timestamp = now, rq_remote = remote, rq_hash = ih, rq_peer_id = pid, rq_port = d,
                rq_uploaded = of_nat u, rq_downloaded = of_nat n, rq_left = of_nat l, rq_ip = ip,
                rq_num_want = (case parse_uint64 nw of Inl e \<Rightarrow> 50 | Inr k \<Rightarrow> if k = 0 then 50 else of_nat (min k 200)),
                rq_compact = (cf = ''1''), rq_no_peer_id = (nf = ''1''),
                rq_event = (if ev \<in> {''started'', ''stopped'', ''completed''} then ev else []), rq_user_agent = ua\<rparr>
         \<and> request_ok r \<and> p_ip (request_peer r) = (if ip = [] then remote else ip))"
proof -
  have none: "\<exists>e. parse_uint64 [] = Inl e" by (simp add: parse_uint64_def)
  have want: "normalizeNumWant (of_nat k) = (if k = 0 then 50 else of_nat (min k 200))"
    if "parse_uint64 nw = Inr k" for k
    using parse_uint64_bound [OF that] normalizeNumWant_of_nat [of k] by simp
  have num: "normalizeNumWant (if nw \<noteq> [] then (case parse_uint64 nw of Inr n \<Rightarrow> of_nat n | Inl e \<Rightarrow> 0) else 0) =
      (case parse_uint64 nw of Inl e \<Rightarrow> 50 | Inr k \<Rightarrow> if k = 0 then 50 else of_nat (min k 200))"
    using none want by (auto simp: normalizeNumWant_def default_num_want_def split: sum.splits)
  have ev: "(if known_event ev then ev else []) = (if ev \<in> {''started'', ''stopped'', ''completed''} then ev else [])"
    by (auto simp: known_event_def ev_started_def ev_stopped_def ev_completed_def)
  have made: "makeRequest now remote ih pid port up dn lf ip nw ev ua cf nf = Inr r \<longleftrightarrow>
      length ih = 20 \<and> length pid = 20
      \<and> (\<exists>d u n l. atoi port = Inr d \<and> 1 \<le> d \<and> d \<le> 65535
          \<and> parse_uint64 up = Inr u \<and> parse_uint64 dn = Inr n \<and> parse_uint64 lf = Inr l
          \<and> r = \<lparr>rq_timestamp = now, rq_remote = remote, rq_hash = ih, rq_peer_id = pid, rq_port = d,
                 rq_uploaded = of_nat u, rq_downloaded = of_nat n, rq_left = of_nat l, rq_ip = ip,
                 rq_num_want = normalizeNumWant (if nw \<noteq> [] then (case parse_uint64 nw of Inr n \<Rightarrow> of_nat n | Inl e \<Rightarrow> 0) else 0),
                 rq_compact = (cf = ''1''), rq_no_peer_id = (nf = ''1''),
                 rq_event = (if known_event ev then ev else []), rq_user_agent = ua\<rparr>)"
    by (auto simp: makeRequest_def parse_field_def Let_def info_hash_valid_def peer_id_valid_def split: sum.split)
  have "request_ok r \<and> p_ip (request_peer r) = (if ip = [] then remote else ip)"
    if "makeRequest now remote ih pid port up dn lf ip nw ev ua cf nf = Inr r"
    using makeRequest_ok [OF that] makeRequest_fields [OF that] by (simp add: request_peer_ip)
  with made show ?thesis unfolding num ev by blast
qed

lemma request_acceptance_witness:
  "makeRequest (example_now + hour) ''10.0.0.1'' example_hash example_peer ''6881'' ''0'' ''0'' ''5'' [] []
      ''started'' [] [] [] = Inr example_request \<and> request_ok example_request"
proof -
  have r: "makeRequest (example_now + hour) ''10.0.0.1'' example_hash example_peer ''6881'' ''0'' ''0'' ''5'' [] []
      ''started'' [] [] [] = Inr example_request"
    by code_simp
  show ?thesis using r request_acceptance [THEN iffD1, OF r] by blast
qed

section \<open>Client statistics\<close>

text \<open>The client table of the statistics has an entry for exactly the pairs of address and client
  name among the registered peers; the torrents of an entry are those its peers are registered for,
  each once, and its time is that of the latest of their announces.\<close>

theorem client_statistics:
  assumes "storage_wf st"
  shows "case gm_get (collect_clients st) k of
      None \<Rightarrow> \<not> (\<exists>h p r. st_get st h p = Some r \<and> client_key r = k)
    | Some c \<Rightarrow> distinct (ca_hashes c)
        \<and> set (ca_hashes c) = {hex_string h | h p r. st_get st h p = Some r \<and> client_key r = k}
        \<and> (\<exists>h p r. st_get st h p = Some r \<and> client_key r = k \<and> rq_timestamp r = ca_last c)
        \<and> (\<forall>h p r. st_get st h p = Some r \<and> client_key r = k \<longrightarrow> rq_timestamp r \<le> ca_last c)"
proof -
  have set: "set (hashed_requests st) = {(hex_string h, rq) | h p rq. st_get st h p = Some rq}"
    using assms by (simp add: hashed_requests_set storage_wf_def)
  define mine where "mine = {x \<in> set (hashed_requests st). client_key (snd x) = k}"
  have mine: "mine = {(hex_string h, r) | h p r. st_get st h p = Some r \<and> client_key r = k}"
    unfolding mine_def set by (auto; blast)
  have "client_entry (hashed_requests st) k (gm_get (collect_clients st) k)" by (rule collect_clients_entry)
  then show ?thesis
    unfolding client_entry_def Let_def mine_def [symmetric]
    by (cases "gm_get (collect_clients st) k") (force simp: mine image_iff)+
qed

lemma client_statistics_witness:
  "\<exists>c. gm_get (collect_clients (fst (storage_update example_request (NewStorage 180)))) (client_key example_request) =
     Some c \<and> ca_last c = example_now + hour"
proof -
  have wf: "storage_wf (fst (storage_update example_request (NewStorage 180)))" by (intro inv_intros)
  have get: "st_get (fst (storage_update example_request (NewStorage 180))) h p =
      (if h = example_hash \<and> p = example_peer then Some example_request else None)" for h p
    by (simp add: st_get_update) (simp add: example_request_def NewStorage_def st_get_def st_inner_def gm_get_or_def)
  have "rq_timestamp example_request = example_now + hour" by (simp add: example_request_def)
  with client_statistics [OF wf, of "client_key example_request"] show ?thesis
    by (auto simp: get split: option.splits if_splits)
qed

end
