(* ===== verification/ForwarderTheorems.thy ===== *)
theory ForwarderTheorems
  imports Examples
begin

text \<open>
  What the forwarding side promises: the treatment of an upstream's answers and failures, the reading
  limit and the waits of the HTTP client, the choice of the announces to queue, the scheduler, the
  retries an upstream asks for, the cancelling of work, and the cache of upstream peers.
\<close>

section \<open>Results of an announce\<close>

definition example_attempt :: http_attempt where
  "example_attempt = \<lparr>ha_stopping = False, ha_canceled = False, ha_wait = TimerFired,
     ha_reply = RequestFailed context_canceled, ha_done = (\<lambda>_ _. False), ha_now = example_now, ha_elapsed = 0\<rparr>"

text \<open>C13. An upstream that answers 400, 403 or 404 is taken out: it is disabled, no longer in the
  list of forwarders, none of its peers stays in the cache, and the other upstreams' cached peers are
  untouched.\<close>

theorem rejection_disables:
  assumes "isTrackerRejection code" and "\<not> canceled (don 0) job" "\<not> canceled (don 1) job" "\<not> fm_stopped fm"
    and "named (getName (aj_forwarder job)) fm" and "distinct (map getName (fm_forwarders fm))" and "fs_wf fs"
  shows "let name = getName (aj_forwarder job);
      result = snd (doSingleHTTPRequest decode job (a\<lparr>ha_reply := HttpReply code status cl b\<rparr>) (fm, fs));
      s' = handleAnnounceResult don now job result (fm, fs)
    in isDisabled (fst s') name
      \<and> fm_forwarders (fst s') = filter (\<lambda>f. getName f \<noteq> name) (fm_forwarders fm)
      \<and> (\<forall>h n. fs_get (snd s') h n = (if n = name then None else fs_get fs h n))"
proof -
  have code: "code \<noteq> 200" using assms(1) by (auto simp: isTrackerRejection_def)
  define r where "r = buildFailureResult (ha_elapsed a) (Some (http_status_error code status))"
  have r: "snd (doSingleHTTPRequest decode job (a\<lparr>ha_reply := HttpReply code status cl b\<rparr>) (fm, fs)) = r"
    using code by (simp add: doSingleHTTPRequest_def r_def)
  have flags: "\<not> ar_success r" "\<not> ar_deferred r" "ar_non_retryable r" "\<not> ar_suspend r"
    using buildFailure_flags(1,2) [of "ha_elapsed a" "Some (http_status_error code status)"]
      buildFailure_flags(3) buildFailure_rejection [OF assms(1)] by (auto simp: r_def)
  show ?thesis
    unfolding Let_def r live_permanent [OF flags assms(2-5)]
    using assms(5-7)
    by (simp add: disable_fields disable_forwarders disable_frame remove_first_distinct fs_get_forget)
qed

lemma example_job_live: "\<not> canceled (\<lambda>_. False) example_job"
  by (simp add: canceled_def ctx_done_def split: option.splits)

lemma rejection_disables_witness:
  "fm_forwarders (fst (handleAnnounceResult (\<lambda>_ _. False) example_now example_job
     (snd (doSingleHTTPRequest (\<lambda>_. Inl context_canceled) example_job
        (example_attempt\<lparr>ha_reply := HttpReply 404 ''Not Found'' 0 ([], None)\<rparr>) (example_manager, example_cache)))
     (example_manager, example_cache))) = []"
proof -
  have r: "isTrackerRejection 404" by (simp add: isTrackerRejection_def)
  have n: "named (getName (aj_forwarder example_job)) example_manager"
    by (simp add: named_def example_manager_fields example_job_fields)
  have d: "distinct (map getName (fm_forwarders example_manager))" by (simp add: example_manager_fields)
  have w: "fs_wf example_cache" using example_manager_ok(2) by (simp add: fs_ok_def)
  show ?thesis
    using rejection_disables [where don = "\<lambda>_ _. False", OF r example_job_live example_job_live example_manager_fields(2) n d w]
    by (simp add: Let_def example_job_fields example_manager_fields)
qed

text \<open>C14. An upstream that answers 429 is suspended from now on for the configured number of seconds and not
  longer; five minutes stand in for a number that is not positive (beyond 9223372036 seconds in either direction
  the product overflows, and the time is still positive). It stays in the list, no other upstream is suspended
  or released, and the cache is untouched.\<close>

theorem rate_limit_suspends:
  assumes "\<not> canceled (don 0) job" "\<not> canceled (don 1) job" "\<not> fm_stopped fm"
  shows "let name = getName (aj_forwarder job);
      result = snd (doSingleHTTPRequest decode job (a\<lparr>ha_reply := HttpReply 429 status cl b\<rparr>) (fm, fs));
      s' = handleAnnounceResult don now job result (fm, fs);
      seconds = cf_forwarder_suspend_seconds (fm_config fm)
    in snd s' = fs \<and> fm_forwarders (fst s') = fm_forwarders fm
      \<and> (\<exists>d > 0. (0 < seconds \<and> seconds \<le> 9223372036 \<longrightarrow> d = seconds * 10 ^ 9)
           \<and> (- 9223372036 \<le> seconds \<and> seconds \<le> 0 \<longrightarrow> d = 300 * 10 ^ 9)
           \<and> (\<forall>n t. suspended_at (fst s') n t \<longleftrightarrow> (if n = name then t \<le> now + d else suspended_at fm n t)))"
proof -
  define r where "r = buildFailureResult (ha_elapsed a) (Some (http_status_error 429 status))"
  have r: "snd (doSingleHTTPRequest decode job (a\<lparr>ha_reply := HttpReply 429 status cl b\<rparr>) (fm, fs)) = r"
    by (simp add: doSingleHTTPRequest_def r_def)
  have "\<not> ar_success r" "\<not> ar_deferred r" "ar_suspend r"
    by (simp_all add: r_def buildFailure_flags buildFailure_429)
  from live_suspend [OF this assms, of now fs] obtain reason where
    h: "handleAnnounceResult don now job r (fm, fs) = (suspendForwarderWithReason now (getName (aj_forwarder job))
       (suspend_duration (fm_config fm)) reason fm, fs)" by blast
  show ?thesis
    unfolding Let_def r h
    by (intro conjI exI [of _ "suspend_duration (fm_config fm)"])
      (simp_all add: suspend_duration_pos suspend_duration_seconds second_def suspended_at_suspend forwarders_bookkeeping)
qed

lemma rate_limit_suspends_witness:
  "suspended_at (fst (handleAnnounceResult (\<lambda>_ _. False) example_now example_job
     (snd (doSingleHTTPRequest (\<lambda>_. Inl context_canceled) example_job
        (example_attempt\<lparr>ha_reply := HttpReply 429 ''Too Many Requests'' 0 ([], None)\<rparr>)
        (example_manager, example_cache)))
     (example_manager, example_cache))) ''tracker.example.org'' (example_now + 300 * 10 ^ 9)"
proof -
  have "cf_forwarder_suspend_seconds (fm_config example_manager) = 300"
    by (simp add: example_manager_fields example_config_def defaultConfig_def)
  with rate_limit_suspends [where don = "\<lambda>_ _. False", OF example_job_live example_job_live example_manager_fields(2)]
  show ?thesis by (auto simp add: Let_def example_job_fields example_name)
qed

text \<open>C15. A result that arrives after its peer's session has ended, or after the manager was stopped,
  changes nothing: neither the cache nor the statistics nor the standing of the upstream. A job whose
  session has ended before a worker takes it is dropped without any announce.\<close>

theorem stale_work_ignored:
  "(canceled (don 0) job \<or> canceled (don 1) job \<or> fm_stopped (fst s) \<longrightarrow>
      handleAnnounceResult don now job r s = s)
   \<and> (canceled (ae_done e) job \<longrightarrow>
      worker_step e job s = (finishJob job (fst s), snd s) \<and> executeAnnounce e job s = s)"
  by (auto simp: result_eq worker_step_def worker_action_def executeAnnounce_def Let_def split: prod.splits)

lemma stale_work_ignored_witness:
  "handleAnnounceResult (\<lambda>_ _. True) example_now example_job
     (empty_result\<lparr>ar_success := True\<rparr>) (example_manager, example_cache) = (example_manager, example_cache)"
proof -
  have "canceled (\<lambda>_. True) example_job" by (simp add: canceled_def ctx_done_def example_job_fields)
  with stale_work_ignored [where don = "\<lambda>_ _. True" and job = example_job] show ?thesis by blast
qed

section \<open>The HTTP client\<close>

text \<open>C17. A response is accepted exactly when neither its announced nor its actual length is above
  1 MiB and the body ends without an error, and then it is taken whole: no announce buffers more, and
  none is cut.\<close>

theorem response_limit:
  "readHTTPAnnounceResponse contentLength (content, err) = Inr payload \<longleftrightarrow>
     contentLength \<le> 2 ^ 20 \<and> length content \<le> 2 ^ 20 \<and> err = None \<and> payload = content"
  by (simp add: readHTTP_iff maxForwarderHTTPResponseBytes_def)

lemma config_retry:
  "fm_config (fst (fst (handleRetryError don now job reason retryIn s))) = fm_config (fst s)"
proof (cases s)
  case (Pair fm fs)
  have "fm_config (put_retry d job r fm) = fm_config fm" for d r
    by (simp add: put_retry_def Let_def case_prod_beta scheduleJob_def)
  then show ?thesis
    unfolding Pair
    by (cases rule: handleRetryError_cases [of don now job reason retryIn fm fs]) (simp_all add: disable_frame)
qed

lemma config_attempt: "fm_config (fst (fst (doSingleHTTPRequest decode job a s))) = fm_config (fst s)"
proof -
  consider "fst (doSingleHTTPRequest decode job a s) = s"
    | reason retryIn where "fst (doSingleHTTPRequest decode job a s) =
        fst (handleRetryError (ha_done a) (ha_now a) job reason retryIn s)"
    using doSingle_state [of decode job a s] by blast
  then show ?thesis by cases (simp_all add: config_retry)
qed

lemma retry_wait_plain:
  assumes "i < 62" "http_backoff cfg * 2 ^ i < 2 ^ 63"
  shows "retry_wait cfg i = http_backoff cfg * 2 ^ i"
proof -
  have "(2 :: int) ^ i < 2 ^ 63" using assms(1) by (intro power_strict_increasing) simp_all
  then have "wrap64 (2 ^ i) = 2 ^ i" by (intro wrap64_id) (simp_all add: order_trans [of _ 0])
  moreover have "0 < http_backoff cfg"
    by (simp add: http_backoff_def Let_def millisecond_def)
  then have "0 < http_backoff cfg * 2 ^ i" by simp
  ultimately show ?thesis
    using assms(2) by (simp add: retry_wait_def wrap64_id)
qed

lemma http_backoff_plain:
  assumes "\<bar>cf_forwarder_retry_base_ms cfg\<bar> \<le> 9223372036854"
  shows "http_backoff cfg = (if cf_forwarder_retry_base_ms cfg \<le> 0 then 500 else cf_forwarder_retry_base_ms cfg) * 10 ^ 6"
proof -
  have "wrap64 (cf_forwarder_retry_base_ms cfg * millisecond) = cf_forwarder_retry_base_ms cfg * 10 ^ 6"
    using assms by (simp add: millisecond_def wrap64_id)
  then show ?thesis by (auto simp: http_backoff_def Let_def millisecond_def)
qed

text \<open>C18. An HTTP announce is a sequence of attempts, at most the configured number (one if that is not
  positive), with a wait before each but the first: the wait before attempt \<open>i\<close> (counted from 0) is \<open>2 ^ i\<close> times
  the configured base of milliseconds, 500 if that is not positive, as long as this product fits into 64 bits.
  A stop or the end of the session can cut the sequence in a wait. When neither happens and every attempt ends
  in a failure that is to be retried, all of the configured attempts are made, and the announce fails.\<close>

theorem retry_waits:
  assumes "doHTTPAnnounce render decode job env s = (s', r, acts)"
    and "cfg = fm_config (fst s)" and "n = nat (max 1 (cf_forwarder_retry_attempts cfg))"
    and "base = (if cf_forwarder_retry_base_ms cfg \<le> 0 then 500 else cf_forwarder_retry_base_ms cfg) * 10 ^ 6"
  shows "(\<exists>k \<le> n. \<exists>cut w. acts =
        concat (map (\<lambda>i. (if i = 0 then [] else [Waited (w i)]) @ [Attempted]) [0..<k]) @ (if cut then [Waited (w k)] else [])
      \<and> (cut \<longrightarrow> 0 < k \<and> k < n)
      \<and> (\<forall>i < 62. \<bar>cf_forwarder_retry_base_ms cfg\<bar> \<le> 9223372036854 \<longrightarrow> base * 2 ^ i < 2 ^ 63 \<longrightarrow> w i = base * 2 ^ i)
      \<and> ((\<forall>i < n. retried decode job (env (buildAnnounceURI render (aj_forwarder job) (aj_request job) []) i)) \<longrightarrow>
           k = n \<and> \<not> ar_success r))"
proof -
  have n: "http_attempts cfg = n" by (simp add: http_attempts_def assms(3) max_def)
  have "\<exists>k \<le> n. \<exists>cut. acts = concat (map (attempt_actions cfg) [0..<k]) @ (if cut then [Waited (retry_wait cfg k)] else [])
      \<and> (cut \<longrightarrow> 0 < k \<and> k < n)
      \<and> ((\<forall>i \<in> {0..<n}. retried decode job (env (buildAnnounceURI render (aj_forwarder job) (aj_request job) []) i)) \<longrightarrow>
           k = n \<and> \<not> ar_success r)"
    using http_loop_actions [OF assms(1) [unfolded doHTTPAnnounce_def] config_attempt]
    unfolding assms(2) [symmetric] n append_Nil add_0 .
  then obtain k cut where k: "k \<le> n"
    "acts = concat (map (attempt_actions cfg) [0..<k]) @ (if cut then [Waited (retry_wait cfg k)] else [])"
    "cut \<longrightarrow> 0 < k \<and> k < n"
    "(\<forall>i \<in> {0..<n}. retried decode job (env (buildAnnounceURI render (aj_forwarder job) (aj_request job) []) i)) \<longrightarrow>
       k = n \<and> \<not> ar_success r" by blast
  have rounds: "attempt_actions cfg = (\<lambda>i. (if i = 0 then [] else [Waited (retry_wait cfg i)]) @ [Attempted])"
    by (auto simp: attempt_actions_def)
  have "retry_wait cfg i = base * 2 ^ i"
    if "i < 62" "\<bar>cf_forwarder_retry_base_ms cfg\<bar> \<le> 9223372036854" "base * 2 ^ i < 2 ^ 63" for i
    using retry_wait_plain [of i cfg] http_backoff_plain [OF that(2)] that unfolding assms(4) by simp
  with k show ?thesis
    unfolding rounds by (intro exI [of _ k] conjI exI [of _ cut] exI [of _ "retry_wait cfg"]) auto
qed

text \<open>A refused connection, and five attempts: all are made.\<close>

lemma retry_waits_witness:
  "snd (snd (doHTTPAnnounce u_raw_query (\<lambda>_. Inl context_canceled) example_job (\<lambda>_ _. example_attempt)
     (example_manager, example_cache))) =
     [Attempted, Waited (10 ^ 9), Attempted, Waited (2 * 10 ^ 9), Attempted, Waited (4 * 10 ^ 9), Attempted,
      Waited (8 * 10 ^ 9), Attempted]"
proof -
  obtain s' r acts where d: "doHTTPAnnounce u_raw_query (\<lambda>_. Inl context_canceled) example_job (\<lambda>_ _. example_attempt)
     (example_manager, example_cache) = (s', r, acts)" by (metis surj_pair)
  have cfg: "cf_forwarder_retry_attempts (fm_config example_manager) = 5"
    "cf_forwarder_retry_base_ms (fm_config example_manager) = 500"
    by (simp_all add: example_manager_fields example_config_def defaultConfig_def)
  have "retried (\<lambda>_. Inl context_canceled) example_job example_attempt"
    by (simp add: retried_def doSingleHTTPRequest_def example_attempt_def Let_def) (code_simp)
  with retry_waits [OF d refl refl refl] obtain k cut w where k: "k = 5" "cut \<longrightarrow> k < 5"
    "acts = concat (map (\<lambda>i. (if i = 0 then [] else [Waited (w i)]) @ [Attempted]) [0..<k]) @ (if cut then [Waited (w k)] else [])"
    and w: "\<forall>i < 62. 500 * 10 ^ 6 * 2 ^ i < (2 :: int) ^ 63 \<longrightarrow> w i = 500 * 10 ^ 6 * 2 ^ i"
    unfolding fst_conv cfg by (auto simp: max_def)
  have "w 1 = 10 ^ 9" "w 2 = 2 * 10 ^ 9" "w 3 = 4 * 10 ^ 9" "w 4 = 8 * 10 ^ 9"
    using w [rule_format, of 1] w [rule_format, of 2] w [rule_format, of 3] w [rule_format, of 4] by simp_all
  with k show ?thesis by (simp add: d upt_rec numeral_2_eq_2 [symmetric])
qed

section \<open>Queueing\<close>

text \<open>C19. For a live session, an announce queues jobs as follows. The upstreams that are neither
  suspended nor busy with a job of this torrent and peer are considered; those without a cache entry
  come first, those whose next announce is due follow, the most overdue first; of this sequence as many
  are queued, in order, as the limit of the moment and the free places allow. Exactly the queued ones
  become pending.\<close>

theorem queue_selects:
  assumes "jobs_inv fm R" "\<not> fm_stopped fm" "fm_forwarders fm \<noteq> []"
    and "\<not> ctx_done don ctx" and "permutes shuffle" and "distinct (map getName (fm_forwarders fm))"
  shows "\<exists>new due js.
      fm_queue (queueEligibleAnnounces shuffle don now h rq ctx fs fm) = fm_queue fm @ js
    \<and> list_all2 (\<lambda>f j. aj_forwarder j = f \<and> aj_fwd j = getName f \<and> aj_hash j = h \<and> aj_peer j = rq_peer_id rq
          \<and> aj_request j = rq \<and> job_context j = ctx)
        (take (min (nat (snd (announce_limit fm))) (fm_capacity fm - length (fm_queue fm))) (new @ due)) js
    \<and> new = filter (new_forwarder fm fs now h (rq_peer_id rq)) (shuffle (fm_forwarders fm))
    \<and> mset due = mset (filter (due_forwarder fm fs now h (rq_peer_id rq)) (fm_forwarders fm))
    \<and> sorted_wrt (\<lambda>f g. overdue_of fs now h (getName g) \<le> overdue_of fs now h (getName f)) due
    \<and> (\<forall>n p. isJobPending (queueEligibleAnnounces shuffle don now h rq ctx fs fm) h n p \<longleftrightarrow>
         isJobPending fm h n p \<or> (p = rq_peer_id rq \<and> (\<exists>j \<in> set js. aj_fwd j = n)))"
proof -
  have m: "mset (shuffle (fm_forwarders fm)) = mset (fm_forwarders fm)" using assms(5) by (simp add: permutes_def)
  then have "mset (map getName (shuffle (fm_forwarders fm))) = mset (map getName (fm_forwarders fm))"
    by (metis mset_map)
  then have d: "distinct (map getName (shuffle (fm_forwarders fm)))"
    using assms(6) mset_eq_imp_distinct_iff by blast
  have wf: "gm_wf (fm_pending fm)" using assms(1) by (simp add: jobs_inv_def)
  obtain new due js where q: "fm_queue (queueEligibleAnnounces shuffle don now h rq ctx fs fm) = fm_queue fm @ js"
    and all: "list_all2 (queued_job h rq ctx) (take (room (snd (announce_limit fm)) 0 fm) (new @ due)) js"
    and new: "map el_forwarder new = filter (new_forwarder fm fs now h (rq_peer_id rq)) (shuffle (fm_forwarders fm))"
    and due: "mset (map el_forwarder due) =
        mset (filter (due_forwarder fm fs now h (rq_peer_id rq)) (shuffle (fm_forwarders fm)))"
    and sorted: "sorted_wrt (\<lambda>a b. overdue_of fs now h (el_name b) \<le> overdue_of fs now h (el_name a)) due"
    and names: "\<forall>c \<in> set (new @ due). el_name c = getName (el_forwarder c)"
    and pend: "\<forall>n p. isJobPending (queueEligibleAnnounces shuffle don now h rq ctx fs fm) h n p \<longleftrightarrow>
         isJobPending fm h n p \<or> (p = rq_peer_id rq \<and> (\<exists>j \<in> set js. aj_fwd j = n))"
    using queueEligible_queues [where fm = fm and don = don and ctx = ctx and shuffle = shuffle and now = now
        and h = h and rq = rq and fs = fs, OF assms(2) wf assms(4) d assms(3)] by blast
  have "list_all2 (\<lambda>f j. aj_forwarder j = f \<and> aj_fwd j = getName f \<and> aj_hash j = h \<and> aj_peer j = rq_peer_id rq
          \<and> aj_request j = rq \<and> job_context j = ctx)
      (take (room (snd (announce_limit fm)) 0 fm) (map el_forwarder new @ map el_forwarder due)) js"
    unfolding map_append [symmetric] take_map list_all2_map1
    by (rule list.rel_mono_strong [OF all]) (auto simp: queued_job_def new_job_def job_context_def names
        split: option.splits dest: in_set_takeD)
  moreover have "sorted_wrt (\<lambda>f g. overdue_of fs now h (getName g) \<le> overdue_of fs now h (getName f))
      (map el_forwarder due)"
    unfolding sorted_wrt_map by (rule sorted_wrt_mono_rel [OF _ sorted]) (simp add: names)
  moreover have "mset (map el_forwarder due) = mset (filter (due_forwarder fm fs now h (rq_peer_id rq)) (fm_forwarders fm))"
    using due m by (metis mset_filter)
  ultimately show ?thesis
    using q new pend
    by - (rule exI [of _ "map el_forwarder new"], rule exI [of _ "map el_forwarder due"], rule exI [of _ js],
      simp add: room_def)
qed

lemma queue_selects_witness:
  "\<exists>js. fm_queue (queueEligibleAnnounces id (\<lambda>_. False) example_now example_hash
     (example_request\<lparr>rq_peer_id := replicate 20 (CHR ''q'')\<rparr>) None example_cache example_manager) = example_job # js"
proof -
  have "jobs_inv example_manager {}" using example_manager_ok(1) by (simp add: mgr_ok_def)
  moreover have "\<not> ctx_done (\<lambda>_. False) None" by (simp add: ctx_done_def)
  moreover have "fm_forwarders example_manager \<noteq> []" "distinct (map getName (fm_forwarders example_manager))"
    by (simp_all add: example_manager_fields)
  ultimately obtain js where "fm_queue (queueEligibleAnnounces id (\<lambda>_. False) example_now example_hash
     (example_request\<lparr>rq_peer_id := replicate 20 (CHR ''q'')\<rparr>) None example_cache example_manager) =
       fm_queue example_manager @ js"
    using queue_selects [OF _ example_manager_fields(2) _ _ permutes_id] by blast
  then show ?thesis by (simp add: example_queue)
qed

text \<open>C20. A tick of the scheduler leaves nothing behind: afterwards every scheduled job lies in the
  future and belongs to a live session, the queue is still within its capacity, every pending marker
  still has a job, and no second retry exists for a torrent and upstream.\<close>

theorem scheduler_tick_settles:
  assumes "jobs_inv fm R"
  shows "(\<forall>job \<in> set (scheduled_list (fst (scheduler_tick don now (fm, fs)))). \<not> canceled don job)
    \<and> (\<forall>t \<in> fst ` set (fm_scheduled (fst (scheduler_tick don now (fm, fs)))). now < t)
    \<and> jobs_inv (fst (scheduler_tick don now (fm, fs))) R
    \<and> snd (scheduler_tick don now (fm, fs)) = Prune now fs"
proof -
  have wf: "gm_wf (fm_scheduled fm)" using assms by (simp add: jobs_inv_def)
  have "snd (scheduler_tick don now (fm, fs)) = Prune now fs" by (simp add: scheduler_tick_def Let_def)
  then show ?thesis
    using tick_future [OF wf, of don now fs] jobs_inv_tick [OF assms]
    by (auto simp: sched_future_def scheduled_list_def)
qed

lemma scheduler_tick_settles_witness:
  "jobs_inv (fst (scheduler_tick (\<lambda>_. False) example_now (example_manager, example_cache))) {}"
proof -
  have "jobs_inv example_manager {}" using example_manager_ok(1) by (simp add: mgr_ok_def)
  from scheduler_tick_settles [OF this] show ?thesis by blast
qed

section \<open>Retries and cancelling\<close>

text \<open>C21. When an upstream refuses with "retry in \<open>m\<close> minutes", the next announce of this torrent to
  it is put off to that time, or stays later if it already was; no other entry of the cache changes.
  Unless a retry of this torrent to this upstream is already waiting, one is put on the schedule for
  exactly that time, in the same session, and becomes the pending job.\<close>

theorem retry_in_schedules:
  assumes "\<And>i. \<not> canceled (don i) job" "\<not> fm_stopped fm" and "0 < m" "m \<le> max_duration div minute"
    and "time_zero \<le> now" "fs_wf fs" "gm_wf (fm_scheduled fm)"
  shows "let s' = fst (handleRetryError don now job reason (Some (BInt m)) (fm, fs));
      due = max (now + m * minute) (case_option time_zero id (fs_next fs (aj_hash job, aj_fwd job)))
    in snd (handleRetryError don now job reason (Some (BInt m)) (fm, fs))
      \<and> fs_next (snd s') = (fs_next fs)((aj_hash job, aj_fwd job) \<mapsto> due)
      \<and> ((\<forall>e \<in> set (scheduled_list fm). \<not> (aj_hash e = aj_hash job \<and> aj_fwd e = aj_fwd job)) \<longrightarrow>
           (\<exists>rjob. mset (scheduled_list (fst s')) = add_mset rjob (mset (scheduled_list fm))
              \<and> aj_at rjob = due \<and> aj_hash rjob = aj_hash job \<and> aj_fwd rjob = aj_fwd job \<and> aj_peer rjob = aj_peer job
              \<and> job_context rjob = job_context job
              \<and> gm_get (fm_pending (fst s')) (job_key job) = aj_state rjob))"
proof -
  let ?k = "(aj_hash job, aj_fwd job)" and ?until = "now + m * minute"
  define due where "due = max ?until (case_option time_zero id (fs_next fs ?k))"
  have t0: "time_zero \<le> ?until" using assms(3,5) by (simp add: minute_def second_def)
  have "snd (DeferAnnounce (aj_hash job) (aj_fwd job) ?until fs) = due"
    using snd_defer [of "aj_hash job" "aj_fwd job" ?until fs]
    by (auto simp: due_def fs_next_def zero_entry_def split: option.splits)
  then have d: "DeferAnnounce (aj_hash job) (aj_fwd job) ?until fs = (fs_hold ?k ?until fs, due)"
    by (simp add: fs_hold_def prod_eq_iff)
  have h: "handleRetryError don now job reason (Some (BInt m)) (fm, fs) =
      ((put_retry (don 3) job (retry_job job due (fm_next_state fm)) fm, fs_hold ?k ?until fs), True)"
    by (rule handleRetryError_deferred [OF assms(1,2) _ _ assms(3,4) d]) (simp_all add: retry_minutes_def)
  have "fs_next (fs_hold ?k ?until fs) = (fs_next fs)(?k \<mapsto> due)"
    unfolding due_def fun_eq_iff by (simp add: fsc.next_hold [OF assms(6) t0])
  with put_retry_scheduled [OF assms(1) [of 3] assms(2,7), of due "fm_next_state fm"] show ?thesis
    unfolding Let_def h due_def [symmetric] fst_conv snd_conv
    by (intro conjI impI exI [of _ "retry_job job due (fm_next_state fm)"]) simp_all
qed

lemma retry_in_schedules_witness:
  "fs_next (snd (fst (handleRetryError (\<lambda>_ _. False) example_now example_job ''busy'' (Some (BInt 5))
     (example_manager, example_cache)))) (example_hash, ''tracker.example.org'') = Some (example_now + 5 * minute)"
proof -
  have m: "(0 :: int) < 5" "5 \<le> max_duration div minute" "time_zero \<le> example_now" by code_simp+
  have w: "fs_wf example_cache" using example_manager_ok(2) by (simp add: fs_ok_def)
  have g: "gm_wf (fm_scheduled example_manager)" by (simp add: example_manager_fields)
  have n: "fs_next example_cache k = None" for k
    by (simp add: fs_next_def fs_get_def fs_inner_def gm_get_or_def example_manager_fields)
  have "max (example_now + 5 * minute) time_zero = example_now + 5 * minute" by code_simp
  with retry_in_schedules [OF example_job_live example_manager_fields(2) m w g, of "''busy''"]
  show ?thesis by (simp add: Let_def example_job_fields n)
qed

text \<open>C22. Cancelling a peer's work removes from the pending markers exactly those of this torrent and
  peer (of the given session only, if one is given), and from the schedule exactly this peer's jobs for
  the torrent (again of the session only); the bookkeeping of the remaining jobs stays consistent.\<close>

theorem cancel_removes:
  assumes "jobs_inv fm R" and "n \<noteq> []"
  shows "gm_get (fm_pending (cancelPendingJobs h p ses fm)) (jobKey h' n p') =
      (case gm_get (fm_pending fm) (jobKey h' n p') of
         None \<Rightarrow> None
       | Some st \<Rightarrow> if h' = h \<and> p' = p \<and> (ses = None \<or> js_peer_context st = ses) then None else Some st)
    \<and> set (scheduled_list (cancelPendingJobs h p ses fm)) =
        {job \<in> set (scheduled_list fm).
           \<not> (aj_hash job = h \<and> aj_peer job = p \<and> (ses = None \<or> job_context job = ses))}
    \<and> jobs_inv (cancelPendingJobs h p ses fm) R"
proof (intro conjI)
  have wf: "gm_wf (fm_pending fm)" using assms(1) by (simp add: jobs_inv_def)
  show "gm_get (fm_pending (cancelPendingJobs h p ses fm)) (jobKey h' n p') =
      (case gm_get (fm_pending fm) (jobKey h' n p') of
         None \<Rightarrow> None
       | Some st \<Rightarrow> if h' = h \<and> p' = p \<and> (ses = None \<or> js_peer_context st = ses) then None else Some st)"
    using assms(2)
    by (auto simp: cancelPendingJobs_def gm_get_filter [OF wf] cancel_match_jobKey split: option.splits)
  show "set (scheduled_list (cancelPendingJobs h p ses fm)) =
        {job \<in> set (scheduled_list fm).
           \<not> (aj_hash job = h \<and> aj_peer job = p \<and> (ses = None \<or> job_context job = ses))}"
    unfolding cancelPendingJobs_def scheduled_list_def
    by (force simp: filter_scheduled_concat split: option.splits)
  show "jobs_inv (cancelPendingJobs h p ses fm) R" using assms(1) by (rule jobs_inv_cancel)
qed

lemma cancel_removes_witness:
  "\<not> isJobPending (cancelPendingJobs example_hash example_peer None example_manager)
     example_hash ''tracker.example.org'' example_peer"
proof -
  have "jobs_inv example_manager {}" using example_manager_ok(1) by (simp add: mgr_ok_def)
  from cancel_removes [OF this, of "''tracker.example.org''" example_hash example_peer None example_hash example_peer]
  show ?thesis by (simp add: isJobPending_def split: option.splits)
qed

text \<open>C23. Failures of an upstream in a row disable it exactly when their number reaches the configured
  threshold: below it the upstream stays in use with its count, at it the upstream leaves the list and
  the cache. A threshold of zero or less never disables.\<close>

theorem failure_threshold:
  assumes "getFailureCount (fst s) name = 0" "named name (fst s)" "\<not> isDisabled (fst s) name" "ts \<noteq> []"
  shows "let s' = fold (\<lambda>t. registerFailure t name) ts s; limit = cf_forwarder_fail_threshold (fm_config (fst s)) in
     (limit \<le> 0 \<longrightarrow> s' = s)
   \<and> (int (length ts) < limit \<longrightarrow> getFailureCount (fst s') name = int (length ts)
        \<and> fm_forwarders (fst s') = fm_forwarders (fst s) \<and> \<not> isDisabled (fst s') name \<and> snd s' = snd s)
   \<and> (int (length ts) = limit \<longrightarrow> isDisabled (fst s') name \<and> getFailureCount (fst s') name = 0
        \<and> fm_forwarders (fst s') = remove_first (\<lambda>f. getName f = name) (fm_forwarders (fst s))
        \<and> snd s' = fs_forget name (snd s))"
proof -
  have off: "fold (\<lambda>t. registerFailure t name) us s = s" if "cf_forwarder_fail_threshold (fm_config (fst s)) \<le> 0" for us
    using that by (induction us) (auto simp: registerFailure_def case_prod_beta)
  have len: "0 < length ts" using assms(4) by simp
  show ?thesis
    unfolding Let_def
    using failures_below [OF assms(1), of ts] failures_reach [OF assms(1,2) len] off [of ts] assms(3)
    by (auto simp: isDisabled_def)
qed

lemma failure_threshold_witness:
  "\<not> isDisabled (fst (fold (\<lambda>t. registerFailure t ''tracker.example.org'') [example_now, example_now]
      (example_manager, example_cache))) ''tracker.example.org''"
proof -
  have f: "named ''tracker.example.org'' example_manager"
    by (simp add: named_def example_manager_fields example_name)
  have e: "getFailureCount example_manager ''tracker.example.org'' = 0"
    "\<not> isDisabled example_manager ''tracker.example.org''"
    by (simp_all add: getFailureCount_def isDisabled_def gm_get_or_def example_manager_fields)
  show ?thesis
    using failure_threshold [of "(example_manager, example_cache)" "''tracker.example.org''" "[example_now, example_now]"]
      e f by (simp add: Let_def example_manager_fields example_config_def defaultConfig_def)
qed

section \<open>The cache of upstream peers\<close>

text \<open>C24. A cool-down that an upstream asked for is never shortened: through any sequence of further
  postponements of any entries and of prunings before its end, the next announce of this torrent to the
  upstream stays at that time or later.\<close>

theorem cooldown_kept:
  assumes "fs_wf fs" and "fs_next fs k = Some t"
    and "\<And>op. op \<in> set ops \<Longrightarrow> case op of Hold j u \<Rightarrow> time_zero \<le> u | Trim now \<Rightarrow> now < t"
  shows "\<exists>t'. fs_next (fold (\<lambda>op s. case op of Hold j u \<Rightarrow> fs_hold j u s | Trim now \<Rightarrow> Prune now s) ops fs) k = Some t'
    \<and> t \<le> t'"
  using fsc.run_keeps [OF assms] by (simp only: fsc.upkeep_def [abs_def])

lemma cooldown_kept_witness:
  "\<exists>t'. fs_next (fold (\<lambda>op s. case op of Hold j u \<Rightarrow> fs_hold j u s | Trim now \<Rightarrow> Prune now s)
      [Trim (example_now + minute), Hold (example_hash, ''a'') example_now]
      (fs_hold (example_hash, ''a'') (example_now + hour) NewForwarderStorage)) (example_hash, ''a'') = Some t'
    \<and> example_now + hour \<le> t'"
proof -
  have z: "time_zero \<le> example_now + hour" "time_zero \<le> example_now" "example_now + minute < example_now + hour"
    by code_simp+
  have w: "fs_wf (fs_hold (example_hash, ''a'') (example_now + hour) NewForwarderStorage)"
    using z by (simp add: fs_hold_def fs_wf_defer fs_wf_new)
  have n: "fs_next (fs_hold (example_hash, ''a'') (example_now + hour) NewForwarderStorage) (example_hash, ''a'') =
      Some (example_now + hour)" by code_simp
  show ?thesis by (rule cooldown_kept [OF w n]) (use z in auto)
qed

text \<open>C25. Each operation of the cache, a two-level Go map with its bookkeeping of empty inner maps, is
  the corresponding operation of a plain map from torrent and upstream to entries: storing an answer,
  postponing, marking an announce, dropping stale entries, forgetting a torrent, forgetting an
  upstream; and the answers to the readers are those of the plain map.\<close>

theorem cache_map_refinement:
  assumes "fs_wf fs" and "time_zero \<le> until"
  shows "abs_cache (UpdatePeers now h n peers interval fs) = (abs_cache fs)((h, n) \<mapsto>
        \<lparr>fe_peers = peers, fe_interval = interval, fe_last_update = now, fe_next = next_after now interval\<rparr>)
    \<and> abs_cache (fst (DeferAnnounce h n until fs)) = cache_defer (h, n) until (abs_cache fs)
    \<and> abs_cache (MarkAnnounced now h n fs) = cache_mark (h, n) now (abs_cache fs)
    \<and> abs_cache (Prune now fs) = (\<lambda>k. Option.bind (abs_cache fs k) (prune_entry fs now))
    \<and> abs_cache (fs_cleanup h fs) = (\<lambda>k. if fst k = h then None else abs_cache fs k)
    \<and> abs_cache (fs_forget n fs) = (\<lambda>k. if snd k = n then None else abs_cache fs k)
    \<and> (HasInfoHash fs h \<longleftrightarrow> (\<exists>n. abs_cache fs (h, n) \<noteq> None))
    \<and> GetAnnounceState fs h n = (case abs_cache fs (h, n) of None \<Rightarrow> (False, time_zero) | Some e \<Rightarrow> (True, fe_next e))"
proof -
  have forget: "abs_cache (fs_forget n fs) = (\<lambda>k. if snd k = n then None else abs_cache fs k)"
    using assms(1) by (auto simp: abs_cache_def fs_get_forget)
  have has: "HasInfoHash fs h \<longleftrightarrow> (\<exists>n. abs_cache fs (h, n) \<noteq> None)"
  proof (cases "gm_get (fs_entries fs) h")
    case None
    then show ?thesis by (simp add: HasInfoHash_def abs_cache_def fs_get_def fs_inner_def gm_get_or_def)
  next
    case (Some m)
    then have "m \<noteq> []" using assms(1) by (auto simp: fs_wf_def dest!: map_of_SomeD)
    then obtain n e m' where "m = (n, e) # m'" by (cases m) auto
    then have "gm_get m n = Some e" by simp
    with Some show ?thesis
      by (auto simp: HasInfoHash_def abs_cache_def fs_get_def fs_inner_def gm_get_or_def)
  qed
  show ?thesis
    using assms forget has
    by (simp add: abs_update abs_defer abs_mark abs_prune abs_cleanup GetAnnounceState_get)
      (simp add: abs_cache_def)
qed

lemma cache_map_refinement_witness:
  "HasInfoHash (UpdatePeers example_now example_hash ''a'' [] 60 NewForwarderStorage) example_hash"
proof -
  have z: "time_zero \<le> example_now" by code_simp
  have u: "abs_cache (UpdatePeers example_now example_hash ''a'' [] 60 NewForwarderStorage) (example_hash, ''a'') \<noteq> None"
    by code_simp
  show ?thesis
    using cache_map_refinement [OF fs_wf_update [OF fs_wf_new] z, where h = example_hash]
      u by blast
qed

text \<open>C26. The peers served for a torrent are those of the entries whose last answer is younger than the
  maximal age, whoever reported them, and pruning the cache at any earlier moment does not change what
  is served later.\<close>

theorem cached_peers_served:
  assumes "fs_wf fs" and "now \<le> t"
  shows "set (GetAllPeers t fs h) =
      {p. \<exists>n e. abs_cache fs (h, n) = Some e \<and> \<not> fs_expired fs e t \<and> p \<in> set (fe_peers e)}
    \<and> set (GetAllPeers t (Prune now fs) h) = set (GetAllPeers t fs h)"
proof -
  have age: "fs_expired (Prune now fs) = fs_expired fs"
    by (simp add: fun_eq_iff fs_expired_def Prune_def)
  have mono: "fs_expired fs e t" if "fs_expired fs e now" for e
    using that assms(2) by (auto simp: fs_expired_def Let_def time_sub_def split: if_splits)
  have keep: "(\<exists>e'. prune_entry fs now e = Some e' \<and> \<not> fs_expired fs e' t \<and> p \<in> set (fe_peers e')) \<longleftrightarrow>
      \<not> fs_expired fs e t \<and> p \<in> set (fe_peers e)" for e p
    using mono [of e] by (auto simp: prune_entry_def)
  have all: "set (GetAllPeers t fs h) =
      {p. \<exists>n e. abs_cache fs (h, n) = Some e \<and> \<not> fs_expired fs e t \<and> p \<in> set (fe_peers e)}"
    by (rule abs_all_peers [OF assms(1)])
  have "set (GetAllPeers t (Prune now fs) h) =
      {p. \<exists>n e. abs_cache (Prune now fs) (h, n) = Some e \<and> \<not> fs_expired (Prune now fs) e t \<and> p \<in> set (fe_peers e)}"
    by (rule abs_all_peers [OF fs_wf_prune [OF assms(1)]])
  also have "\<dots> = {p. \<exists>n e. abs_cache fs (h, n) = Some e
      \<and> (\<exists>e'. prune_entry fs now e = Some e' \<and> \<not> fs_expired fs e' t \<and> p \<in> set (fe_peers e'))}"
    by (auto simp: abs_prune [OF assms(1)] age bind_eq_Some_conv)
  also have "\<dots> = set (GetAllPeers t fs h)" by (simp add: keep all)
  finally show ?thesis using all by simp
qed

lemma cached_peers_served_witness:
  "set (GetAllPeers (example_now + minute) (Prune example_now
      (UpdatePeers example_now example_hash ''a'' [request_peer example_request] 60 NewForwarderStorage)) example_hash) =
   {request_peer example_request}"
proof -
  have t: "example_now \<le> example_now + minute" by code_simp
  have "set (GetAllPeers (example_now + minute)
      (UpdatePeers example_now example_hash ''a'' [request_peer example_request] 60 NewForwarderStorage) example_hash) =
    {request_peer example_request}" by code_simp
  with cached_peers_served [OF fs_wf_update [OF fs_wf_new] t] show ?thesis by simp
qed

section \<open>An answer after the upstream has been disabled\<close>

text \<open>Publishing a success looks at the session and the manager only: an announce that was on the wire when its
  upstream was disabled leaves the upstream disabled and yet with cached peers.\<close>

lemma late_success_restores:
  assumes "ar_success (route_filter r)" "\<not> ar_deferred r" "\<not> canceled (don 0) job" "\<not> canceled (don 1) job" "\<not> fm_stopped fm"
    and "named (getName (aj_forwarder job)) fm" "fs_wf fs"
  shows "let name = getName (aj_forwarder job);
      s1 = disableForwarder t name reason (fm, fs);
      s2 = handleAnnounceResult don now job r s1
    in fs_get (snd s1) (aj_hash job) name = None \<and> isDisabled (fst s2) name
      \<and> map_option fe_peers (fs_get (snd s2) (aj_hash job) name) = Some (ar_peers (route_filter r))"
proof -
  have "isDisabled (recordStats n name d i fm') name = isDisabled fm' name"
    "isDisabled (resetFailure name fm') name = isDisabled fm' name" for n name d i fm'
    by (simp_all add: isDisabled_def recordStats_def resetFailure_def Let_def)
  then show ?thesis
    using assms
    by (simp add: Let_def result_eq apply_result_def disable_fields disable_frame fs_get_forget fs_get_update)
qed

end
