(* ===== verification/UdpTheorems.thy ===== *)
theory UdpTheorems
  imports Examples UdpLemmas
begin

text \<open>
  Properties of the UDP tracker protocol (\<open>receiverUDP.go\<close>, \<open>udpForwarder.go\<close>): the repository
  holds both ends, so what the client sends is read by the server's code and what the server
  answers is read by the client's.
\<close>

section \<open>Announcing\<close>

lemma tracker_error_read:
  "announce_reply_of remote (sendError tid m) = FinalError (ErrText m)"
  by (simp add: announce_reply_of_def sendError_def udp_action_error_def Let_def bytes_at_def)

text \<open>C8. An announce that the client builds from an acceptable request, with a connection id the server
  knows, is handled by the server as an announce with the same torrent, peer, port, counters, event and
  number of wanted peers; the reply is the answer to that announce, or the error it contains.\<close>

theorem udp_announce_round_trip:
  assumes "request_ok rq" and "gm_get (sv_connections sv) cid = Some t" and "cid \<noteq> udp_connect_magic"
  shows "\<exists>r. rq_hash r = rq_hash rq \<and> rq_peer_id r = rq_peer_id rq \<and> rq_port r = rq_port rq
    \<and> rq_uploaded r = rq_uploaded rq \<and> rq_downloaded r = rq_downloaded rq \<and> rq_left r = rq_left rq
    \<and> rq_num_want r = rq_num_want rq \<and> rq_event r = rq_event rq \<and> rq_remote r = ip_string clientIP
    \<and> handlePacket err_text shuffle random now (buildAnnounceRequest f rq cid tid) clientIP sv =
        (let served = handle_event shuffle now r (sv_tracker sv);
             resp = finish_response (udp_family (ip_string clientIP)) now r (fst served) (snd served)
         in (sv\<lparr>sv_tracker := fst served\<rparr>,
             Some (if rs_failure resp \<noteq> [] then sendError tid (rs_failure resp)
                   else sendAnnounceResponse clientIP tid resp)))"
proof -
  have len: "length (rq_hash rq) = 20" "length (rq_peer_id rq) = 20"
    using assms(1) by (simp_all add: request_ok_def info_hash_valid_def peer_id_valid_def)
  note fields = buildAnnounceRequest_fields [OF len, of f cid tid]
  define ip where "ip = (if announce_ip f \<noteq> 0 then ip_string (put_u32 (announce_ip f)) else [])"
  from client_fields_accepted [OF assms(1), of now "ip_string clientIP" ip] obtain r where
    r: "makeRequest now (ip_string clientIP) (rq_hash rq) (rq_peer_id rq)
      (itoa (uint (word_of_int (rq_port rq) :: u16))) (nat_digits (unat (rq_uploaded rq)))
      (nat_digits (unat (rq_downloaded rq))) (nat_digits (unat (rq_left rq))) ip
      (itoa (sint (announce_num_want rq))) (event_string (event_code (rq_event rq))) [] [] [] = Inr r"
    and same: "rq_hash r = rq_hash rq \<and> rq_peer_id r = rq_peer_id rq \<and> rq_port r = rq_port rq
    \<and> rq_uploaded r = rq_uploaded rq \<and> rq_downloaded r = rq_downloaded rq \<and> rq_left r = rq_left rq
    \<and> rq_num_want r = rq_num_want rq \<and> rq_event r = rq_event rq \<and> rq_remote r = ip_string clientIP"
    by blast
  have "handleAnnounce err_text shuffle now (buildAnnounceRequest f rq cid tid) clientIP (sv_tracker sv) =
      (let served = handle_event shuffle now r (sv_tracker sv);
           resp = finish_response (udp_family (ip_string clientIP)) now r (fst served) (snd served)
       in (fst served, Some (if rs_failure resp \<noteq> [] then sendError tid (rs_failure resp)
                   else sendAnnounceResponse clientIP tid resp)))"
    using r [unfolded ip_def]
    by (cases "announce_ip f = 0") (simp_all add: handleAnnounce_def fields buildAnnounceRequest_read [OF len]
        udp_ProcessAnnounce_def ProcessAnnounce_def Let_def case_prod_beta split del: if_split)
  then have "handlePacket err_text shuffle random now (buildAnnounceRequest f rq cid tid) clientIP sv =
        (let served = handle_event shuffle now r (sv_tracker sv);
             resp = finish_response (udp_family (ip_string clientIP)) now r (fst served) (snd served)
         in (sv\<lparr>sv_tracker := fst served\<rparr>,
             Some (if rs_failure resp \<noteq> [] then sendError tid (rs_failure resp)
                   else sendAnnounceResponse clientIP tid resp)))"
    using assms(2,3) by (simp add: handlePacket_def fields Let_def)
  with same show ?thesis by blast
qed

definition example_server :: udp_server where
  "example_server = \<lparr>sv_connections = [(7, example_now)], sv_tracker = sy_tracker example_start\<rparr>"

definition example_client :: net_ip where
  "example_client = net_parse_ip ''10.0.0.1''"

lemma example_request_ok: "request_ok example_request"
  by code_simp

lemma udp_announce_round_trip_witness:
  "snd (handlePacket (\<lambda>_. []) id None example_now (buildAnnounceRequest example_forward example_request 7 3)
     example_client example_server) \<noteq> None"
  using udp_announce_round_trip [OF example_request_ok, where sv = example_server and cid = 7 and t = example_now
      and err_text = "\<lambda>_. []" and shuffle = id and random = None and now = example_now
      and f = example_forward and tid = 3 and clientIP = example_client]
  by (auto simp: example_server_def udp_connect_magic_def Let_def)

text \<open>C9. The client finds the reply of its transaction behind datagrams that are too short or belong to
  other transactions, and reads from it the interval and, with their ports, the peers that have an address
  of the client's family, in the order sent; a failure is read as that failure.\<close>

theorem udp_reply_round_trip:
  assumes "0 \<le> rs_interval resp" "rs_interval resp < 2 ^ 32" "(ip_to4 remote = []) = (ip_to4 clientIP = [])"
    and "\<forall>d \<in> set foreign. \<not> own_reply 4096 tid d"
    and "reply = (if rs_failure resp \<noteq> [] then sendError tid (rs_failure resp)
                  else sendAnnounceResponse clientIP tid resp)"
    and "length reply \<le> 4096"
  shows "readUDPTrackerResponse 4096 tid (foreign @ reply # later) err = Inr reply
    \<and> announce_reply_of remote reply =
       (if rs_failure resp \<noteq> [] then FinalError (ErrText (rs_failure resp))
        else Reply (empty_response\<lparr>rs_interval := rs_interval resp,
               rs_peers := map read_back (udp_wire (ip_to4 clientIP = []) (rs_peers resp))\<rparr>))"
proof
  have "length reply \<ge> 8" unfolding assms(5)
    by (simp add: sendError_def sendAnnounceResponse_def)
  moreover have "reply_tid reply = tid" using assms(5) by (auto simp: reply_fields)
  ultimately have "own_reply 4096 tid reply" using own_reply_fits [OF assms(6)] by simp
  with assms(4,6) show "readUDPTrackerResponse 4096 tid (foreign @ reply # later) err = Inr reply"
    by (simp add: read_reply_eq)
  show "announce_reply_of remote reply =
       (if rs_failure resp \<noteq> [] then FinalError (ErrText (rs_failure resp))
        else Reply (empty_response\<lparr>rs_interval := rs_interval resp,
               rs_peers := map read_back (udp_wire (ip_to4 clientIP = []) (rs_peers resp))\<rparr>))"
    using announce_reply_read [OF assms(1-3)] by (auto simp: assms(5) tracker_error_read)
qed

lemma udp_reply_round_trip_witness:
  "readUDPTrackerResponse 4096 3 [[], sendError 4 ''x'',
       sendAnnounceResponse example_client 3 (empty_response\<lparr>rs_interval := 60, rs_peers := [request_peer example_request]\<rparr>)]
     (ErrText []) =
   Inr (sendAnnounceResponse example_client 3 (empty_response\<lparr>rs_interval := 60, rs_peers := [request_peer example_request]\<rparr>))"
proof -
  have s: "rs_failure (empty_response\<lparr>rs_interval := 60, rs_peers := [request_peer example_request]\<rparr>) = []"
    "length (sendAnnounceResponse example_client 3
      (empty_response\<lparr>rs_interval := 60, rs_peers := [request_peer example_request]\<rparr>)) \<le> 4096"
    "\<forall>d \<in> set [[], sendError 4 ''x'']. \<not> own_reply 4096 3 d"
    by code_simp+
  show ?thesis
    using udp_reply_round_trip [OF _ _ refl s(3) refl, where clientIP = example_client and later = Nil and err = "ErrText []"
        and resp = "empty_response\<lparr>rs_interval := 60, rs_peers := [request_peer example_request]\<rparr>"] s(1,2)
    by simp
qed

section \<open>Connection ids\<close>

text \<open>C10. A packet with an id the server does not know changes nothing and is refused in a way that makes
  the client connect again; the client's connect packet then registers the id the server drew, and the
  client reads that same id from the reply.\<close>

theorem connect_handshake:
  assumes "length data \<ge> 16" and "get_u64 (bytes_at 0 8 data) = old" and "old \<noteq> udp_connect_magic"
    and "gm_get (sv_connections sv) old = None"
  shows "handlePacket err_text shuffle random now data ip sv =
        (sv, Some (sendError (packet_tid data) ''Invalid connection ID''))
    \<and> (\<exists>e. announce_reply_of remote (sendError (packet_tid data) ''Invalid connection ID'') = FinalError e
           \<and> shouldReconnectAfterTrackerError (error_string e))
    \<and> (\<exists>d. handlePacket err_text shuffle (Some cid) now (connect_request tid) ip sv =
             (sv\<lparr>sv_connections := gm_put cid now (sv_connections sv)\<rparr>, Some d)
           \<and> connect_reply_of d = Reply cid)"
proof (intro conjI)
  show "handlePacket err_text shuffle random now data ip sv =
        (sv, Some (sendError (packet_tid data) ''Invalid connection ID''))"
    by (rule unknown_id) (use assms in auto)
  have "shouldReconnectAfterTrackerError ''Invalid connection ID''" by code_simp
  then show "\<exists>e. announce_reply_of remote (sendError (packet_tid data) ''Invalid connection ID'') = FinalError e
           \<and> shouldReconnectAfterTrackerError (error_string e)"
    by (simp add: tracker_error_read)
  show "\<exists>d. handlePacket err_text shuffle (Some cid) now (connect_request tid) ip sv =
             (sv\<lparr>sv_connections := gm_put cid now (sv_connections sv)\<rparr>, Some d)
           \<and> connect_reply_of d = Reply cid"
    using connect_packet [of "connect_request tid" err_text shuffle cid now ip sv]
    by (simp add: connect_request_fields connect_reply_read)
qed

lemma connect_handshake_witness:
  "snd (handlePacket (\<lambda>_. []) id None example_now (replicate 16 (CHR ''h'')) example_client example_server) \<noteq> None"
proof -
  have o: "get_u64 (bytes_at 0 8 (replicate 16 (CHR ''h''))) = (0x6868686868686868 :: u64)" by code_simp
  show ?thesis
    using connect_handshake [OF _ o, where sv = example_server and err_text = "\<lambda>_. []" and shuffle = id
        and random = None and now = example_now and ip = example_client]
    by (simp add: example_server_def udp_connect_magic_def)
qed

text \<open>C11. A connection id that the client still holds fresh is known to the server: if the client noted
  it at most ten seconds after the server, then whatever clean-ups the server ran until now, the id is
  still registered. The ten seconds the client leaves are the bound on the reply's travel time.\<close>

theorem fresh_id_known:
  assumes "gm_wf cs" and "gm_get cs (ce_id e) = Some t" and "ce_timestamp e \<le> t + 10 * second"
    and "id_fresh now e" and "\<forall>u \<in> set ticks. u \<le> now"
  shows "gm_get (fold cleanup_connections ticks cs) (ce_id e) = Some t"
proof -
  have "now \<le> t + 2 * minute"
    using assms(3,4)
    by (simp add: id_fresh_def connectionIDLifetime_def time_sub_def max_duration_def min_duration_def
        minute_def second_def millisecond_def split: if_splits)
  with assms(1,2,5) show ?thesis
  proof (induction ticks arbitrary: cs)
    case (Cons u ticks)
    have "gm_wf (cleanup_connections u cs)"
      using Cons.prems(1) by (simp add: cleanup_connections_def gm_wf_filter)
    moreover have "gm_get (cleanup_connections u cs) (ce_id e) = Some t"
      using Cons.prems by (simp add: cleanup_get)
    ultimately show ?case using Cons.IH Cons.prems by simp
  qed simp
qed

lemma fresh_id_known_witness:
  "gm_get (fold cleanup_connections [example_now + minute] [(7, example_now)]) 7 = Some example_now"
proof -
  have h: "example_now \<le> example_now + 10 * second"
    "id_fresh (example_now + minute) \<lparr>ce_id = 7, ce_timestamp = example_now\<rparr>" by code_simp+
  show ?thesis
    using fresh_id_known [where cs = "[(7, example_now)]" and e = "\<lparr>ce_id = 7, ce_timestamp = example_now\<rparr>"
        and now = "example_now + minute" and ticks = "[example_now + minute]" and t = example_now] h
    by simp
qed

text \<open>C12. An announce to a UDP tracker ends after at most three times the configured retries plus one
  datagrams, whatever arrives and fails, a forced reconnection included. It leaves the client as it was, the
  timeout, the retries, their base and the count of running announces, except for its connection ids, and of
  these it changes at most the one of its own tracker.\<close>

theorem announce_datagrams:
  "let res = AnnounceContext c f rq uf in
     length (snd (snd res)) \<le> 3 * uf_max_retries uf + 1
   \<and> (\<exists>cs own. fst res = uf\<lparr>uf_connections := cs\<rparr>
        \<and> gm_get cs = (gm_get (uf_connections uf))(getName f := own))"
proof (cases "ts_stopped (uf_tasks uf)")
  case True
  then show ?thesis
    using uf_only_own [OF uf_only_refl] by (simp add: AnnounceContext_def tasks_begin_def)
next
  case False
  define ts where "ts = (uf_tasks uf)\<lparr>ts_wg := ts_wg (uf_tasks uf) + 1\<rparr>"
  have b: "tasks_begin (uf_tasks uf) = (ts, True)" using False by (simp add: tasks_begin_def ts_def)
  have over: "uf_only (getName f) uf (end_task u)" if "uf_only (getName f) (uf\<lparr>uf_tasks := ts\<rparr>) u" for u
    using that by (auto simp: uf_only_def end_task_def wg_done_def ts_def)
  obtain uf2 r s where g: "getConnectionID (ac_connect c) (ac_now c) f (uf\<lparr>uf_tasks := ts\<rparr>) = (uf2, r, s)"
    by (cases "getConnectionID (ac_connect c) (ac_now c) f (uf\<lparr>uf_tasks := ts\<rparr>)") auto
  have c: "length s \<le> uf_max_retries uf \<and> uf_only (getName f) (uf\<lparr>uf_tasks := ts\<rparr>) uf2"
    using g uf_connect_count uf_connect_only
    by (fastforce simp: getConnectionID_def split: option.splits if_splits)
  then have n: "uf_max_retries uf2 = uf_max_retries uf" using uf_only_retries by fastforce
  have "length (snd (snd (AnnounceContext c f rq uf))) \<le> 3 * uf_max_retries uf + 1
    \<and> uf_only (getName f) uf (fst (AnnounceContext c f rq uf))"
  proof (cases r)
    case (Inl e)
    then show ?thesis
      using c g over [of "uf\<lparr>uf_tasks := ts\<rparr>"] over [of uf2] by (simp add: AnnounceContext_def b Let_def)
  next
    case (Inr cid)
    obtain uf3 r3 sent where
      l: "announce_loop f rq (ac_rounds c) 0 0 (uf_max_retries uf2) False cid uf2 s = (uf3, r3, sent)"
      by (rule prod_cases3)
    from announce_loop_budget [OF l] c n
    have "length sent \<le> 3 * uf_max_retries uf + 1" "uf_only (getName f) (uf\<lparr>uf_tasks := ts\<rparr>) uf3"
      by (auto simp: loop_budget_def intro: uf_only_trans)
    with Inr g l over [of "uf\<lparr>uf_tasks := ts\<rparr>"] over [of uf3] show ?thesis
      by (simp add: AnnounceContext_def b Let_def)
  qed
  then show ?thesis unfolding Let_def using uf_only_own by blast
qed

end
