(* ===== verification/WireTheorems.thy ===== *)
theory WireTheorems
  imports Examples UrlQuery
begin

text \<open>
  Properties of the formats and of the rules on single values: compact peer lists, announce
  addresses, error classes, and the address ranges that upstreams and peers may not be in.
\<close>

section \<open>Compact peer lists\<close>

text \<open>C33. Compacting an answer and reading it back keeps its counters, intervals, tracker id and failure;
  the peers come back as the IPv4 ones in their order, then the IPv6 ones in theirs, those whose address
  is no IP address being dropped; a list of canonical IPv4 peers with valid ports comes back unchanged
  apart from the peer ids.\<close>

theorem compact_round_trip:
  "let back = rc_response (compacted r) in
     rs_peers back = map read_back (v4_peers (rs_peers r)) @ map read_back (v6_peers (rs_peers r))
   \<and> ((\<forall>p \<in> set (rs_peers r). (\<exists>b. length b = 4 \<and> p_ip p = v4_string b) \<and> 0 \<le> p_port p \<and> p_port p < 65536) \<longrightarrow>
        rs_peers back = map (\<lambda>p. p\<lparr>p_id := []\<rparr>) (rs_peers r))
   \<and> rs_interval back = rs_interval r \<and> rs_min_interval back = rs_min_interval r
   \<and> rs_complete back = rs_complete r \<and> rs_incomplete back = rs_incomplete r
   \<and> rs_tracker_id back = rs_tracker_id r \<and> rs_failure back = rs_failure r"
proof -
  have peers: "rc_peers (compacted r) = map read_back (v4_peers (rs_peers r)) @ map read_back (v6_peers (rs_peers r))"
    by (simp add: compacted_def rc_peers_reload)
  moreover have "map read_back (v4_peers (rs_peers r)) @ map read_back (v6_peers (rs_peers r)) =
      map (\<lambda>p. p\<lparr>p_id := []\<rparr>) (rs_peers r)"
    if "\<forall>p \<in> set (rs_peers r). (\<exists>b. length b = 4 \<and> p_ip p = v4_string b) \<and> 0 \<le> p_port p \<and> p_port p < 65536"
    using that by (simp add: v4_peers_canonical)
  ultimately show ?thesis by (simp add: Let_def rc_response_def)
qed

lemma compact_round_trip_witness:
  "rs_peers (rc_response (compacted (empty_response\<lparr>rs_peers := [request_peer example_request]\<rparr>))) =
     [(request_peer example_request)\<lparr>p_id := []\<rparr>]"
proof -
  let ?r = "empty_response\<lparr>rs_peers := [request_peer example_request]\<rparr>"
  define b where "b = map byte [10, 0, 0, 1]"
  have "p_ip (request_peer example_request) = v4_string b" "p_port (request_peer example_request) = 6881"
    unfolding b_def by code_simp+
  moreover have "length b = 4" by (simp add: b_def)
  ultimately have "\<forall>p \<in> set (rs_peers ?r). (\<exists>b. length b = 4 \<and> p_ip p = v4_string b) \<and> 0 \<le> p_port p \<and> p_port p < 65536"
    by (simp del: request_peer_simps) blast
  from mp [OF conjunct1 [OF conjunct2 [OF compact_round_trip [of ?r, unfolded Let_def]]] this]
  show ?thesis by simp
qed

section \<open>Announce addresses\<close>

definition values_ok :: "url_values \<Rightarrow> bool" where
  "values_ok m \<longleftrightarrow> gm_wf m \<and> (\<forall>(k, vs) \<in> set m. vs \<noteq> [])"

lemma values_ok_put: "values_ok m \<Longrightarrow> vs \<noteq> [] \<Longrightarrow> values_ok (gm_put k vs m)"
  by (auto simp: values_ok_def dest!: in_gm_putD)

lemma values_ok_set [intro]: "values_ok m \<Longrightarrow> values_ok (values_set k v m)"
  by (simp add: values_set_def values_ok_put)

lemma values_ok_del [intro]: "values_ok m \<Longrightarrow> values_ok (values_del k m)"
  by (auto simp: values_del_def values_ok_def set_gm_del)

lemma values_ok_parse [intro]: "values_ok (parse_query q)"
proof -
  have "values_ok m \<Longrightarrow> values_ok (fold (\<lambda>seg m. case parse_segment seg of None \<Rightarrow> m
      | Some (k, v) \<Rightarrow> values_add k v m) segs m)" for segs and m :: url_values
    by (induction segs arbitrary: m) (auto simp: values_add_def values_ok_put split: option.splits)
  moreover have "values_ok []" by (simp add: values_ok_def)
  ultimately show ?thesis by (simp add: parse_query_def)
qed

lemma values_ok_announce: "values_ok q \<Longrightarrow> values_ok (announce_values f rq event q)"
  by (simp add: announce_values_def Let_def values_ok_set values_ok_del)

lemmas values_get_simps = values_get_def values_set_def values_del_def

definition announce_keys :: "string set" where
  "announce_keys = {''info_hash'', ''peer_id'', ''port'', ''uploaded'', ''downloaded'', ''left'', ''event'', ''ip'', ''ipv4''}"

text \<open>What a query carries for an announce with a given event: the ids as raw bytes, the port, the counters and
  the event of its own, no event at all when that is empty, the configured address, and every other parameter of the
  upstream's own address.\<close>

definition carries :: "forward \<Rightarrow> request \<Rightarrow> string \<Rightarrow> url \<Rightarrow> string \<Rightarrow> bool" where
  "carries f rq event u q \<longleftrightarrow>
     values_get (parse_query q) ''info_hash'' = rq_hash rq
     \<and> values_get (parse_query q) ''peer_id'' = rq_peer_id rq
     \<and> values_get (parse_query q) ''port'' = itoa (rq_port rq)
     \<and> values_get (parse_query q) ''uploaded'' = nat_digits (unat (rq_uploaded rq))
     \<and> values_get (parse_query q) ''downloaded'' = nat_digits (unat (rq_downloaded rq))
     \<and> values_get (parse_query q) ''left'' = nat_digits (unat (rq_left rq))
     \<and> values_get (parse_query q) ''event'' = event
     \<and> (event = [] \<longrightarrow> gm_get (parse_query q) ''event'' = None)
     \<and> (f_ip f \<noteq> [] \<longrightarrow> values_get (parse_query q) ''ip'' = f_ip f \<and> values_get (parse_query q) ''ipv4'' = f_ip f)
     \<and> (\<forall>k. k \<notin> announce_keys \<longrightarrow> gm_get (parse_query q) k = gm_get (parse_query (u_raw_query u)) k)"

lemma announce_query_carries:
  assumes "url_parse (f_uri f) = Some u"
  shows "\<exists>q. buildAnnounceURI render f rq event = render (u\<lparr>u_raw_query := q\<rparr>) \<and> carries f rq event u q"
proof -
  define m where "m = announce_values f rq event (parse_query (u_raw_query u))"
  have "values_ok m" unfolding m_def by (intro values_ok_announce values_ok_parse)
  then have get: "gm_get (parse_query (values_encode m)) k = gm_get m k" for k
    by (intro query_round_trip) (auto simp: values_ok_def)
  then have vals: "values_get (parse_query (values_encode m)) k = values_get m k" for k
    by (simp add: values_get_def)
  have "carries f rq event u (values_encode m)"
    unfolding carries_def get vals
    by (simp add: m_def announce_values_def values_get_simps announce_keys_def Let_def)
  moreover have "buildAnnounceURI render f rq event = render (u\<lparr>u_raw_query := values_encode m\<rparr>)"
    by (simp add: buildAnnounceURI_def assms m_def)
  ultimately show ?thesis by blast
qed

text \<open>C36. The addresses that an HTTP announce and a forwarded event ask for. Both are the upstream's own
  address with a query that, percent-encoded, decodes to the torrent and peer ids as raw bytes, the port and
  the counters of the request, the configured address, and the other parameters of the upstream's own address.
  The announce of a job has no event in it, whatever the client's was; a forwarded event has the event of its
  request. Nothing is asked for under any other address.\<close>

theorem announce_query_round_trip:
  assumes "url_parse (f_uri (aj_forwarder job)) = Some u" "url_parse (f_uri f) = Some v"
  shows "(\<exists>q. carries (aj_forwarder job) (aj_request job) [] u q
      \<and> (\<forall>env. doHTTPAnnounce render decode job env s =
           doHTTPAnnounce render decode job (\<lambda>_. env (render (u\<lparr>u_raw_query := q\<rparr>))) s))
    \<and> (\<exists>q. carries f rq (rq_event rq) v q
      \<and> (\<forall>fetch. doHTTPEventRequest render fetch f rq =
           doHTTPEventRequest render (\<lambda>_. fetch (render (v\<lparr>u_raw_query := q\<rparr>))) f rq))"
  using announce_query_carries [OF assms(1), of render "aj_request job" "[]"]
    announce_query_carries [OF assms(2), of render rq "rq_event rq"]
  by (auto simp: doHTTPAnnounce_def doHTTPEventRequest_def)

lemma announce_query_round_trip_witness:
  "\<exists>u q. url_parse (f_uri example_forward) = Some u \<and> carries example_forward example_request ''started'' u q
    \<and> values_get (parse_query q) ''info_hash'' = example_hash
    \<and> doHTTPEventRequest u_raw_query (\<lambda>a. HttpReply (if a = q then 200 else 404) [] 0 ([], None))
        example_forward example_request = None"
proof -
  have "url_parse (f_uri example_forward) \<noteq> None" by code_simp
  then obtain u where u: "url_parse (f_uri example_forward) = Some u" by blast
  then have job: "url_parse (f_uri (aj_forwarder (example_job\<lparr>aj_forwarder := example_forward\<rparr>))) = Some u" by simp
  obtain q where q: "carries example_forward example_request (rq_event example_request) u q"
    "\<forall>fetch. doHTTPEventRequest u_raw_query fetch example_forward example_request =
      doHTTPEventRequest u_raw_query (\<lambda>_. fetch (u_raw_query (u\<lparr>u_raw_query := q\<rparr>))) example_forward example_request"
    using announce_query_round_trip [OF job u, of u_raw_query] by blast
  have "doHTTPEventRequest u_raw_query (\<lambda>a. HttpReply (if a = q then 200 else 404) [] 0 ([], None))
      example_forward example_request = None"
    by (subst q(2) [rule_format]) (simp add: doHTTPEventRequest_def)
  moreover have "values_get (parse_query q) ''info_hash'' = example_hash" "rq_event example_request = ''started''"
    using q(1) by (simp_all add: carries_def example_request_def)
  ultimately show ?thesis using u q(1) by metis
qed

section \<open>Error classes\<close>

text \<open>Every error of a forwarder gets one of the known classes, classifying twice changes nothing, no
  error both suspends and disables; an answer 429 always suspends and one of the rejecting statuses 400,
  403 and 404 always disables, whatever text comes with it.\<close>

theorem error_classification:
  "(\<exists>t m c. classifyForwarderError (Some e) = Some (ErrForwarder t m c) \<and> t \<noteq> Untyped)
   \<and> classifyForwarderError (classifyForwarderError err) = classifyForwarderError err
   \<and> \<not> (shouldSuspendErr err \<and> isPermanentErr err)
   \<and> shouldSuspendErr (classifyForwarderError (Some (ErrText (status_text 429 status))))
   \<and> (isTrackerRejection code \<longrightarrow> isPermanentErr (classifyForwarderError (Some (ErrText (rejection_text code)))))"
  using classify_total [of e] classify_idem [of err] suspend_not_permanent [of err]
    classify_429_error [of status] classify_rejection_error [of code] by blast

lemma error_classification_witness:
  "isPermanentErr (classifyForwarderError (Some (ErrText (rejection_text 404))))"
proof -
  have "isTrackerRejection 404" by code_simp
  with error_classification [where code = 404] show ?thesis by blast
qed

section \<open>Address ranges\<close>

text \<open>The addresses an upstream may not resolve to are exactly the loopback and private IPv4 blocks
  127/8, 10/8, 172.16/12 and 192.168/16, in the four-byte form as in the form mapped into IPv6.\<close>

theorem blocked_ranges:
  assumes "length b = 4"
  shows "(isBlockedIP b \<longleftrightarrow> blocked_address (be_dec b))
    \<and> (isBlockedIP (v4_in_v6_prefix @ b) \<longleftrightarrow> blocked_address (be_dec b))"
  using isBlockedIP_ranges [OF assms] isBlockedIP_mapped [OF assms] by simp

lemma blocked_ranges_witness:
  "isBlockedIP (v4_in_v6_prefix @ map byte [192, 168, 1, 1]) \<and> \<not> isBlockedIP (map byte [8, 8, 8, 8])"
proof -
  have "blocked_address (be_dec (map byte [192, 168, 1, 1]))" "\<not> blocked_address (be_dec (map byte [8, 8, 8, 8]))"
    by code_simp+
  then show ?thesis
    using blocked_ranges [of "map byte [192, 168, 1, 1]"] blocked_ranges [of "map byte [8, 8, 8, 8]"] by simp
qed

text \<open>C34. Of an upstream's peers exactly those whose address is routable are kept, in order, and the others
  are counted; for IPv4 the test is membership in none of the reserved blocks of the table
  \<open>unroutable_blocks\<close>, and no such address is one that upstreams are blocked for.\<close>

theorem routable_ranges:
  assumes "length b = 4"
  shows "filterRoutableForwarderPeers ps =
      (filter (\<lambda>p. isRoutablePeerAddress (p_ip p)) ps, length (filter (\<lambda>p. \<not> isRoutablePeerAddress (p_ip p)) ps))
    \<and> (isRoutablePeerAddress (v4_string b) \<longleftrightarrow> routable_v4 (be_dec b))
    \<and> \<not> (isRoutablePeerAddress (v4_string b) \<and> isBlockedIP b)"
proof -
  have "\<not> (routable_v4 a \<and> blocked_address a)" for a
    by (auto simp: routable_v4_def blocked_address_def unroutable_blocks_def)
  then show ?thesis
    using isRoutable_v4 [OF assms] isBlockedIP_ranges [OF assms] by (simp add: filterRoutableForwarderPeers_eq)
qed

lemma routable_ranges_witness: "\<not> isRoutablePeerAddress (v4_string (map byte [100, 64, 0, 1]))"
proof -
  have "\<not> routable_v4 (be_dec (map byte [100, 64, 0, 1]))" by code_simp
  then show ?thesis using routable_ranges [of "map byte [100, 64, 0, 1]"] by simp
qed

end
