(* ===== verification/SetupTheorems.thy ===== *)
theory SetupTheorems
  imports Examples
begin

text \<open>
  Properties of how the tracker is set up and changed while it runs: its configuration, the list of
  upstreams it starts with, those added later, the limiter of first announces, and the shutdown of the
  background goroutines.
\<close>

section \<open>The upstreams at start-up\<close>

text \<open>Removing duplicates keeps a sublist of the upstreams in which each main domain that had one still
  has one with the best score of the domain, all the kept ones of a domain having the same address; an
  upstream without a main domain is not kept.\<close>

theorem dedupe_keeps:
  assumes "dedupe_by_domain fs = Some (fs', names)"
  shows "subseq fs' fs
    \<and> (\<forall>f \<in> set fs. \<forall>d. main_domain_of f = Some d \<longrightarrow>
         (\<exists>b \<in> set fs'. main_domain_of b = Some d \<and> forwarderScore f \<le> forwarderScore b
            \<and> (\<forall>g \<in> set fs'. main_domain_of g = Some d \<longrightarrow> f_uri g = f_uri b)))
    \<and> (\<forall>f \<in> set fs'. main_domain_of f \<noteq> None)"
proof -
  have sub: "subseq fs' fs" using assms by (rule dedupe_subseq)
  then have "set fs' \<subseteq> set fs" by (rule subseq_set)
  then have "\<forall>f \<in> set fs'. main_domain_of f \<noteq> None"
    using dedupe_drops_domainless [OF assms] by blast
  with sub show ?thesis using dedupe_keeps_best [OF assms] by blast
qed

definition example_duplicates :: "forward list" where
  "example_duplicates = [\<lparr>f_name = [], f_uri = ''http://a.example.org/announce'', f_ip = [], f_host = []\<rparr>,
     \<lparr>f_name = [], f_uri = ''udp://b.example.org:6969'', f_ip = [], f_host = []\<rparr>]"

lemma dedupe_keeps_witness:
  "\<exists>fs' names. dedupe_by_domain example_duplicates = Some (fs', names) \<and> length fs' < length example_duplicates
     \<and> (\<forall>f \<in> set fs'. main_domain_of f \<noteq> None)"
proof -
  have e: "case dedupe_by_domain example_duplicates of None \<Rightarrow> False
     | Some (fs', names) \<Rightarrow> length fs' < length example_duplicates" by code_simp
  then obtain fs' names where d: "dedupe_by_domain example_duplicates = Some (fs', names)"
    "length fs' < length example_duplicates" by (auto split: option.splits)
  with dedupe_keeps [OF d(1)] show ?thesis by blast
qed



section \<open>Adding upstreams while running\<close>

text \<open>C37. A request to add upstreams appends exactly the accepted ones, in order, to the list; the answer
  reports every address once, its counts add up, the addresses reported without error are those of the
  appended upstreams, and names stay distinct. The status is 409 if all were duplicates, 400 if none was
  accepted for other reasons, and 200 as soon as one was accepted.\<close>

theorem add_forwarders_outcome:
  assumes "HTTPAddForwarderHandler lookup_ip now meth rawQuery first trailing co = (co', status, AddResponse resp)"
    and "ensureForwarderManager lookup_ip now co = (co1, Some fm)"
  shows "\<exists>fm' fs dup. tk_manager (co_tracker co') = Some fm' \<and> fm_forwarders fm' = fm_forwarders fm @ fs
    \<and> ad_added resp = length fs \<and> ad_added resp + ad_failed resp = length (ad_results resp)
    \<and> map af_url (filter (\<lambda>r. af_error r = None) (ad_results resp)) = map f_uri fs
    \<and> (dup \<longleftrightarrow> (\<forall>r \<in> set (ad_results resp). \<forall>e. af_error r = Some e \<longrightarrow> is_duplicate e))
    \<and> status = (if ad_failed resp > 0 \<and> ad_added resp = 0 then if dup then 409 else 400 else 200)
    \<and> (distinct (map getName (fm_forwarders fm)) \<longrightarrow> distinct (map getName (fm_forwarders fm')))"
proof -
  define start where "start = \<lparr>ad_status = ''added'', ad_added = 0, ad_failed = 0, ad_results = []\<rparr>"
  obtain b where b: "(if meth = ''POST'' then decodeForwarderRequest first trailing else Inr []) = Inr b"
    using assms(1) by (auto simp: HTTPAddForwarderHandler_def case_prod_beta split: if_splits sum.splits)
  define urls where "urls = query_urls rawQuery @ trimmed_urls b"
  obtain fm' resp1 dup where run: "add_forwarders urls (fm, start, True) = (fm', resp1, dup)"
    by (rule prod_cases3)
  have out: "add_status resp1 dup = (status, resp)" "tk_manager (co_tracker co') = Some fm'"
    using assms run b unfolding urls_def [symmetric] start_def
    by (auto simp: HTTPAddForwarderHandler_def Let_def urls_def [symmetric] split: if_splits prod.splits)
  obtain fs rs where r: "fm_forwarders fm' = fm_forwarders fm @ fs \<and> ad_results resp1 = ad_results start @ rs
    \<and> length rs = length urls \<and> ad_added resp1 = ad_added start + length fs
    \<and> ad_added resp1 + ad_failed resp1 = ad_added start + ad_failed start + length urls
    \<and> map af_url (filter (\<lambda>r. af_error r = None) rs) = map f_uri fs
    \<and> dup = (True \<and> (\<forall>r \<in> set rs. case af_error r of None \<Rightarrow> True | Some e \<Rightarrow> is_duplicate e))
    \<and> ad_status resp1 = ad_status start"
    using add_forwarders_result [OF run] by blast
  then have rs: "ad_results resp1 = rs" by (simp add: start_def)
  have same: "ad_results resp = ad_results resp1" "ad_added resp = ad_added resp1" "ad_failed resp = ad_failed resp1"
    using out(1) by (auto simp: add_status_def split: if_splits)
  have st: "status = (if ad_failed resp > 0 \<and> ad_added resp = 0 then if dup then 409 else 400 else 200)"
    using add_status_codes [of resp1 dup] out(1) same by simp
  have "dup = (\<forall>r \<in> set rs. case af_error r of None \<Rightarrow> True | Some e \<Rightarrow> is_duplicate e)" using r by simp
  then have dup: "dup \<longleftrightarrow> (\<forall>r \<in> set rs. \<forall>e. af_error r = Some e \<longrightarrow> is_duplicate e)"
    by (auto split: option.splits)
  have counts: "ad_added resp1 = length fs" "ad_added resp1 + ad_failed resp1 = length rs"
    using r by (simp_all add: start_def)
  show ?thesis
    unfolding same rs
    by (rule exI [of _ fm'], rule exI [of _ fs], rule exI [of _ dup])
       (use out(2) r counts dup st same add_forwarders_names [OF run] in simp)
qed

lemma add_forwarders_outcome_witness:
  "case HTTPAddForwarderHandler (\<lambda>_. Inl ''no such host'') example_now ''GET'' ''urls=http://a.org/announce'' JsonEOF JsonEOF
      (NewCore (\<lambda>_. Inl ''no such host'') example_now example_config) of (co', status, body) \<Rightarrow>
     status = 200"
proof -
  define co where "co = NewCore (\<lambda>_. Inl ''no such host'') example_now example_config"
  obtain co1 fm where e: "ensureForwarderManager (\<lambda>_. Inl ''no such host'') example_now co = (co1, Some fm)"
  proof -
    have "snd (ensureForwarderManager (\<lambda>_. Inl ''no such host'') example_now co) \<noteq> None"
      unfolding co_def by code_simp
    then show ?thesis using that by (cases "ensureForwarderManager (\<lambda>_. Inl ''no such host'') example_now co") auto
  qed
  have a: "case HTTPAddForwarderHandler (\<lambda>_. Inl ''no such host'') example_now ''GET'' ''urls=http://a.org/announce''
      JsonEOF JsonEOF co of (co', status, AddResponse resp) \<Rightarrow> ad_added resp = 1 | _ \<Rightarrow> False"
    unfolding co_def by code_simp
  then obtain co' status resp where h: "HTTPAddForwarderHandler (\<lambda>_. Inl ''no such host'') example_now ''GET''
      ''urls=http://a.org/announce'' JsonEOF JsonEOF co = (co', status, AddResponse resp)" "ad_added resp = 1"
    by (auto split: prod.splits http_body.splits)
  from add_forwarders_outcome [OF h(1) e] h show ?thesis by (auto simp: co_def [symmetric])
qed

section \<open>The limiter of first announces\<close>

text \<open>The token bucket never holds a negative number of tokens nor more than its burst, at whatever
  times it is asked; asked repeatedly at the same moment it grants exactly the tokens it holds.\<close>

theorem bucket_bounds:
  assumes "tb_ok tb"
  shows "tb_ok (fst (allow_run ticks tb))
    \<and> (tb_last_tick tb = now \<and> \<not> is_zero_time now \<longrightarrow>
         int (snd (allow_run (replicate k now) tb)) = min (int k) (tb_tokens tb))"
proof
  show "tb_ok (fst (allow_run ticks tb))"
    using assms
  proof (induction ticks arbitrary: tb)
    case (Cons t ts)
    from Cons.IH [OF tb_ok_allow [OF Cons.prems]] show ?case by (simp add: case_prod_beta Let_def)
  qed simp
  show "tb_last_tick tb = now \<and> \<not> is_zero_time now \<longrightarrow>
         int (snd (allow_run (replicate k now) tb)) = min (int k) (tb_tokens tb)"
    using allow_run_still [of tb now k] assms by (simp add: tb_ok_def)
qed

lemma bucket_bounds_witness:
  "snd (allow_run (replicate 5 example_now) \<lparr>tb_tokens = 3, tb_rate = 1, tb_burst = 10, tb_last_tick = example_now\<rparr>) = 3"
proof -
  have z: "\<not> is_zero_time example_now" by code_simp
  show ?thesis
    using bucket_bounds [of "\<lparr>tb_tokens = 3, tb_rate = 1, tb_burst = 10, tb_last_tick = example_now\<rparr>" Nil
        example_now 5] z
    by (simp add: tb_ok_def)
qed

section \<open>Configuration\<close>

text \<open>Of a setting given in several places the command line wins over the environment and the
  environment over the file; an empty value in the environment does not replace the HTTP address but
  does turn off UDP. The announce interval and the retry period of a loaded configuration are positive.\<close>

theorem config_precedence:
  assumes "loadConfig load_file load_forwards overrides lookupEnv = Inr cfg"
  shows "(\<forall>v. gm_get overrides ''l'' = Some v \<longrightarrow> cf_listen cfg = v)
    \<and> (\<forall>e. gm_get overrides ''l'' = None \<and> lookupEnv ''RETRACKER_LISTEN'' = Some e \<and> e \<noteq> [] \<longrightarrow> cf_listen cfg = e)
    \<and> (\<forall>v. gm_get overrides ''u'' = Some v \<longrightarrow> cf_udp_listen cfg = v)
    \<and> (\<forall>e. gm_get overrides ''u'' = None \<and> lookupEnv ''RETRACKER_UDP_LISTEN'' = Some e \<longrightarrow> cf_udp_listen cfg = e)
    \<and> 0 < cf_announce_interval cfg \<and> 0 < cf_retry_period cfg"
  using loadConfig_listen [OF assms] by blast

definition example_env :: "string \<Rightarrow> string option" where
  "example_env k = (if k = ''RETRACKER_LISTEN'' then Some '':9090''
     else if k = ''RETRACKER_UDP_LISTEN'' then Some [] else None)"

lemma config_precedence_witness:
  "case loadConfig (\<lambda>_ c. Inr c) (\<lambda>_. Inl ''no file'') [(''l'', '':8080'')] example_env of
     Inr cfg \<Rightarrow> cf_listen cfg = '':8080'' \<and> cf_udp_listen cfg = [] | Inl (e :: string config_error) \<Rightarrow> False"
proof -
  have "case loadConfig (\<lambda>_ c. Inr c) (\<lambda>_. Inl ''no file'') [(''l'', '':8080'')] example_env of
     Inr cfg \<Rightarrow> True | Inl (e :: string config_error) \<Rightarrow> False" by code_simp
  then obtain cfg where
    c: "loadConfig (\<lambda>_ c. Inr c) (\<lambda>_. Inl ''no file'') [(''l'', '':8080'')] example_env =
      (Inr cfg :: string config_error + config)" by (auto split: sum.splits)
  from config_precedence [OF c] c show ?thesis by (simp add: example_env_def)
qed

section \<open>Shutting down goroutines\<close>

text \<open>C40. Once stopping has begun no goroutine of the service starts any more, those that run can all
  return, and waiting ends exactly when the last has: whatever happened before and in whatever order
  they end.\<close>

theorem background_drain:
  assumes "task_run (newBackgroundTasks, []) es (ts, gs)" and "ts_stopped ts"
    and "task_run (ts, gs) es' (ts', gs')"
  shows "(\<forall>i. Begun i \<notin> set es') \<and> set gs' \<subseteq> set gs \<and> (wait_returns ts' \<longleftrightarrow> gs' = [])
    \<and> (\<forall>rs. mset rs = mset gs' \<longrightarrow> (\<exists>ts''. task_run (ts', gs') (map Ended rs) (ts'', []) \<and> wait_returns ts''))"
proof -
  have "tasks_inv (newBackgroundTasks, [])" by (simp add: tasks_inv_def newBackgroundTasks_def)
  from tasks_inv_run [OF assms(3) tasks_inv_run [OF assms(1) this]] have inv: "tasks_inv (ts', gs')" .
  with stopped_run [OF assms(3)] assms(2) drain [OF inv] wait_iff_idle [OF inv] show ?thesis by simp
qed

lemma background_drain_witness:
  "\<exists>ts ts''. task_run (newBackgroundTasks, []) [Begun 1, Begun 2, Stopping] (ts, [2, 1])
     \<and> task_run (ts, [2, 1]) [Ended 1, Ended 2] (ts'', []) \<and> wait_returns ts''"
proof -
  define t1 where "t1 = newBackgroundTasks\<lparr>ts_wg := 1\<rparr>"
  define t2 where "t2 = newBackgroundTasks\<lparr>ts_wg := 2\<rparr>"
  define ts where "ts = tasks_stop t2"
  have b: "tasks_begin newBackgroundTasks = (t1, True)" "tasks_begin t1 = (t2, True)"
    by (simp_all add: tasks_begin_def newBackgroundTasks_def t1_def t2_def)
  have "task_run (newBackgroundTasks, []) [Begun 1, Begun 2, Stopping] (ts, [2, 1])"
    unfolding ts_def
    by (rule run_cons [OF run_started [OF b(1)]], simp, rule run_cons [OF run_started [OF b(2)]], simp,
        rule run_cons [OF stop_called run_nil])
  then have run: "task_run (newBackgroundTasks, []) [Begun 1, Begun 2, Stopping] (ts, [2, 1])" .
  have "ts_stopped ts" by (simp add: ts_def tasks_stop_def)
  from background_drain [OF run this run_nil, THEN conjunct2, THEN conjunct2, THEN conjunct2, rule_format, of "[1, 2]"]
  obtain ts'' where "task_run (ts, [2, 1]) [Ended 1, Ended 2] (ts'', [])" "wait_returns ts''" by auto
  with run show ?thesis by blast
qed

end
