(* ===== verification/Runes.thy ===== *)
theory Runes
  imports GoStrings
begin

text \<open>
  UTF-8 as Go's \<open>range\<close>, \<open>[]rune\<close> and \<open>utf8.RuneCountInString\<close> read it. A rune is kept as its bytes; a
  byte that starts no valid encoding is one rune, U+FFFD. On top of it \<open>strings.Fields\<close> and the padding
  of \<open>fmt\<close>, which counts runes.
\<close>

section \<open>Decoding\<close>

definition in_range :: "nat \<Rightarrow> nat \<Rightarrow> nat \<Rightarrow> bool" where
  "in_range lo hi n \<longleftrightarrow> lo \<le> n \<and> n \<le> hi"

text \<open>The number of bytes of the encoding at the front, 0 if there is no valid one.\<close>

definition rune_width :: "string \<Rightarrow> nat" where
  "rune_width s =
     (case map byte_val (take 4 s) of
        [] \<Rightarrow> 0
      | a # r \<Rightarrow>
          if a < 128 then 1
          else if in_range 194 223 a then
            (case r of b # _ \<Rightarrow> if in_range 128 191 b then 2 else 0 | _ \<Rightarrow> 0)
          else if in_range 224 239 a then
            (case r of b # c # _ \<Rightarrow>
                 if in_range (if a = 224 then 160 else 128) (if a = 237 then 159 else 191) b
                   \<and> in_range 128 191 c then 3 else 0
               | _ \<Rightarrow> 0)
          else if in_range 240 244 a then
            (case r of b # c # d # _ \<Rightarrow>
                 if in_range (if a = 240 then 144 else 128) (if a = 244 then 143 else 191) b
                   \<and> in_range 128 191 c \<and> in_range 128 191 d then 4 else 0
               | _ \<Rightarrow> 0)
          else 0)"

definition replacement_rune :: string where
  "replacement_rune = map char_of [239 :: nat, 191, 189]"

text \<open>The raw pieces of a string, and its runes.\<close>

function raw_runes :: "string \<Rightarrow> string list" where
  "raw_runes s =
     (if s = [] then []
      else take (max 1 (rune_width s)) s # raw_runes (drop (max 1 (rune_width s)) s))"
  by pat_completeness auto
termination by (relation "measure length") auto

declare raw_runes.simps [simp del]

definition fix_rune :: "string \<Rightarrow> string" where
  "fix_rune r = (if rune_width r = 0 then replacement_rune else r)"

definition runes :: "string \<Rightarrow> string list" where
  "runes s = map fix_rune (raw_runes s)"

definition valid_rune :: "string \<Rightarrow> bool" where
  "valid_rune r \<longleftrightarrow> r \<noteq> [] \<and> rune_width r = length r"

lemma raw_runes_Nil [simp]: "raw_runes [] = []"
  by (simp add: raw_runes.simps)

lemma concat_raw_runes [simp]: "concat (raw_runes s) = s"
proof (induction s rule: raw_runes.induct)
  case (1 s)
  then show ?case by (cases "s = []") (simp_all add: raw_runes.simps [of s])
qed

lemma raw_runes_not_Nil: "r \<in> set (raw_runes s) \<Longrightarrow> r \<noteq> []"
proof (induction s rule: raw_runes.induct)
  case (1 s)
  then show ?case by (cases "s = []") (auto simp: raw_runes.simps [of s])
qed

lemma rune_width_le: "rune_width s \<le> 4 \<and> rune_width s \<le> length s"
proof (cases s)
  case (Cons a s1)
  then show ?thesis
    by (cases s1; cases "tl s1"; cases "tl (tl s1)")
       (auto simp: rune_width_def split: if_splits)
qed (simp add: rune_width_def)

text \<open>Only the bytes of an encoding matter for its width.\<close>

lemma rune_width_append:
  assumes "rune_width s \<noteq> 0" shows "rune_width (s @ t) = rune_width s"
proof (cases s)
  case (Cons a s1)
  with assms show ?thesis
    by (cases s1; cases "tl s1"; cases "tl (tl s1)")
       (auto simp: rune_width_def split: if_splits list.splits)
qed (use assms in \<open>simp add: rune_width_def\<close>)

lemma rune_width_take:
  assumes "rune_width s \<noteq> 0" shows "rune_width (take (rune_width s) s) = rune_width s"
proof (cases s)
  case (Cons a s1)
  with assms show ?thesis
    by (cases s1; cases "tl s1"; cases "tl (tl s1)")
       (auto simp: rune_width_def split: if_splits list.splits)
qed (use assms in \<open>simp add: rune_width_def\<close>)

lemma valid_replacement: "valid_rune replacement_rune"
  by code_simp

lemma valid_raw_rune:
  "r \<in> set (raw_runes s) \<Longrightarrow> valid_rune r \<or> rune_width r = 0"
proof (induction s rule: raw_runes.induct)
  case (1 s)
  show ?case
  proof (cases "s = []")
    case False
    then consider (head) "r = take (max 1 (rune_width s)) s" | (later) "r \<in> set (raw_runes (drop (max 1 (rune_width s)) s))"
      using "1.prems" by (auto simp: raw_runes.simps [of s])
    then show ?thesis
    proof cases
      case head
      show ?thesis
      proof (cases "rune_width r = 0")
        case w: False
        have "rune_width s \<noteq> 0"
        proof
          assume "rune_width s = 0"
          moreover from this head have "s = r @ drop 1 s" by simp
          ultimately show False using rune_width_append [OF w, of "drop 1 s"] w by simp
        qed
        then have "r = take (rune_width s) s" using head by (simp add: max_def)
        with rune_width_take [OF \<open>rune_width s \<noteq> 0\<close>] rune_width_le [of s] False show ?thesis
          by (auto simp: valid_rune_def min_def)
      qed simp
    next
      case later
      show ?thesis by (rule "1.IH" [OF False later])
    qed
  qed (use "1.prems" in simp)
qed

lemma valid_runes: "r \<in> set (runes s) \<Longrightarrow> valid_rune r"
  using valid_replacement by (auto simp: runes_def fix_rune_def dest: valid_raw_rune)

text \<open>Runes put together come apart again.\<close>

lemma raw_runes_append: "valid_rune r \<Longrightarrow> raw_runes (r @ s) = r # raw_runes s"
proof -
  assume "valid_rune r"
  then have "rune_width r \<noteq> 0" "rune_width r = length r" "r \<noteq> []" by (auto simp: valid_rune_def)
  moreover from this have "max 1 (length r) = length r" by (cases r) auto
  ultimately show ?thesis
    using rune_width_append [of r s] by (subst raw_runes.simps) simp
qed

lemma runes_concat: "\<forall>r \<in> set rs. valid_rune r \<Longrightarrow> runes (concat rs) = rs"
  by (induction rs) (auto simp: runes_def raw_runes_append fix_rune_def valid_rune_def)

lemma runes_append: "\<forall>r \<in> set rs. valid_rune r \<Longrightarrow> runes (concat rs @ s) = rs @ runes s"
  by (induction rs) (auto simp: runes_def raw_runes_append fix_rune_def valid_rune_def)

lemma runes_runes [simp]: "runes (concat (runes s)) = runes s"
  by (simp add: runes_concat valid_runes)

lemma runes_Nil_iff [simp]: "runes s = [] \<longleftrightarrow> s = []"
  by (auto simp: runes_def raw_runes.simps [of s])

section \<open>Fields\<close>

fun field_loop :: "string list \<Rightarrow> string \<Rightarrow> string list" where
  "field_loop [] cur = (if cur = [] then [] else [cur])"
| "field_loop (r # rs) cur =
     (if space_rune r then (if cur = [] then field_loop rs [] else cur # field_loop rs [])
      else field_loop rs (cur @ r))"

definition string_fields :: "string \<Rightarrow> string list" where
  "string_fields s = field_loop (raw_runes s) []"

lemma field_loop_concat: "concat (field_loop rs cur) = cur @ concat (filter (\<lambda>r. \<not> space_rune r) rs)"
  by (induction rs cur rule: field_loop.induct) auto

lemma field_loop_not_Nil: "\<forall>r \<in> set rs. r \<noteq> [] \<Longrightarrow> f \<in> set (field_loop rs cur) \<Longrightarrow> f \<noteq> []"
  by (induction rs cur rule: field_loop.induct) (auto split: if_splits)

lemma fields_concat: "concat (string_fields s) = concat (filter (\<lambda>r. \<not> space_rune r) (raw_runes s))"
  by (simp add: string_fields_def field_loop_concat)

lemma fields_not_Nil: "f \<in> set (string_fields s) \<Longrightarrow> f \<noteq> []"
  unfolding string_fields_def by (rule field_loop_not_Nil) (auto dest: raw_runes_not_Nil)

text \<open>An ASCII control character or blank is a rune of its own, so that none is in a field if it is white
  space.\<close>

lemma ascii_alone:
  assumes "byte_val c < 128" "r \<in> set (raw_runes s)" "c \<in> set r"
  shows "r = [c]"
proof -
  have w: "rune_width r = 0 \<Longrightarrow> length r = 1"
    using assms(2)
  proof (induction s rule: raw_runes.induct)
    case (1 s)
    show ?case
    proof (cases "s = []")
      case False
      with "1.prems" consider (head) "r = take (max 1 (rune_width s)) s"
        | (later) "r \<in> set (raw_runes (drop (max 1 (rune_width s)) s))"
        by (auto simp: raw_runes.simps [of s])
      then show ?thesis
      proof cases
        case head
        with rune_width_take [of s] "1.prems"(1) False show ?thesis
          by (cases "rune_width s = 0") (auto simp: max_def min_def neq_Nil_conv split: if_splits)
      next
        case later
        with 1 False show ?thesis by blast
      qed
    qed (use "1.prems" in simp)
  qed
  show ?thesis
  proof (cases "rune_width r = 0")
    case True
    with w assms(3) show ?thesis by (cases r) auto
  next
    case False
    with valid_raw_rune [OF assms(2)] have v: "rune_width r = length r" "length r \<le> 4"
      using rune_width_le [of r] by (auto simp: valid_rune_def)
    obtain a r1 where r: "r = a # r1" using assms(3) by (cases r) auto
    from v False assms(1,3) r show ?thesis
      by (cases r1; cases "tl r1"; cases "tl (tl r1)")
         (auto simp: rune_width_def in_range_def split: if_splits)
  qed
qed

lemma field_loop_chars:
  "c \<in> set f \<Longrightarrow> f \<in> set (field_loop rs cur) \<Longrightarrow> c \<in> set cur \<or> (\<exists>r \<in> set rs. \<not> space_rune r \<and> c \<in> set r)"
  by (induction rs cur rule: field_loop.induct) (auto split: if_splits)

lemma fields_no_space:
  assumes "f \<in> set (string_fields s)" "c \<in> set f" shows "\<not> space_rune [c]"
proof
  assume "space_rune [c]"
  moreover obtain r where r: "r \<in> set (raw_runes s)" "\<not> space_rune r" "c \<in> set r"
    using field_loop_chars [OF assms(2), of "raw_runes s" Nil] assms(1) by (auto simp: string_fields_def)
  moreover from \<open>space_rune [c]\<close> have "byte_val c < 128" by (auto simp: space_rune_def)
  ultimately show False using ascii_alone [of c r s] by auto
qed

section \<open>Padding\<close>

text \<open>\<open>%-Ns\<close> and \<open>%Ns\<close>.\<close>

definition pad_right :: "nat \<Rightarrow> string \<Rightarrow> string" where
  "pad_right n s = s @ replicate (n - length (runes s)) (CHR '' '')"

definition pad_left :: "nat \<Rightarrow> string \<Rightarrow> string" where
  "pad_left n s = replicate (n - length (runes s)) (CHR '' '') @ s"

end
