(* ===== verification/StatsText.thy ===== *)
theory StatsText
  imports Runes StatsView
begin

text \<open>
  The texts of \<open>internal/observability/stats.go\<close> (the answer of \<open>/stats\<close> as text and as JSON, the short
  form), the configuration text of \<open>internal/config/config.go\<close>, and the one-line records of
  \<open>internal/observability/console.go\<close>. \<open>fmt\<close> is modelled for the verbs that are used. The local time
  zone's rendering of a date is the parameter \<open>rfc3339\<close>; the JSON of the code is the value that is
  encoded, the encoder being the library's; so is the encoder of a log record's attributes.
\<close>

section \<open>Verbs\<close>

definition nl :: string where "nl = [char_of (10 :: nat)]"

definition show_bool :: "bool \<Rightarrow> string" where
  "show_bool b = (if b then ''true'' else ''false'')"

text \<open>\<open>%.1f\<close>.\<close>

definition fixed1 :: "rat \<Rightarrow> string" where
  "fixed1 q = (let n = nat (round_even (\<bar>q\<bar> * 10))
     in (if q < 0 then ''-'' else []) @ nat_digits (n div 10) @ ''.'' @ nat_digits (n mod 10))"

text \<open>\<open>Duration.Round\<close> and \<open>Duration.String\<close>.\<close>

definition duration_round :: "duration \<Rightarrow> duration \<Rightarrow> duration" where
  "duration_round d m =
     (if m \<le> 0 then d
      else (let r = \<bar>d\<bar> mod m in
        if d < 0 then (if r + r < m then d + r
                       else (let d1 = d - m + r in if d1 < d \<and> min_duration \<le> d1 then d1 else min_duration))
        else if r + r < m then d - r
        else (let d1 = d + m - r in if d1 > d \<and> d1 \<le> max_duration then d1 else max_duration)))"

text \<open>The fraction without trailing zeros, with its point, from \<open>k\<close> digits.\<close>

fun fraction :: "nat \<Rightarrow> nat \<Rightarrow> string" where
  "fraction 0 n = []"
| "fraction (Suc k) n =
     (if n mod 10 = 0 then fraction k (n div 10)
      else (let ds = nat_digits n in ''.'' @ replicate (Suc k - length ds) (CHR ''0'') @ ds))"

definition duration_string :: "duration \<Rightarrow> string" where
  "duration_string d =
     (let u = nat \<bar>d\<bar>;
          body =
            (if u = 0 then ''0s''
             else if u < 1000 then nat_digits u @ ''ns''
             else if u < 1000000 then nat_digits (u div 1000) @ fraction 3 (u mod 1000) @ map char_of [194 :: nat, 181] @ ''s''
             else if u < 1000000000 then nat_digits (u div 1000000) @ fraction 6 (u mod 1000000) @ ''ms''
             else (let secs = u div 1000000000; mins = secs div 60; hrs = mins div 60
                   in (if hrs > 0 then nat_digits hrs @ ''h'' else [])
                      @ (if mins > 0 then nat_digits (mins mod 60) @ ''m'' else [])
                      @ nat_digits (secs mod 60) @ fraction 9 (u mod 1000000000) @ ''s''))
      in (if d < 0 then ''-'' @ body else body))"

section \<open>Wrapping a cell\<close>

text \<open>A word that is longer than the cell is cut; \<open>cur\<close> is the line that is being filled.\<close>

function cut_word ::
  "nat \<Rightarrow> string list \<Rightarrow> string \<Rightarrow> string list \<Rightarrow> string list \<times> string \<times> string list" where
  "cut_word w rs cur ls =
     (if w < length rs \<and> 0 < w
      then cut_word w (drop w rs) [] ((if cur \<noteq> [] then ls @ [cur] else ls) @ [concat (take w rs)])
      else (rs, cur, ls))"
  by pat_completeness auto
termination by (relation "measure (\<lambda>(w, rs, cur, ls). length rs)") auto

declare cut_word.simps [simp del]

fun wrap_words :: "nat \<Rightarrow> string list \<Rightarrow> string \<Rightarrow> string list \<Rightarrow> string \<times> string list" where
  "wrap_words w [] cur ls = (cur, ls)"
| "wrap_words w (word # ws) cur ls =
     (case cut_word w (runes word) cur ls of
        (rs, cur1, ls1) \<Rightarrow>
          (let word1 = concat rs in
           if cur1 = [] then wrap_words w ws word1 ls1
           else if length (runes cur1) + 1 + length (runes word1) \<le> w
           then wrap_words w ws (cur1 @ '' '' @ word1) ls1
           else wrap_words w ws word1 (ls1 @ [cur1])))"

definition wrapTextCell :: "string \<Rightarrow> int \<Rightarrow> string list" where
  "wrapTextCell text width =
     (if width \<le> 0 then [text]
      else (let normalized = trim_space text in
        if normalized = [] then [[]]
        else (let (cur, ls) = wrap_words (nat width) (string_fields normalized) [] [];
                  ls1 = (if cur \<noteq> [] then ls @ [cur] else ls)
              in if ls1 = [] then [[]] else ls1)))"

section \<open>The configuration\<close>

definition config_head :: "config \<Rightarrow> string" where
  "config_head c =
     nl @ ''=== Configuration ==='' @ nl @ ''HTTP Listen: '' @ cf_listen c @ nl
     @ (if cf_udp_listen c \<noteq> [] then ''UDP Listen: '' @ cf_udp_listen c @ nl else ''UDP Listen: disabled'' @ nl)
     @ ''Debug Mode: '' @ show_bool (cf_debug c) @ nl
     @ ''X-Real-IP Header: '' @ show_bool (cf_x_real_ip c) @ nl
     @ ''Prometheus Metrics: '' @ show_bool (cf_prometheus_enabled c) @ nl
     @ ''Peer Age (minutes): '' @ fixed1 (cf_age c) @ nl
     @ ''Announce Interval: '' @ itoa (cf_announce_interval c) @ '' seconds'' @ nl
     @ (if cf_tracker_id c \<noteq> [] then ''Tracker ID: '' @ cf_tracker_id c @ nl else [])
     @ ''Statistics Interval: '' @ itoa (cf_stats_interval c) @ '' seconds'' @ nl"

text \<open>The lines on forwarders up to the throttle, then the rest; \<open>throttle\<close> is the wording.\<close>

definition config_forwarders :: "(string \<Rightarrow> string) \<Rightarrow> config \<Rightarrow> string" where
  "config_forwarders throttle c =
     ''Forwarders: '' @ itoa (int (length (cf_forwards c))) @ '' configured'' @ nl
     @ (if cf_forwards_file c \<noteq> [] then ''  Forwards File: '' @ cf_forwards_file c @ nl else [])
     @ ''  Forward Timeout: '' @ itoa (cf_forward_timeout c) @ '' seconds'' @ nl
     @ ''  Forwarder Workers: '' @ itoa (cf_forwarder_workers c) @ '' (max ''
         @ itoa (cf_max_forwarder_workers c) @ '')'' @ nl
     @ ''  Forwarder Queue Size: '' @ itoa (cf_forwarder_queue_size c) @ nl
     @ ''  Queue Scale Threshold: '' @ itoa (cf_queue_scale_threshold_pct c) @ ''%'' @ nl
     @ ''  Queue Rate Limit Threshold: '' @ itoa (cf_queue_rate_limit_threshold c) @ ''%'' @ nl
     @ ''  Queue Throttle Threshold: '' @ itoa (cf_queue_throttle_threshold c) @ ''% ('' @
         throttle (itoa (cf_queue_throttle_top_n c)) @ '' forwarders)'' @ nl
     @ ''  Rate Limit Initial: '' @ itoa (cf_rate_limit_initial_per_sec c) @ ''/sec (burst ''
         @ itoa (cf_rate_limit_initial_burst c) @ '')'' @ nl
     @ ''  Forwarder suspend: '' @ itoa (cf_forwarder_suspend_seconds c) @ '' seconds'' @ nl
     @ ''  Forwarder Fail Threshold: '' @ itoa (cf_forwarder_fail_threshold c) @ nl
     @ ''  Forwarder Retry Attempts: '' @ itoa (cf_forwarder_retry_attempts c) @ nl
     @ ''  Forwarder Retry Base (ms): '' @ itoa (cf_forwarder_retry_base_ms c) @ nl"

definition rule_line :: string where
  "rule_line = ''=================='' @ nl"

definition config_text :: "config \<Rightarrow> string" where
  "config_text c =
     config_head c
     @ (if cf_forwards c \<noteq> [] then config_forwarders (\<lambda>n. ''limit to '' @ n) c
        else ''Forwarders: none configured'' @ nl)
     @ rule_line"

definition forwarder_line :: "nat \<Rightarrow> forward \<Rightarrow> string" where
  "forwarder_line i f =
     ''    ['' @ itoa (int (i + 1)) @ ''] '' @ getName f
     @ (if f_uri f \<noteq> [] then '' -> '' @ f_uri f else [])
     @ (if f_ip f \<noteq> [] then '' (IP: '' @ f_ip f @ '')'' else [])
     @ (if f_host f \<noteq> [] then '' (Host: '' @ f_host f @ '')'' else []) @ nl"

text \<open>What \<open>PrintConfig\<close> prints.\<close>

definition PrintConfig :: "config \<Rightarrow> string" where
  "PrintConfig c =
     config_head c
     @ (if cf_forwards c \<noteq> [] then
          (let most = (if cf_max_forwarders_per_announce c \<le> 0 then 100 else cf_max_forwarders_per_announce c)
           in config_forwarders (\<lambda>n. ''top '' @ n) c
              @ ''  Max Forwarders Per Announce: '' @ itoa most @ '' (throttled: ''
                  @ itoa (cf_queue_throttle_top_n c) @ '')'' @ nl
              @ ''  Forwarder List:'' @ nl
              @ concat (map (\<lambda>(i, f). forwarder_line i f) (List.enumerate 0 (cf_forwards c))))
        else ''Forwarders: none configured'' @ nl)
     @ rule_line @ nl"

section \<open>The tables\<close>

definition row :: "string list \<Rightarrow> string" where
  "row cells = join_with '' '' cells @ nl"

definition counters_text :: "stats \<Rightarrow> string" where
  "counters_text s =
     ''Pending jobs: '' @ itoa (int (sx_pending s)) @ nl
     @ ''Tracked hashes: '' @ itoa (int (sx_tracked s)) @ nl
     @ ''Disabled forwarders: '' @ itoa (int (sx_disabled s)) @ nl
     @ ''Suspended forwarders: '' @ itoa (int (sx_suspended s)) @ nl
     @ ''Active forwarders: '' @ itoa (int (sx_active s)) @ nl
     @ ''Queue: depth '' @ itoa (int (sx_depth s)) @ '' / '' @ itoa (int (sx_capacity s))
         @ '' ('' @ itoa (sx_fill s) @ ''%)'' @ nl
     @ ''Workers: '' @ itoa (sx_workers s) @ '' active / '' @ itoa (sx_max_workers s) @ '' max'' @ nl
     @ ''Queue drops (full): '' @ itoa (int (sx_dropped s)) @ nl
     @ ''Rate limited: '' @ itoa (int (sx_limited s)) @ nl
     @ ''Throttled forwarders skipped: '' @ itoa (int (sx_throttled s)) @ nl"

definition name_width :: "string list \<Rightarrow> nat" where
  "name_width names = fold (\<lambda>n m. if length n > m then length n else m) names 20"

definition forwarder_row :: "nat \<Rightarrow> forwarder_stat \<Rightarrow> string" where
  "forwarder_row w f =
     (let protocol = (if fo_protocol f = [] then ''-'' else fo_protocol f) in
      if fo_has_stats f then
        row [pad_right 6 protocol, pad_right w (fo_name f),
             pad_left 12 (duration_string (duration_round (fo_avg f) millisecond)),
             pad_left 10 (itoa (fo_interval f)), pad_left 10 (itoa (fo_samples f)),
             pad_left 10 (itoa (fo_fails f)), pad_left 9 (itoa (fo_seconds f)) @ ''s'']
      else
        row [pad_right 6 protocol, pad_right w (fo_name f), pad_left 12 ''-'', pad_left 10 ''-'',
             pad_left 10 (itoa 0), pad_left 10 (itoa (fo_fails f)), pad_left 10 ''-''])"

definition forwarders_table :: "forwarder_stat list \<Rightarrow> string" where
  "forwarders_table fs =
     (if fs = [] then []
      else (let w = name_width (map fo_name fs) in
        nl @ ''Forwarders:'' @ nl
        @ row [pad_right 6 ''Proto'', pad_right w ''Tracker'', pad_left 12 ''AvgResp'', pad_left 10 ''Interval'',
               pad_left 10 ''AnnCount'', pad_left 10 ''FailCount'', pad_left 10 ''LastAnn'']
        @ replicate (6 + w + 12 + 10 + 10 + 10 + 10 + 6) (CHR ''-'') @ nl
        @ concat (map (forwarder_row w) fs)))"

text \<open>The lines of a wrapped reason: the first behind the cells, the others behind empty ones.\<close>

definition reason_rows :: "string list \<Rightarrow> nat list \<Rightarrow> string \<Rightarrow> string" where
  "reason_rows cells widths reason =
     concat (map (\<lambda>(i, line). row ((if i = 0 then cells else map (\<lambda>w. pad_right w []) widths) @ [line]))
       (List.enumerate 0 (wrapTextCell reason 50)))"

definition disabled_table :: "(int \<Rightarrow> string) \<Rightarrow> disabled_info list \<Rightarrow> string" where
  "disabled_table rfc3339 ds =
     (if ds = [] then []
      else (let w = name_width (map di_name ds) in
        nl @ ''Disabled Forwarders:'' @ nl
        @ row [pad_right w ''Name'', pad_right 10 ''Failures'', pad_right 20 ''DisabledAt'', ''Reason'']
        @ replicate (w + 10 + 20 + 50 + 5) (CHR ''-'') @ nl
        @ concat (map (\<lambda>d. reason_rows [pad_right w (di_name d), pad_right 10 (itoa (di_failures d)),
              pad_right 20 (rfc3339 (di_at d))] [w, 10, 20] (di_reason d)) ds)))"

definition suspended_table :: "suspended_info list \<Rightarrow> string" where
  "suspended_table ds =
     nl @ ''Suspended Forwarders:'' @ nl
     @ (if ds = [] then ''(none)'' @ nl
        else (let w = name_width (map si_name ds) in
          row [pad_right w ''Name'', pad_right 12 ''Remaining(s)'', ''Reason'']
          @ replicate (w + 12 + 50 + 3) (CHR ''-'') @ nl
          @ concat (map (\<lambda>d. reason_rows [pad_right w (si_name d), pad_right 12 (itoa (si_remaining d))]
                [w, 12] (si_reason d)) ds)))"

definition hashes_table :: "(string, hash_peer_stat) gomap \<Rightarrow> string" where
  "hashes_table m =
     (if m = [] then []
      else nl @ ''Tracked Hashes:'' @ nl
        @ row [pad_right 40 ''Hash'', pad_left 10 ''Complete'', pad_left 12 ''Incomplete'',
               pad_left 15 ''LocalUnique'', pad_left 18 ''ForwarderUnique'']
        @ replicate 95 (CHR ''-'') @ nl
        @ concat (map (\<lambda>(h, s). row [pad_right 40 h, pad_left 10 (itoa (hp_complete s)),
              pad_left 12 (itoa (hp_incomplete s)), pad_left 15 (itoa (int (hp_local s))),
              pad_left 18 (itoa (int (hp_forwarder s)))]) (sort_key fst m)))"

definition clients_table :: "client_stats option \<Rightarrow> string" where
  "clients_table c =
     (case c of
        None \<Rightarrow> []
      | Some cl \<Rightarrow>
          (if cl_active cl = 0 then nl @ ''Active clients: 0'' @ nl
           else nl @ ''Active clients: '' @ itoa (int (cl_active cl)) @ nl
             @ row [pad_right 50 ''Key'', pad_right 18 ''AnnouncedHashes'', pad_right 25 ''SecondsSinceLastReq'']
             @ replicate 93 (CHR ''-'') @ nl
             @ concat (map (\<lambda>i. row [pad_right 50 (ci_key i), pad_right 18 (itoa (int (ci_hashes i))),
                   pad_right 25 (itoa (ci_seconds i))]) (cl_clients cl))))"

definition FormatText :: "(int \<Rightarrow> string) \<Rightarrow> stats \<Rightarrow> string" where
  "FormatText rfc3339 s =
     nl @ ''=== Statistics ==='' @ nl @ config_text (sx_config s) @ counters_text s
     @ forwarders_table (sx_forwarders s) @ disabled_table rfc3339 (sx_disabled_details s)
     @ suspended_table (sx_suspended_details s) @ hashes_table (sx_hashes s)
     @ clients_table (sx_clients s) @ rule_line @ nl"

definition FormatSimpleText :: "simple_stats \<Rightarrow> string" where
  "FormatSimpleText s =
     nl
     @ row [pad_right 25 ''Pending Jobs:'', pad_left 10 (itoa (int (ss_pending s)))]
     @ row [pad_right 25 ''Tracked Hashes:'', pad_left 10 (itoa (int (ss_tracked s)))]
     @ row [pad_right 25 ''Disabled Forwarders:'', pad_left 10 (itoa (int (ss_disabled s)))]
     @ row [pad_right 25 ''Suspended Forwarders:'', pad_left 10 (itoa (int (ss_suspended s)))]
     @ row [pad_right 25 ''Active Forwarders:'', pad_left 10 (itoa (int (ss_active s)))]
     @ row [pad_right 25 ''Workers:'', pad_left 10 (itoa (ss_workers s))]
     @ row [pad_right 25 ''Active Clients:'', pad_left 10 (itoa (int (ss_clients s)))]
     @ nl"

text \<open>The counters that \<open>printStats\<close> logs, one record each.\<close>

definition printStats_records :: "simple_stats \<Rightarrow> (string \<times> int) list" where
  "printStats_records s =
     [(''Pending jobs'', int (ss_pending s)), (''Tracked hashes'', int (ss_tracked s)),
      (''Disabled forwarders'', int (ss_disabled s)), (''Suspended forwarders'', int (ss_suspended s)),
      (''Active forwarders'', int (ss_active s)), (''Active workers'', ss_workers s),
      (''Active clients'', int (ss_clients s))]"

section \<open>JSON\<close>

datatype jval = JBool bool | JInt int | JFloat rat | JText string | JList "jval list" | JObj "(string \<times> jval) list"

text \<open>A field with \<open>omitempty\<close> is left out when it is empty.\<close>

definition omit_empty :: "string \<Rightarrow> bool \<Rightarrow> jval \<Rightarrow> (string \<times> jval) list" where
  "omit_empty name absent v = (if absent then [] else [(name, v)])"

definition config_json :: "config \<Rightarrow> jval" where
  "config_json c = JObj
     ([(''announce_interval'', JInt (cf_announce_interval c))]
      @ omit_empty ''tracker_id'' (cf_tracker_id c = []) (JText (cf_tracker_id c))
      @ [(''http_listen'', JText (cf_listen c)), (''udp_listen'', JText (cf_udp_listen c)),
         (''debug'', JBool (cf_debug c)), (''age'', JFloat (cf_age c)), (''x_real_ip'', JBool (cf_x_real_ip c))]
      @ omit_empty ''forwards_file'' (cf_forwards_file c = []) (JText (cf_forwards_file c))
      @ [(''forward_timeout'', JInt (cf_forward_timeout c)),
         (''forwarder_workers'', JInt (cf_forwarder_workers c)),
         (''forwarder_queue_size'', JInt (cf_forwarder_queue_size c)),
         (''max_forwarder_workers'', JInt (cf_max_forwarder_workers c)),
         (''queue_scale_threshold_pct'', JInt (cf_queue_scale_threshold_pct c)),
         (''queue_rate_limit_threshold'', JInt (cf_queue_rate_limit_threshold c)),
         (''queue_throttle_threshold'', JInt (cf_queue_throttle_threshold c)),
         (''queue_throttle_top_n'', JInt (cf_queue_throttle_top_n c)),
         (''rate_limit_initial_per_sec'', JInt (cf_rate_limit_initial_per_sec c)),
         (''rate_limit_initial_burst'', JInt (cf_rate_limit_initial_burst c)),
         (''forwarder_suspend_seconds'', JInt (cf_forwarder_suspend_seconds c)),
         (''forwarder_fail_threshold'', JInt (cf_forwarder_fail_threshold c)),
         (''forwarder_retry_attempts'', JInt (cf_forwarder_retry_attempts c)),
         (''forwarder_retry_base_ms'', JInt (cf_forwarder_retry_base_ms c)),
         (''max_forwarders_per_announce'', JInt (cf_max_forwarders_per_announce c)),
         (''stats_interval'', JInt (cf_stats_interval c)),
         (''prometheus_enabled'', JBool (cf_prometheus_enabled c)),
         (''forwarders_count'', JInt (int (length (cf_forwards c))))])"

definition forwarder_json :: "forwarder_stat \<Rightarrow> jval" where
  "forwarder_json f = JObj
     ([(''name'', JText (fo_name f))] @ omit_empty ''protocol'' (fo_protocol f = []) (JText (fo_protocol f))
      @ [(''avg_response_time_ms'', JInt (sgn (fo_avg f) * (\<bar>fo_avg f\<bar> div millisecond))),
         (''last_interval_seconds'', JInt (fo_interval f)), (''sample_count'', JInt (fo_samples f)),
         (''fail_count'', JInt (fo_fails f)), (''seconds_since_last_announce'', JInt (fo_seconds f)),
         (''has_stats'', JBool (fo_has_stats f))])"

definition disabled_json :: "disabled_info \<Rightarrow> jval" where
  "disabled_json d = JObj
     [(''name'', JText (di_name d)), (''reason'', JText (di_reason d)), (''failure_count'', JInt (di_failures d)),
      (''disabled_at_unix'', JInt (di_at d)), (''seconds_since_disabled'', JInt (di_seconds d))]"

definition suspended_json :: "suspended_info \<Rightarrow> jval" where
  "suspended_json d = JObj
     [(''name'', JText (si_name d)), (''reason'', JText (si_reason d)), (''suspended_at_unix'', JInt (si_at d)),
      (''suspended_until_unix'', JInt (si_until d)), (''seconds_remaining'', JInt (si_remaining d))]"

definition hash_json :: "hash_peer_stat \<Rightarrow> jval" where
  "hash_json s = JObj
     [(''local_unique'', JInt (int (hp_local s))), (''forwarder_unique'', JInt (int (hp_forwarder s))),
      (''complete'', JInt (hp_complete s)), (''incomplete'', JInt (hp_incomplete s))]"

definition clients_json :: "client_stats \<Rightarrow> jval" where
  "clients_json c = JObj
     ([(''active_clients'', JInt (int (cl_active c)))]
      @ omit_empty ''clients'' (cl_clients c = []) (JList (map (\<lambda>i. JObj
          [(''key'', JText (ci_key i)), (''announced_hashes'', JInt (int (ci_hashes i))),
           (''seconds_since_last_request'', JInt (ci_seconds i))]) (cl_clients c))))"

text \<open>The keys of a map are encoded in order.\<close>

definition FormatJSON :: "stats \<Rightarrow> jval" where
  "FormatJSON s = JObj
     ([(''config'', config_json (sx_config s)), (''pending_jobs'', JInt (int (sx_pending s))),
       (''tracked_hashes'', JInt (int (sx_tracked s))), (''disabled_forwarders'', JInt (int (sx_disabled s))),
       (''suspended_forwarders'', JInt (int (sx_suspended s))), (''active_forwarders'', JInt (int (sx_active s)))]
      @ omit_empty ''disabled_details'' (sx_disabled_details s = []) (JList (map disabled_json (sx_disabled_details s)))
      @ omit_empty ''suspended_details'' (sx_suspended_details s = []) (JList (map suspended_json (sx_suspended_details s)))
      @ omit_empty ''forwarders'' (sx_forwarders s = []) (JList (map forwarder_json (sx_forwarders s)))
      @ omit_empty ''hash_peer_stats'' (sx_hashes s = [])
          (JObj (map (\<lambda>(h, x). (h, hash_json x)) (sort_key fst (sx_hashes s))))
      @ (case sx_clients s of None \<Rightarrow> [] | Some c \<Rightarrow> [(''client_stats'', clients_json c)])
      @ [(''queue_depth'', JInt (int (sx_depth s))), (''queue_capacity'', JInt (int (sx_capacity s))),
         (''queue_fill_pct'', JInt (sx_fill s)), (''active_workers'', JInt (sx_workers s)),
         (''max_workers'', JInt (sx_max_workers s)), (''dropped_full'', JInt (int (sx_dropped s))),
         (''rate_limited'', JInt (int (sx_limited s))), (''throttled_forwarders'', JInt (int (sx_throttled s)))])"

section \<open>The handler\<close>

datatype stats_body = StatsText string | StatsJson string

definition HTTPStatsHandler ::
  "(int \<Rightarrow> string) \<Rightarrow> (jval \<Rightarrow> 'e + string) \<Rightarrow> ('e \<Rightarrow> string) \<Rightarrow> gotime \<Rightarrow> string \<Rightarrow> tracker \<Rightarrow>
   tracker \<times> nat \<times> stats_body" where
  "HTTPStatsHandler rfc3339 marshal err_text now format tk =
     (case stats_provider_of now tk of
        (tk', pv) \<Rightarrow>
          (let s = CollectStats pv in
           if format = ''json'' then
             (case marshal (FormatJSON s) of
                Inl e \<Rightarrow> (tk', 500, StatsText (''Failed to encode JSON: '' @ err_text e @ nl))
              | Inr b \<Rightarrow> (tk', 200, StatsJson b))
           else (tk', 200, StatsText (FormatText rfc3339 s))))"

section \<open>Log records\<close>

text \<open>A service logs to the logger it is given, if there is one, or to a text logger of its own.\<close>

definition NewLogging :: "(bool \<Rightarrow> 'l) \<Rightarrow> bool \<Rightarrow> 'l option list \<Rightarrow> 'l" where
  "NewLogging text_logger debug loggers =
     (case loggers of Some l # _ \<Rightarrow> l | _ \<Rightarrow> text_logger debug)"

definition Log :: "(bool \<Rightarrow> 'l) \<Rightarrow> 'l option \<Rightarrow> 'l" where
  "Log text_logger logging = (case logging of None \<Rightarrow> NewLogging text_logger False [] | Some l \<Rightarrow> l)"

definition singleLogLine :: "string \<Rightarrow> string" where
  "singleLogLine text =
     (if list_ex (\<lambda>c. byte_val c = 13 \<or> byte_val c = 10 \<or> byte_val c = 9) text
      then join_with '' '' (string_fields text) else trim_space text)"

definition trim_nl :: "string \<Rightarrow> string" where
  "trim_nl s = (if s \<noteq> [] \<and> byte_val (last s) = 10 then butlast s else s)"

text \<open>The attributes of a record as \<open>NewTextLogger\<close> rewrites them: the built-in ones are dropped at the top
  level, and texts and the texts of errors are put on one line.\<close>

datatype attr_value = AttrText string | AttrError string | AttrOther string

definition replaceAttr :: "string list \<Rightarrow> string \<times> attr_value \<Rightarrow> (string \<times> attr_value) option" where
  "replaceAttr groups = (\<lambda>(key, v).
     (if groups = [] \<and> (key = ''time'' \<or> key = ''level'' \<or> key = ''msg'') then None
      else Some (key, (case v of
             AttrText t \<Rightarrow> AttrText (singleLogLine t)
           | AttrError t \<Rightarrow> AttrText (singleLogLine t)
           | AttrOther t \<Rightarrow> AttrOther t))))"

text \<open>\<open>Handle\<close>: the attributes' encoding may fail; otherwise one line is written.\<close>

definition console_Handle :: "string \<Rightarrow> string \<Rightarrow> 'e + string \<Rightarrow> 'e + string" where
  "console_Handle level message encoded =
     (case encoded of
        Inl e \<Rightarrow> Inl e
      | Inr out \<Rightarrow>
          (let fs = trim_nl out
           in Inr (level @ '' '' @ singleLogLine message @ (if fs \<noteq> [] then '' '' @ fs else []) @ nl)))"

end
