(* ===== verification/StatsTheorems.thy ===== *)
theory StatsTheorems
  imports StatsText System Examples
begin

text \<open>
  What the statistics promise: wrapped cells fit their column and lose nothing, a log record is one
  line, both providers agree, and looking at the statistics changes nothing that the tracker acts on.
\<close>

section \<open>Lines of a cell\<close>

text \<open>A string that is valid UTF-8 is what its runes are put together to.\<close>

definition utf8 :: "string \<Rightarrow> bool" where
  "utf8 s \<longleftrightarrow> concat (runes s) = s"

definition cell_line :: "nat \<Rightarrow> string \<Rightarrow> bool" where
  "cell_line w l \<longleftrightarrow> utf8 l \<and> length (runes l) \<le> w \<and> (\<forall>c \<in> set l. byte_val c \<notin> {9, 10, 11, 12, 13})"

abbreviation no_blanks :: "string \<Rightarrow> string" where
  "no_blanks s \<equiv> filter (\<lambda>c. c \<noteq> CHR '' '') s"

lemma utf8_concat [simp]: "\<forall>r \<in> set rs. valid_rune r \<Longrightarrow> utf8 (concat rs)"
  by (simp add: utf8_def runes_concat)

lemma utf8_append: "utf8 a \<Longrightarrow> runes (a @ b) = runes a @ runes b"
  using runes_append [of "runes a" b] valid_runes [of _ a] by (simp add: utf8_def)

lemma utf8_appendI: "utf8 a \<Longrightarrow> utf8 b \<Longrightarrow> utf8 (a @ b)"
  by (simp add: utf8_def utf8_append)

lemma runes_blank: "runes '' '' = ['' '']" by code_simp
lemma runes_empty [simp]: "runes [] = []" by simp

lemma utf8_blank: "utf8 '' ''" by (simp add: utf8_def runes_blank)

text \<open>Joining a word to a line with a blank between them.\<close>

lemma cell_line_join:
  assumes "cell_line w a" "cell_line w b" "length (runes a) + 1 + length (runes b) \<le> w"
  shows "cell_line w (a @ '' '' @ b)"
proof -
  have u: "utf8 a" "utf8 b" "utf8 ('' '' @ b)"
    using assms(1,2) utf8_appendI [OF utf8_blank] by (auto simp: cell_line_def)
  have "runes (a @ '' '' @ b) = runes a @ ['' ''] @ runes b"
    using utf8_append [OF u(1), of "'' '' @ b"] utf8_append [OF utf8_blank, of b] by (simp add: runes_blank)
  moreover have "byte_val (CHR '' '') = 32" by simp
  ultimately show ?thesis
    using assms utf8_appendI [OF u(1,3)] by (auto simp: cell_line_def)
qed

lemma cell_line_empty [simp]: "cell_line w []"
  by (simp add: cell_line_def utf8_def)

text \<open>The runes of a field are valid and free of white-space bytes.\<close>

definition word_runes :: "string list \<Rightarrow> bool" where
  "word_runes rs \<longleftrightarrow> (\<forall>r \<in> set rs. valid_rune r \<and> (\<forall>c \<in> set r. byte_val c \<notin> {9, 10, 11, 12, 13, 32}))"

lemma word_runes_split: "word_runes rs \<Longrightarrow> word_runes (take n rs) \<and> word_runes (drop n rs)"
  by (auto simp: word_runes_def dest: in_set_takeD in_set_dropD)

lemma word_line: "word_runes rs \<Longrightarrow> length rs \<le> w \<Longrightarrow> cell_line w (concat rs)"
  by (auto simp: word_runes_def cell_line_def runes_concat)

lemma word_no_blanks: "word_runes rs \<Longrightarrow> no_blanks (concat rs) = concat rs"
proof -
  assume "word_runes rs"
  then have "byte_val c \<noteq> 32" if "c \<in> set (concat rs)" for c using that by (auto simp: word_runes_def)
  moreover have "byte_val (CHR '' '') = 32" by simp
  ultimately have "\<forall>c \<in> set (concat rs). c \<noteq> CHR '' ''" by metis
  then show ?thesis by (simp only: filter_id_conv)
qed

lemma cut_word_lines:
  assumes "0 < w" "word_runes rs" "cell_line w cur" "\<forall>l \<in> set ls. cell_line w l"
    and "cut_word w rs cur ls = (rs', cur', ls')"
  shows "word_runes rs' \<and> length rs' \<le> w \<and> cell_line w cur' \<and> (\<forall>l \<in> set ls'. cell_line w l)
    \<and> concat ls' @ cur' @ concat rs' = concat ls @ cur @ concat rs"
  using assms
proof (induction w rs cur ls rule: cut_word.induct)
  case (1 w rs cur ls)
  show ?case
  proof (cases "w < length rs")
    case True
    define ls1 where "ls1 = (if cur \<noteq> [] then ls @ [cur] else ls) @ [concat (take w rs)]"
    have "cell_line w (concat (take w rs))"
      using word_line [of "take w rs" w] word_runes_split [OF "1.prems"(2)] by simp
    then have l: "\<forall>l \<in> set ls1. cell_line w l" using "1.prems"(3,4) by (simp add: ls1_def)
    have c: "cut_word w (drop w rs) [] ls1 = (rs', cur', ls')"
      using "1.prems"(1,5) True unfolding ls1_def by (subst (asm) cut_word.simps) simp
    have e: "concat ls1 @ concat (drop w rs) = concat ls @ cur @ concat rs"
    proof -
      have "concat rs = concat (take w rs) @ concat (drop w rs)"
        by (metis append_take_drop_id concat_append)
      then show ?thesis by (simp add: ls1_def)
    qed
    have cond: "w < length rs \<and> 0 < w" using True "1.prems"(1) by simp
    have d: "word_runes (drop w rs)" using word_runes_split [OF "1.prems"(2), of w] by simp
    from "1.IH" [OF cond, folded ls1_def, OF "1.prems"(1) d cell_line_empty l c] e show ?thesis by simp
  next
    case False
    have "(rs, cur, ls) = (rs', cur', ls')" using "1.prems"(5) False by (subst (asm) cut_word.simps) simp
    with "1.prems"(1-4) False show ?thesis by simp
  qed
qed

lemma wrap_words_lines:
  assumes "0 < w" "\<forall>x \<in> set ws. word_runes (runes x)" "cell_line w cur" "\<forall>l \<in> set ls. cell_line w l"
    and "wrap_words w ws cur ls = (cur', ls')"
  shows "cell_line w cur' \<and> (\<forall>l \<in> set ls'. cell_line w l)
    \<and> no_blanks (concat ls' @ cur') = no_blanks (concat ls @ cur) @ concat (map (\<lambda>x. concat (runes x)) ws)"
  using assms
proof (induction w ws cur ls rule: wrap_words.induct)
  case (2 w word ws cur ls)
  obtain rs cur1 ls1 where c: "cut_word w (runes word) cur ls = (rs, cur1, ls1)"
    by (cases "cut_word w (runes word) cur ls") auto
  have wr: "word_runes (runes word)" using "2.prems"(2) by simp
  from cut_word_lines [OF "2.prems"(1) wr "2.prems"(3,4) c] have
    p: "word_runes rs" "length rs \<le> w" "cell_line w cur1" "\<forall>l \<in> set ls1. cell_line w l"
    and eq: "concat ls1 @ cur1 @ concat rs = concat ls @ cur @ concat (runes word)" by auto
  have line: "cell_line w (concat rs)" using word_line [OF p(1,2)] .
  have nb: "no_blanks (concat ls1) @ no_blanks cur1 @ concat rs = no_blanks (concat ls @ cur) @ concat (runes word)"
    using arg_cong [OF eq, of no_blanks] word_no_blanks [OF p(1)] word_no_blanks [OF wr] by simp
  have rest: "\<forall>x \<in> set ws. word_runes (runes x)" using "2.prems"(2) by simp
  consider (empty) "cur1 = []" | (fits) "cur1 \<noteq> []" "length (runes cur1) + 1 + length (runes (concat rs)) \<le> w"
    | (full) "cur1 \<noteq> []" "\<not> length (runes cur1) + 1 + length (runes (concat rs)) \<le> w" by blast
  then show ?case
  proof cases
    case empty
    have "wrap_words w ws (concat rs) ls1 = (cur', ls')" using "2.prems"(5) c empty by simp
    from "2.IH"(1) [OF c [symmetric] refl refl empty "2.prems"(1) rest line p(4) this] nb empty
    show ?thesis by (simp add: word_no_blanks [OF p(1)])
  next
    case fits
    have "wrap_words w ws (cur1 @ '' '' @ concat rs) ls1 = (cur', ls')" using "2.prems"(5) c fits by simp
    from "2.IH"(2) [OF c [symmetric] refl refl fits "2.prems"(1) rest cell_line_join [OF p(3) line fits(2)] p(4) this] nb
    show ?thesis by (simp add: word_no_blanks [OF p(1)])
  next
    case full
    have "wrap_words w ws (concat rs) (ls1 @ [cur1]) = (cur', ls')" using "2.prems"(5) c full by simp
    from "2.IH"(3) [OF c [symmetric] refl refl full "2.prems"(1) rest line _ this] p nb
    show ?thesis by (simp add: word_no_blanks [OF p(1)])
  qed
qed simp

lemma field_words:
  assumes "x \<in> set (string_fields s)" shows "word_runes (runes x)"
proof -
  have "byte_val c \<notin> {9, 10, 11, 12, 13, 32}" if "r \<in> set (runes x)" "c \<in> set r" for r c
  proof -
    obtain r0 where r0: "r0 \<in> set (raw_runes x)" "r = fix_rune r0" using \<open>r \<in> set (runes x)\<close> by (auto simp: runes_def)
    show ?thesis
    proof (cases "rune_width r0 = 0")
      case True
      with r0 have "r = replacement_rune" by (simp add: fix_rune_def)
      moreover have "\<forall>c \<in> set replacement_rune. byte_val c \<notin> {9, 10, 11, 12, 13, 32}" by code_simp
      ultimately show ?thesis using \<open>c \<in> set r\<close> by blast
    next
      case False
      have "r = r0" using False r0 by (simp add: fix_rune_def)
      then have "c \<in> set (concat (raw_runes x))" using r0(1) \<open>c \<in> set r\<close> by (auto simp del: concat_raw_runes)
      then have "\<not> space_rune [c]" using fields_no_space [OF assms] by simp
      then show ?thesis by (auto simp: space_rune_def)
    qed
  qed
  then show ?thesis by (auto simp: word_runes_def valid_runes)
qed

text \<open>A cell of a table is broken into lines that fit: for a positive width there is at least one
  line, every line is valid UTF-8 with at most that many runes and without line breaks or tabs, and
  the lines together hold exactly the text's words in their order; nothing is lost when an overlong
  word is cut.\<close>

theorem wrapped_cell:
  assumes "0 < width"
  shows "wrapTextCell text width \<noteq> []
    \<and> (\<forall>l \<in> set (wrapTextCell text width).
         utf8 l \<and> int (length (runes l)) \<le> width \<and> (\<forall>c \<in> set l. byte_val c \<notin> {9, 10, 11, 12, 13}))
    \<and> filter (\<lambda>c. c \<noteq> CHR '' '') (concat (wrapTextCell text width))
        = concat (map (\<lambda>x. concat (runes x)) (string_fields (trim_space text)))"
proof (cases "trim_space text = []")
  case True
  with assms show ?thesis by (simp add: wrapTextCell_def string_fields_def utf8_def)
next
  case False
  obtain cur ls where w: "wrap_words (nat width) (string_fields (trim_space text)) [] [] = (cur, ls)"
    by (cases "wrap_words (nat width) (string_fields (trim_space text)) [] []")
  have fw: "\<forall>x \<in> set (string_fields (trim_space text)). word_runes (runes x)" by (simp add: field_words)
  have "0 < nat width" using assms by simp
  from wrap_words_lines [OF this fw cell_line_empty _ w] have
    l: "cell_line (nat width) cur" "\<forall>l \<in> set ls. cell_line (nat width) l"
    and nb: "no_blanks (concat ls @ cur) = concat (map (\<lambda>x. concat (runes x)) (string_fields (trim_space text)))"
    by auto
  have e: "wrapTextCell text width = (let ls1 = (if cur \<noteq> [] then ls @ [cur] else ls) in if ls1 = [] then [[]] else ls1)"
    using assms False w by (simp add: wrapTextCell_def Let_def)
  have "cell_line (nat width) x \<Longrightarrow> utf8 x \<and> int (length (runes x)) \<le> width
      \<and> (\<forall>c \<in> set x. byte_val c \<notin> {9, 10, 11, 12, 13})" for x
    using assms by (auto simp: cell_line_def)
  then show ?thesis using l nb assms unfolding e by (auto simp: Let_def)
qed

lemma wrapped_cell_witness:
  "wrapTextCell ''tracker not registered'' 10 = [''tracker'', ''not'', ''registered'']
    \<and> wrapTextCell ''abcdefgh  xy'' 5 = [''abcde'', ''fgh'', ''xy'']
    \<and> (\<forall>l \<in> set (wrapTextCell ''tracker not registered'' 10). int (length (runes l)) \<le> 10)"
proof -
  have "\<forall>l \<in> set (wrapTextCell ''tracker not registered'' 10). int (length (runes l)) \<le> 10"
    using wrapped_cell [of 10 "''tracker not registered''"] by simp
  moreover have "wrapTextCell ''tracker not registered'' 10 = [''tracker'', ''not'', ''registered'']" by code_simp
  moreover have "wrapTextCell ''abcdefgh  xy'' 5 = [''abcde'', ''fgh'', ''xy'']" by code_simp
  ultimately show ?thesis by blast
qed

section \<open>Lines of the log\<close>

lemma trim_left_set: "set (trim_left s) \<subseteq> set s"
  by (rule set_mono_suffix [OF trim_left_suffix])

lemma trim_right_set: "set (trim_right s) \<subseteq> set s"
proof (induction s rule: trim_right.induct)
  case (1 s)
  then show ?case
    by (cases "space_at_end s = 0") (auto simp: trim_right.simps [of s] dest: in_set_takeD)
qed

lemma trim_space_set: "set (trim_space s) \<subseteq> set s"
  using trim_right_set trim_left_set unfolding trim_space_def by blast

lemma join_with_set: "c \<in> set (join_with sep xs) \<Longrightarrow> c \<in> set sep \<or> (\<exists>x \<in> set xs. c \<in> set x)"
  by (induction sep xs rule: join_with.induct) auto

lemma singleLogLine_clean: "c \<in> set (singleLogLine text) \<Longrightarrow> byte_val c \<notin> {9, 10, 13}"
proof (cases "list_ex (\<lambda>c. byte_val c = 13 \<or> byte_val c = 10 \<or> byte_val c = 9) text")
  case True
  assume "c \<in> set (singleLogLine text)"
  with True consider "c = CHR '' ''" | x where "x \<in> set (string_fields text)" "c \<in> set x"
    by (auto simp: singleLogLine_def dest!: join_with_set)
  then show ?thesis
  proof cases
    case 2
    from fields_no_space [OF this] show ?thesis by (auto simp: space_rune_def)
  qed simp
next
  case False
  assume "c \<in> set (singleLogLine text)"
  with False trim_space_set show ?thesis by (auto simp: singleLogLine_def list_ex_iff)
qed

text \<open>A log record is exactly one line, whatever the message is: the message's line breaks and tabs
  become blanks, so what is written ends with a line feed and contains no other control character that
  would break it, provided that the level's name and the encoder's attributes have none.\<close>

theorem one_log_line:
  assumes "console_Handle level message (Inr out :: 'e + string) = Inr line"
    and "\<forall>c \<in> set level. byte_val c \<notin> {9, 10, 13}"
    and "\<forall>c \<in> set (trim_nl out). byte_val c \<notin> {9, 10, 13}"
  shows "\<exists>text. line = text @ nl \<and> prefix (level @ '' '' @ singleLogLine message) text
    \<and> (\<forall>c \<in> set text. byte_val c \<notin> {9, 10, 13})"
proof -
  let ?text = "level @ '' '' @ singleLogLine message @ (if trim_nl out \<noteq> [] then '' '' @ trim_nl out else [])"
  have "line = ?text @ nl" using assms(1) by (simp add: console_Handle_def Let_def)
  moreover have "prefix (level @ '' '' @ singleLogLine message) ?text" by (simp add: prefix_def)
  moreover have "byte_val (CHR '' '') \<notin> {9, 10, 13}" by simp
  then have "\<forall>c \<in> set ?text. byte_val c \<notin> {9, 10, 13}"
    using assms(2,3) singleLogLine_clean [of _ message] by auto
  ultimately show ?thesis by blast
qed

definition example_out :: string where
  "example_out = ''error=timeout'' @ nl"

lemma one_log_line_witness:
  "\<exists>text. (case console_Handle ''WARN'' (''first'' @ nl @ ''second'') (Inr example_out :: string + string) of
       Inl e \<Rightarrow> [] | Inr l \<Rightarrow> l) = text @ nl \<and> (\<forall>c \<in> set text. byte_val c \<notin> {9, 10, 13})"
proof -
  obtain line where l: "console_Handle ''WARN'' (''first'' @ nl @ ''second'') (Inr example_out :: string + string) = Inr line"
    by (simp add: console_Handle_def Let_def)
  have a: "\<forall>c \<in> set ''WARN''. byte_val c \<notin> {9, 10, 13}" by simp
  have b: "\<forall>c \<in> set (trim_nl example_out). byte_val c \<notin> {9, 10, 13}" by code_simp
  from one_log_line [OF l a b] show ?thesis unfolding l sum.case by blast
qed

section \<open>Both providers\<close>

lemma local_requests_in:
  assumes "gm_wf (st_requests st)" "(h, m) \<in> set (st_requests st)"
  shows "local_requests st h = map snd m"
proof -
  have "gm_get (st_requests st) h = Some m" using assms(2) unfolding gm_in_set [OF assms(1)] .
  then show ?thesis by (simp add: local_requests_def st_inner_def gm_get_or_def)
qed

lemma hash_stats_without_cache:
  assumes "gm_wf (st_requests st)" "fs_entries fs = []"
  shows "GetHashPeerStats fs st = simple_hash_stats st"
proof -
  have h: "all_hashes fs st = map fst (st_requests st)"
    using assms by (simp add: all_hashes_def distinct_remdups_id)
  have c: "cached_peers fs h = []" for h
    using assms(2) by (simp add: cached_peers_def fs_inner_def gm_get_or_def)
  have "fold (\<lambda>h. gm_put (hex_string h) (hash_stat (local_requests st h) [])) (map fst l) m =
      fold (\<lambda>(h, reqs). gm_put (hex_string h) (hash_stat (map snd reqs) [])) l m"
    if "set l \<subseteq> set (st_requests st)" for l m
    using that by (induction l arbitrary: m) (auto simp: local_requests_in [OF assms(1)])
  from this [of "st_requests st" Nil] show ?thesis
    by (simp add: GetHashPeerStats_def simple_hash_stats_def h c split_def)
qed

lemma tracked_without_cache:
  assumes "gm_wf (st_requests st)" "fs_entries fs = []"
  shows "GetTrackedHashes fs st = simple_GetTrackedHashes st"
proof -
  have "distinct (map hex_string (map fst (st_requests st)))"
    using assms(1) by (subst distinct_map) (simp add: inj_on_def hex_string_inj del: map_map)
  then show ?thesis
    using assms(2) by (simp add: GetTrackedHashes_def simple_GetTrackedHashes_def distinct_remdups_id del: map_map)
qed

text \<open>Without cached upstream peers the statistics of a tracker with forwarders and those of one
  without show the same tracked torrents, the same counts for each and the same clients, although two
  pieces of code compute them.\<close>

theorem providers_agree:
  assumes "storage_wf st" "fs_entries fs = []"
    and "snd (forwarderStatsProvider now cfg fs st fm) = pv"
  shows "pv_hashes pv = pv_hashes (simpleStatsProvider now cfg st)
    \<and> pv_clients pv = pv_clients (simpleStatsProvider now cfg st)
    \<and> pv_tracked pv = pv_tracked (simpleStatsProvider now cfg st)"
proof -
  have wf: "gm_wf (st_requests st)" using assms(1) by (simp add: storage_wf_def requests_wf_def)
  show ?thesis
    unfolding assms(3) [symmetric] forwarderStatsProvider_def simpleStatsProvider_def
    by (simp add: simple_GetClientStats_eq hash_stats_without_cache [OF wf assms(2)]
        tracked_without_cache [OF wf assms(2)] split: prod.split)
qed

definition example_provider :: stats_provider where
  "example_provider = snd (forwarderStatsProvider example_now example_config NewForwarderStorage
     (tk_storage (sy_tracker example_state)) example_manager)"

lemma providers_agree_witness:
  "pv_tracked (simpleStatsProvider example_now example_config (tk_storage (sy_tracker example_state)))
    = pv_tracked example_provider"
proof -
  have "storage_wf (tk_storage (sy_tracker example_state))"
    using reachable_ok [OF example_reachable example_names] by (simp add: sys_ok_def tk_ok_def tk_wf_def)
  moreover have "fs_entries NewForwarderStorage = []" by (simp add: NewForwarderStorage_def)
  ultimately show ?thesis
    using providers_agree [of "tk_storage (sy_tracker example_state)" NewForwarderStorage]
    unfolding example_provider_def by metis
qed

section \<open>Looking changes nothing\<close>

text \<open>C39. Asking for the statistics changes nothing that the tracker acts on: the local peers, the cache
  and the configuration stay, and of the manager only suspensions that are over may go, so that every
  upstream is as suspended as before at any later time; without forwarders nothing at all changes. The
  answer is 200 unless the JSON encoder fails.\<close>

theorem stats_change_nothing:
  assumes "HTTPStatsHandler rfc3339 marshal err_text now format tk = (tk', code, body)"
    and "\<And>fm. tk_manager tk = Some fm \<Longrightarrow> gm_wf (fm_suspended fm)"
  shows "tk_storage tk' = tk_storage tk \<and> tk_config tk' = tk_config tk
    \<and> (tk_manager tk = None \<longrightarrow> tk' = tk)
    \<and> (\<forall>fm. tk_manager tk = Some fm \<longrightarrow>
         (\<exists>s. tk_manager tk' = Some (fm\<lparr>fm_suspended := s\<rparr>)
            \<and> (\<forall>n t. now \<le> t \<longrightarrow> suspended_at (fm\<lparr>fm_suspended := s\<rparr>) n t = suspended_at fm n t)))
    \<and> (code = 200 \<or> (code = 500 \<and> format = ''json'' \<and>
          (\<exists>e. marshal (FormatJSON (CollectStats (snd (stats_provider_of now tk)))) = Inl e)))"
proof -
  obtain pv where p: "stats_provider_of now tk = (tk', pv)"
    using assms(1) unfolding HTTPStatsHandler_def Let_def by (auto split: prod.splits if_splits sum.splits)
  have "code = 200 \<or> (code = 500 \<and> format = ''json'' \<and> (\<exists>e. marshal (FormatJSON (CollectStats pv)) = Inl e))"
    using assms(1) unfolding HTTPStatsHandler_def Let_def p by (auto split: if_splits sum.splits)
  moreover have "tk_storage tk' = tk_storage tk \<and> tk_config tk' = tk_config tk \<and> (tk_manager tk = None \<longrightarrow> tk' = tk)"
    using p by (auto simp: stats_provider_of_def Let_def split: option.splits prod.splits)
  moreover have "\<exists>s. tk_manager tk' = Some (fm\<lparr>fm_suspended := s\<rparr>)
      \<and> (\<forall>n t. now \<le> t \<longrightarrow> suspended_at (fm\<lparr>fm_suspended := s\<rparr>) n t = suspended_at fm n t)"
    if "tk_manager tk = Some fm" for fm
  proof (intro exI conjI allI impI)
    let ?s = "filter (\<lambda>(n, s). \<not> now > sf_until s) (fm_suspended fm)"
    show "tk_manager tk' = Some (fm\<lparr>fm_suspended := ?s\<rparr>)"
      using p that by (auto simp: stats_provider_of_def Let_def forwarderStatsProvider_def
          GetSuspendedForwarderDetails_def split: option.splits prod.splits)
    fix n t assume "now \<le> t"
    then show "suspended_at (fm\<lparr>fm_suspended := ?s\<rparr>) n t = suspended_at fm n t"
      using gm_get_filter [OF assms(2) [OF that], of "\<lambda>(n, s). \<not> now > sf_until s" n]
      by (auto simp: suspended_at_def split: option.splits)
  qed
  ultimately show ?thesis by (simp add: p)
qed

definition example_page :: "tracker \<times> nat \<times> stats_body" where
  "example_page = HTTPStatsHandler (\<lambda>_. []) (\<lambda>_. Inr [] :: string + string) id (example_now + hour) ''json''
     (sy_tracker example_state)"

lemma stats_change_nothing_witness:
  "tk_storage (fst example_page) = tk_storage (sy_tracker example_state) \<and> fst (snd example_page) = 200"
proof -
  obtain tk' code body where e: "example_page = (tk', code, body)" by (cases example_page)
  have "gm_wf (fm_suspended fm)" if "tk_manager (sy_tracker example_state) = Some fm" for fm
    using that example_has_manager by (simp add: example_manager_fields)
  from stats_change_nothing [OF e [unfolded example_page_def] this] show ?thesis by (simp add: e)
qed

end
