(* ===== verification/HttpServer.thy ===== *)
theory HttpServer
  imports StatsText System
begin

text \<open>
  \<open>cmd/retracker/server.go\<close>: the routes of the HTTP server, the order in which \<open>run\<close> opens and releases
  what it needs, and \<open>serve\<close>. The router is \<open>net/http\<close>'s \<open>ServeMux\<close>, modelled for patterns that are one
  literal path; it sees the escaped path of a request. Codecs, DNS, the network and the metrics library
  are parameters.
\<close>

section \<open>Paths\<close>

text \<open>\<open>path.Clean\<close> of a rooted path: empty and single-dot segments go, a double dot takes the segment
  before it away. The segments are collected in reverse.\<close>

fun clean_segments :: "string list \<Rightarrow> string list \<Rightarrow> string list" where
  "clean_segments [] kept = rev kept"
| "clean_segments (s # ss) kept =
     (if s = [] \<or> s = ''.'' then clean_segments ss kept
      else if s = ''..'' then clean_segments ss (tl kept)
      else clean_segments ss (s # kept))"

definition path_clean :: "string \<Rightarrow> string" where
  "path_clean p = CHR ''/'' # join_with ''/'' (clean_segments (split_on (CHR ''/'') p) [])"

text \<open>\<open>cleanPath\<close> of the router keeps a slash at the end.\<close>

definition cleanPath :: "string \<Rightarrow> string" where
  "cleanPath p =
     (if p = [] then ''/''
      else (let q = (if hd p = CHR ''/'' then p else CHR ''/'' # p); c = path_clean q
            in if last q = CHR ''/'' \<and> c \<noteq> ''/'' then c @ ''/'' else c))"

definition path_unescape :: "string \<Rightarrow> string" where
  "path_unescape s = (case unescape EncPath s of Some u \<Rightarrow> u | None \<Rightarrow> s)"

text \<open>The segments that are matched, unescaped one by one; a slash at the end is a segment.\<close>

definition match_segments :: "string \<Rightarrow> string list" where
  "match_segments p =
     (if p = [] then []
      else (let l = split_on (CHR ''/'') (tl p)
            in map path_unescape (butlast l) @ [if last l = [] then ''/'' else path_unescape (last l)]))"

lemma clean_segments_clean:
  "\<forall>s \<in> set kept. s \<noteq> [] \<and> s \<noteq> ''.'' \<and> s \<noteq> ''..'' \<Longrightarrow>
   \<forall>s \<in> set (clean_segments ss kept). s \<noteq> [] \<and> s \<noteq> ''.'' \<and> s \<noteq> ''..''"
proof (induction ss kept rule: clean_segments.induct)
  case (2 s ss kept)
  have tl: "\<forall>x \<in> set (tl kept). x \<noteq> [] \<and> x \<noteq> ''.'' \<and> x \<noteq> ''..''"
    using "2.prems" by (cases kept) simp_all
  consider (skip) "s = [] \<or> s = ''.''" | (up) "\<not> (s = [] \<or> s = ''.'')" "s = ''..''"
    | (keep) "\<not> (s = [] \<or> s = ''.'')" "s \<noteq> ''..''" by blast
  then show ?case
  proof cases
    case skip
    then have "clean_segments (s # ss) kept = clean_segments ss kept" by auto
    with "2.IH"(1) [OF skip "2.prems"] show ?thesis by (simp only:)
  next
    case up
    then have "clean_segments (s # ss) kept = clean_segments ss (tl kept)" by simp
    with "2.IH"(2) [OF up tl] show ?thesis by (simp only:)
  next
    case keep
    then have e: "clean_segments (s # ss) kept = clean_segments ss (s # kept)" by simp
    have "\<forall>x \<in> set (s # kept). x \<noteq> [] \<and> x \<noteq> ''.'' \<and> x \<noteq> ''..''" using keep "2.prems" by simp
    from "2.IH"(3) [OF keep this] show ?thesis unfolding e .
  qed
qed simp

lemma clean_segments_set: "set (clean_segments ss kept) \<subseteq> set ss \<union> set kept"
proof (induction ss kept rule: clean_segments.induct)
  case (2 s ss kept)
  have tl: "set (tl kept) \<subseteq> set kept" by (cases kept) auto
  consider (skip) "s = [] \<or> s = ''.''" | (up) "\<not> (s = [] \<or> s = ''.'')" "s = ''..''"
    | (keep) "\<not> (s = [] \<or> s = ''.'')" "s \<noteq> ''..''" by blast
  then show ?case
  proof cases
    case skip
    from "2.IH"(1) [OF skip] show ?thesis by (simp only: clean_segments.simps skip if_True) auto
  next
    case up
    from "2.IH"(2) [OF up] tl show ?thesis by (simp only: clean_segments.simps up if_True if_False) auto
  next
    case keep
    from "2.IH"(3) [OF keep] show ?thesis by (simp only: clean_segments.simps keep if_False) auto
  qed
qed simp

lemma clean_segments_id:
  "\<forall>s \<in> set ss. s \<noteq> [] \<and> s \<noteq> ''.'' \<and> s \<noteq> ''..'' \<Longrightarrow> clean_segments ss kept = rev kept @ ss"
  by (induction ss arbitrary: kept) auto

lemma clean_segments_app:
  "clean_segments (ss @ ts) kept = clean_segments ts (rev (clean_segments ss kept))"
  by (induction ss kept rule: clean_segments.induct) auto

lemma split_segments_join:
  "\<forall>s \<in> set ss. c \<notin> set s \<Longrightarrow> ss \<noteq> [] \<Longrightarrow> split_on c (join_with [c] ss) = ss"
proof (induction ss rule: induct_list012)
  case (3 x y ss)
  then show ?case using split_on_append [of c x "join_with [c] (y # ss)"] by simp
qed auto

text \<open>The clean segments of a path, without separators inside.\<close>

definition good_segments :: "string list \<Rightarrow> bool" where
  "good_segments ss \<longleftrightarrow> (\<forall>s \<in> set ss. s \<noteq> [] \<and> s \<noteq> ''.'' \<and> s \<noteq> ''..'' \<and> CHR ''/'' \<notin> set s)"

lemma good_clean: "good_segments (clean_segments (split_on (CHR ''/'') p) [])"
  using clean_segments_clean [of Nil "split_on (CHR ''/'') p"]
    clean_segments_set [of "split_on (CHR ''/'') p" Nil] split_on_no_sep [of "CHR ''/''" p]
  by (auto simp: good_segments_def)

lemma split_clean:
  assumes "good_segments ss"
  shows "split_on (CHR ''/'') (CHR ''/'' # join_with ''/'' ss) = [] # (if ss = [] then [[]] else ss)"
  using assms split_segments_join [of ss "CHR ''/''"] by (auto simp: good_segments_def)

lemma path_clean_good: "good_segments ss \<Longrightarrow> path_clean (CHR ''/'' # join_with ''/'' ss) = CHR ''/'' # join_with ''/'' ss"
  by (auto simp: path_clean_def split_clean good_segments_def clean_segments_id simp del: split_on.simps)

lemma split_on_end: "split_on c (s @ [c]) = split_on c s @ [[]]"
proof (induction s)
  case (Cons x s)
  then show ?case by (cases "split_on c s") auto
qed simp

lemma path_clean_slash: "path_clean (p @ ''/'') = path_clean p"
  by (simp add: path_clean_def split_on_end clean_segments_app)

lemma good_last: "good_segments ss \<Longrightarrow> ss \<noteq> [] \<Longrightarrow> last (join_with ''/'' ss) \<noteq> CHR ''/'' \<and> join_with ''/'' ss \<noteq> []"
proof (induction ss rule: induct_list012)
  case (2 x)
  then show ?case by (auto simp: good_segments_def dest: last_in_set)
next
  case (3 x y ss)
  then have "good_segments (y # ss)" by (simp add: good_segments_def)
  with 3 show ?case by simp
qed simp

text \<open>The two forms of a clean path.\<close>

lemma cleanPath_cases:
  obtains ss where "good_segments ss" "cleanPath p = CHR ''/'' # join_with ''/'' ss"
  | ss where "good_segments ss" "ss \<noteq> []" "cleanPath p = CHR ''/'' # join_with ''/'' ss @ ''/''"
proof (cases "p = []")
  case True
  show ?thesis by (rule that(1) [of Nil]) (simp_all add: True cleanPath_def good_segments_def)
next
  case False
  define q where "q = (if hd p = CHR ''/'' then p else CHR ''/'' # p)"
  define ss where "ss = clean_segments (split_on (CHR ''/'') q) []"
  have g: "good_segments ss" unfolding ss_def by (rule good_clean)
  have c: "path_clean q = CHR ''/'' # join_with ''/'' ss" by (simp add: path_clean_def ss_def)
  show ?thesis
  proof (cases "last q = CHR ''/'' \<and> path_clean q \<noteq> ''/''")
    case True
    then have "ss \<noteq> []" using c by auto
    with True False c show ?thesis
      by (intro that(2) [OF g]) (simp_all add: cleanPath_def q_def Let_def)
  next
    case no: False
    with False c show ?thesis
      by (intro that(1) [OF g]) (auto simp: cleanPath_def q_def Let_def)
  qed
qed

lemma cleanPath_idem: "cleanPath (cleanPath p) = cleanPath p"
proof (cases p rule: cleanPath_cases)
  case (1 ss)
  have c: "path_clean (cleanPath p) = cleanPath p" using path_clean_good [OF 1(1)] by (simp only: 1(2))
  show ?thesis
  proof (cases "ss = []")
    case False
    with good_last [OF 1(1)] show ?thesis
      using c unfolding 1(2) cleanPath_def [of "CHR ''/'' # join_with ''/'' ss"] by (simp add: Let_def)
  qed (use c in \<open>simp add: 1(2) cleanPath_def [of "''/''"] Let_def\<close>)
next
  case (2 ss)
  have "path_clean (cleanPath p) = CHR ''/'' # join_with ''/'' ss"
    using path_clean_slash [of "CHR ''/'' # join_with ''/'' ss"] path_clean_good [OF 2(1)] by (simp add: 2(3))
  with good_last [OF 2(1,2)] show ?thesis
    unfolding 2(3) cleanPath_def [of "CHR ''/'' # join_with ''/'' ss @ ''/''"] by (simp add: Let_def)
qed

section \<open>Routes\<close>

text \<open>\<open>net.SplitHostPort\<close> with both parts; its host is \<open>split_host\<close>.\<close>

definition split_host_port :: "string \<Rightarrow> (string \<times> string) option" where
  "split_host_port s =
     (case cut_last (CHR '':'') s of
        None \<Rightarrow> None
      | Some (host, port) \<Rightarrow> map_option (\<lambda>h. (h, port)) (split_host s))"

lemma split_host_port_host: "map_option fst (split_host_port s) = split_host s"
  by (auto simp: split_host_port_def split_host_def option.map_comp comp_def split: option.splits)

text \<open>What a handler or the router sees of a request; the body is what the JSON decoder makes of it.\<close>

record http_request =
  hq_method :: string
  hq_star :: bool
  hq_path :: string
  hq_query :: string
  hq_host :: string
  hq_remote :: string
  hq_real_ip :: string
  hq_agent :: string
  hq_body :: "string list json_next"
  hq_trailing :: "unit json_next"

datatype web_route =
    FaviconRoute | ScrapeRoute | RootRoute | AnnounceRoute | StatsRoute | AddForwarderRoute | MetricsRoute

text \<open>\<open>newMux\<close> registers the patterns; \<open>run\<close> adds the metrics when they are enabled.\<close>

definition newMux :: "bool \<Rightarrow> (string list \<times> web_route) list" where
  "newMux metrics =
     [([''favicon.ico''], FaviconRoute), ([''scrape''], ScrapeRoute), ([''/''], RootRoute),
      ([''announce''], AnnounceRoute), ([''stats''], StatsRoute), ([''add-forwarder''], AddForwarderRoute)]
     @ (if metrics then [([''metrics''], MetricsRoute)] else [])"

datatype mux_result = Matched web_route | MovedTo string | NoRoute | BadStar

text \<open>\<open>ServeMux\<close>: the cleaned path is matched, and a path that is not clean is redirected whether it matches
  or not. The paths of CONNECT requests are left alone.\<close>

definition find_route :: "(string list \<times> web_route) list \<Rightarrow> http_request \<Rightarrow> mux_result" where
  "find_route mux q =
     (if hq_star q then BadStar
      else (let path = (if hq_method q = ''CONNECT'' then hq_path q else cleanPath (hq_path q))
            in if path \<noteq> hq_path q then MovedTo path
               else case map_of mux (match_segments path) of Some r \<Rightarrow> Matched r | None \<Rightarrow> NoRoute))"

text \<open>The handler of the root path tells tracker clients, which use the tracker's port, from browsers.\<close>

datatype root_action = RootAnnounce | RootAlive | RootNotFound

definition root_handler :: "string \<Rightarrow> root_action" where
  "root_handler host =
     (let port = (case split_host_port host of None \<Rightarrow> ''80'' | Some (h, p) \<Rightarrow> p)
      in if port = ''6969'' then RootAnnounce else if port = ''80'' then RootAlive else RootNotFound)"

text \<open>\<open>HTTPScrapeHandler\<close>: a scrape without valid hashes is a bad request without a body.\<close>

definition HTTPScrapeHandler ::
  "((string, scrape_stats) gomap \<Rightarrow> 'e + string) \<Rightarrow> gotime \<Rightarrow> string \<Rightarrow> tracker \<Rightarrow> nat \<times> string" where
  "HTTPScrapeHandler encode now raw tk =
     (case getScrapeResponse now (tk_storage tk) (st_fwd (tk_storage tk))
             (gm_get_or [] (parse_query raw) ''info_hash'') of
        Inl e \<Rightarrow> (400, [])
      | Inr files \<Rightarrow> (200, (case encode files of Inr s \<Rightarrow> s | Inl _ \<Rightarrow> [])))"

section \<open>The server\<close>

text \<open>The libraries and the data outside of the program.\<close>

record web =
  wb_bencode :: "bool \<Rightarrow> response \<Rightarrow> string + string"
  wb_bencode_scrape :: "(string, scrape_stats) gomap \<Rightarrow> string + string"
  wb_err_text :: "request_error \<Rightarrow> string"
  wb_json :: "jval \<Rightarrow> string + string"
  wb_rfc3339 :: "int \<Rightarrow> string"
  wb_lookup :: "string \<Rightarrow> string + net_ip list"
  wb_shuffle :: "forward list \<Rightarrow> forward list"
  wb_favicon :: string
  wb_metrics :: string

datatype web_answer =
    WebText nat string
  | WebImage string
  | WebBencode nat string
  | WebStats nat stats_body
  | WebForwarders nat http_body
  | WebMetrics string
  | WebMoved string

definition web_announce :: "web \<Rightarrow> gotime \<Rightarrow> http_request \<Rightarrow> core \<Rightarrow> core \<times> web_answer" where
  "web_announce w now q co =
     (case HTTPHandler (wb_bencode w) (wb_err_text w) (wb_shuffle w) now (hq_remote q) (hq_real_ip q)
             (hq_agent q) (values_get (parse_query (hq_query q))) (co_tracker co) of
        (tk, status, body) \<Rightarrow> (co\<lparr>co_tracker := tk\<rparr>, WebBencode status body))"

definition not_found :: web_answer where
  "not_found = WebText 404 (''404 page not found'' @ nl)"

definition serve_route :: "web \<Rightarrow> gotime \<Rightarrow> http_request \<Rightarrow> core \<Rightarrow> web_route \<Rightarrow> core \<times> web_answer" where
  "serve_route w now q co r =
     (case r of
        FaviconRoute \<Rightarrow> (co, WebImage (wb_favicon w))
      | ScrapeRoute \<Rightarrow>
          (case HTTPScrapeHandler (wb_bencode_scrape w) now (hq_query q) (co_tracker co) of
             (status, body) \<Rightarrow> (co, WebBencode status body))
      | RootRoute \<Rightarrow>
          (case root_handler (hq_host q) of
             RootAnnounce \<Rightarrow> web_announce w now q co
           | RootAlive \<Rightarrow> (co, WebText 200 (''retracker is live'' @ nl))
           | RootNotFound \<Rightarrow> (co, not_found))
      | AnnounceRoute \<Rightarrow> web_announce w now q co
      | StatsRoute \<Rightarrow>
          (case HTTPStatsHandler (wb_rfc3339 w) (wb_json w) id now
                  (values_get (parse_query (hq_query q)) ''format'') (co_tracker co) of
             (tk, status, body) \<Rightarrow> (co\<lparr>co_tracker := tk\<rparr>, WebStats status body))
      | AddForwarderRoute \<Rightarrow>
          (case HTTPAddForwarderHandler (wb_lookup w) now (hq_method q) (hq_query q) (hq_body q)
                  (hq_trailing q) co of
             (co', status, body) \<Rightarrow> (co', WebForwarders status body))
      | MetricsRoute \<Rightarrow> (co, WebMetrics (wb_metrics w)))"

definition serve_request :: "web \<Rightarrow> gotime \<Rightarrow> http_request \<Rightarrow> core \<Rightarrow> core \<times> web_answer" where
  "serve_request w now q co =
     (case find_route (newMux (cf_prometheus_enabled (tk_config (co_tracker co)))) q of
        Matched r \<Rightarrow> serve_route w now q co r
      | MovedTo path \<Rightarrow> (co, WebMoved path)
      | NoRoute \<Rightarrow> (co, not_found)
      | BadStar \<Rightarrow> (co, WebText 400 []))"

text \<open>A request is a step of the tracker, or changes nothing.\<close>

lemma serve_announce_step:
  assumes "permutes (wb_shuffle w)" "web_announce w now q (sy_core s) = (co', ans)"
  shows "sys_step s (s\<lparr>sy_core := co'\<rparr>)"
proof -
  obtain tk status body where h: "HTTPHandler (wb_bencode w) (wb_err_text w) (wb_shuffle w) now (hq_remote q)
      (hq_real_ip q) (hq_agent q) (values_get (parse_query (hq_query q))) (sy_tracker s) = (tk, status, body)"
    using prod_cases3 by blast
  with assms(2) have "co' = (sy_core s)\<lparr>co_tracker := tk\<rparr>" by (auto simp: web_announce_def sy_tracker_def)
  with sys_stepI [OF sys_op.http_announce [OF assms(1) h]] show ?thesis by (simp add: with_tracker_def)
qed

lemma serve_route_step:
  assumes "permutes (wb_shuffle w)" "serve_route w now q (sy_core s) r = (co', ans)"
  shows "co' = sy_core s \<or> sys_step s (s\<lparr>sy_core := co'\<rparr>)"
proof (cases r)
  case RootRoute
  with assms(2) serve_announce_step [OF assms(1)] show ?thesis
    by (auto simp: serve_route_def split: root_action.splits)
next
  case AnnounceRoute
  with assms(2) serve_announce_step [OF assms(1)] show ?thesis by (auto simp: serve_route_def)
next
  case StatsRoute
  then have "co' = (sy_core s)\<lparr>co_tracker := fst (stats_provider_of now (sy_tracker s))\<rparr>"
    using assms(2) by (auto simp: serve_route_def HTTPStatsHandler_def sy_tracker_def Let_def
        split: prod.splits sum.splits if_splits)
  with sys_stepI [OF sys_op.show_stats [of s now]] show ?thesis by (simp add: with_tracker_def sy_tracker_def)
next
  case AddForwarderRoute
  then obtain status body where "HTTPAddForwarderHandler (wb_lookup w) now (hq_method q) (hq_query q)
      (hq_body q) (hq_trailing q) (sy_core s) = (co', status, body)"
    using assms(2) by (auto simp: serve_route_def split: prod.splits)
  from sys_stepI [OF sys_op.add_forwarder [OF this]] show ?thesis by blast
qed (use assms(2) in \<open>auto simp: serve_route_def split: prod.splits\<close>)

lemma serve_request_step:
  assumes "permutes (wb_shuffle w)" "serve_request w now q (sy_core s) = (co', ans)"
  shows "co' = sy_core s \<or> sys_step s (s\<lparr>sy_core := co'\<rparr>)"
  using assms serve_route_step [OF assms(1)]
  by (auto simp: serve_request_def split: mux_result.splits)

lemma serve_request_reachable:
  assumes "reachable cfg s" "permutes (wb_shuffle w)" "serve_request w now q (sy_core s) = (co', ans)"
  shows "reachable cfg (s\<lparr>sy_core := co'\<rparr>)"
  using serve_request_step [OF assms(2,3)] assms(1) by (auto intro: reachable.move)

section \<open>Running and stopping\<close>

text \<open>An error of Go as the list of what was joined into it; none is the empty list. \<open>Serve\<close> always
  ends with an error, which is \<open>http.ErrServerClosed\<close> after a shutdown.\<close>

type_synonym errs = "string list"

datatype serve_error = ServerClosed | ServeFailed string

text \<open>Which of the two the \<open>select\<close> takes: the server ended by itself, or the context was cancelled, and
  then how the drain, the forced close after a failed drain and the server ended.\<close>

datatype serve_run = ServeEnded serve_error | Canceled errs errs serve_error

definition join_errors :: "errs \<Rightarrow> errs \<Rightarrow> errs" where
  "join_errors a b = a @ b"

definition serve :: "serve_run \<Rightarrow> errs" where
  "serve r =
     (case r of
        ServeEnded ServerClosed \<Rightarrow> []
      | ServeEnded (ServeFailed e) \<Rightarrow> [e]
      | Canceled drain forced ended \<Rightarrow>
          (let err = (if drain \<noteq> [] then join_errors drain forced else drain)
           in case ended of ServerClosed \<Rightarrow> err | ServeFailed e \<Rightarrow> join_errors err [e]))"

text \<open>The timeouts of the HTTP server.\<close>

record http_server =
  hs_read_header :: duration
  hs_read :: duration
  hs_write :: duration
  hs_idle :: duration

definition newHTTPServer :: http_server where
  "newHTTPServer = \<lparr>hs_read_header = 5 * second, hs_read = 15 * second, hs_write = 30 * second,
     hs_idle = 60 * second\<rparr>"

definition shutdownTimeout :: duration where "shutdownTimeout = 5 * second"

datatype resource = HttpListener | TempFiles | Tracker

datatype run_event = Opened resource | Closed resource | MetricsOn | UdpListening | TrackerStarted | ServingHttp

record run_env =
  ru_canceled :: bool
  ru_listen :: "string option"
  ru_temp :: "string option"
  ru_metrics :: "string option"
  ru_udp :: "string option"
  ru_serve :: serve_run

text \<open>A resource with its deferred release around what is done with it.\<close>

definition with_resource :: "resource \<Rightarrow> run_event list \<times> errs \<Rightarrow> run_event list \<times> errs" where
  "with_resource r body = (case body of (t, e) \<Rightarrow> (Opened r # t @ [Closed r], e))"

definition run_core :: "run_env \<Rightarrow> config \<Rightarrow> run_event list \<times> errs" where
  "run_core env cfg =
     (let metrics = (if cf_prometheus_enabled cfg then [MetricsOn] else []);
          udp = (if cf_udp_listen cfg \<noteq> [] then [UdpListening] else [])
      in case (if cf_prometheus_enabled cfg then ru_metrics env else None) of
           Some e \<Rightarrow> ([], [''initialize metrics: '' @ e])
         | None \<Rightarrow>
             (case (if cf_udp_listen cfg \<noteq> [] then ru_udp env else None) of
                Some e \<Rightarrow> (metrics, [''listen UDP: '' @ e])
              | None \<Rightarrow> (metrics @ udp @ [TrackerStarted, ServingHttp], serve (ru_serve env))))"

definition run :: "run_env \<Rightarrow> config \<Rightarrow> run_event list \<times> errs" where
  "run env cfg =
     (if ru_canceled env then ([], [])
      else case ru_listen env of
        Some e \<Rightarrow> ([], [''listen HTTP: '' @ e])
      | None \<Rightarrow>
          with_resource HttpListener
            (case ru_temp env of
               Some e \<Rightarrow> ([], [''create temp storage: '' @ e])
             | None \<Rightarrow> with_resource TempFiles (with_resource Tracker (run_core env cfg))))"

text \<open>\<open>main\<close>: the two flags that only print, then the configuration and the run; the exit code.\<close>

datatype main_result = HelpShown | VersionShown string | ConfigFailed | RunEnded errs

definition main_program :: "bool \<Rightarrow> bool \<Rightarrow> 'e + config \<Rightarrow> run_env \<Rightarrow> main_result \<times> nat" where
  "main_program help ver cfg env =
     (if help then (HelpShown, 0)
      else if ver then (VersionShown ''0.10.1'', 0)
      else case cfg of
        Inl e \<Rightarrow> (ConfigFailed, 1)
      | Inr c \<Rightarrow> (let err = snd (run env c) in (RunEnded err, if err = [] then 0 else 1)))"

text \<open>The resources that are open after some events, the latest first; None when a release does not match.\<close>

fun open_after :: "run_event list \<Rightarrow> resource list \<Rightarrow> resource list option" where
  "open_after [] rs = Some rs"
| "open_after (Opened r # t) rs = open_after t (r # rs)"
| "open_after (Closed r # t) rs = (case rs of [] \<Rightarrow> None | r' # rs' \<Rightarrow> if r = r' then open_after t rs' else None)"
| "open_after (e # t) rs = open_after t rs"

lemma open_after_append: "open_after (t @ u) rs = Option.bind (open_after t rs) (open_after u)"
  by (induction t rs rule: open_after.induct) (auto split: list.splits)

lemma with_resource_nested:
  assumes "\<And>rs. open_after (fst body) rs = Some rs"
  shows "open_after (fst (with_resource r body)) rs = Some rs"
  using assms [of "r # rs"] by (cases body) (simp add: with_resource_def open_after_append)

lemma run_core_nested: "open_after (fst (run_core env cfg)) rs = Some rs"
  by (auto simp: run_core_def Let_def split: option.splits)

lemma run_nested: "open_after (fst (run env cfg)) rs = Some rs"
  by (auto simp: run_def run_core_nested split: option.splits intro!: with_resource_nested)

text \<open>Where the tracker serves, everything it needs is open.\<close>

lemma run_serving:
  assumes "fst (run env cfg) = before @ ServingHttp # after"
  shows "open_after before [] = Some [Tracker, TempFiles, HttpListener]"
    and "cf_udp_listen cfg \<noteq> [] \<Longrightarrow> UdpListening \<in> set before"
    and "cf_prometheus_enabled cfg \<Longrightarrow> MetricsOn \<in> set before"
    and "TrackerStarted \<in> set before" and "snd (run env cfg) = serve (ru_serve env)"
  using assms
  by (auto simp: run_def run_core_def with_resource_def Let_def Cons_eq_append_conv append_eq_append_conv2
      split: option.splits if_splits)

end
