(* ===== verification/Lifecycle.thy ===== *)
theory Lifecycle
  imports System Background
begin

text \<open>
  Starting and stopping: \<open>ForwarderManager.Start\<close> with the goroutines it owns and the scaling of the worker
  pool (forwarderManager.go), \<open>Core.Start\<close> (core.go), and \<open>Start\<close> and \<open>Close\<close> of the UDP receiver
  (receiverUDP.go). A goroutine is an entry of a list; its end is the task group's \<open>Done\<close>.
\<close>

section \<open>The pool of the manager\<close>

datatype routine = Worker | ScaleLoop | SchedulerLoop | StatsLoop

record pool =
  po_manager :: fmgr
  po_tasks :: tasks
  po_started :: bool
  po_running :: "routine list"

definition new_pool :: "fmgr \<Rightarrow> pool" where
  "new_pool fm = \<lparr>po_manager = fm, po_tasks = newBackgroundTasks, po_started = False, po_running = []\<rparr>"

text \<open>\<open>tasks.run\<close>: nothing is started once the group is stopping.\<close>

definition run_task :: "routine \<Rightarrow> pool \<Rightarrow> pool" where
  "run_task r p =
     (case tasks_begin (po_tasks p) of
        (ts, ok) \<Rightarrow> p\<lparr>po_tasks := ts, po_running := (if ok then r # po_running p else po_running p)\<rparr>)"

definition isStopping :: "pool \<Rightarrow> bool" where
  "isStopping p \<longleftrightarrow> ts_canceled (po_tasks p)"

text \<open>What \<open>Start\<close> runs, in this order.\<close>

definition start_routines :: "fmgr \<Rightarrow> routine list" where
  "start_routines fm =
     replicate (nat (fm_base_workers fm)) Worker @ [ScaleLoop, SchedulerLoop]
     @ (if cf_stats_interval (fm_config fm) > 0 then [StatsLoop] else [])"

definition fm_Start :: "pool \<Rightarrow> pool" where
  "fm_Start p =
     (if po_started p then p
      else (let p1 = p\<lparr>po_started := True\<rparr>
            in if isStopping p1 then p1 else fold run_task (start_routines (po_manager p)) p1))"

text \<open>\<open>Core.Start\<close>: None is a core without a manager.\<close>

definition core_Start :: "bool \<Rightarrow> pool option \<Rightarrow> pool option" where
  "core_Start shut p = (if \<not> shut then map_option fm_Start p else p)"

text \<open>A tick of \<open>scaleWorkers\<close>, a worker that receives a signal to leave, and the end of a goroutine.\<close>

definition scale_pool :: "pool \<Rightarrow> pool" where
  "scale_pool p =
     (case scaleWorkers_tick (po_manager p) of
        (fm, grow) \<Rightarrow> (let p1 = p\<lparr>po_manager := fm\<rparr> in if grow then run_task Worker p1 else p1))"

definition routine_ends :: "routine \<Rightarrow> pool \<Rightarrow> pool option" where
  "routine_ends r p =
     map_option (\<lambda>ts. p\<lparr>po_tasks := ts, po_running := remove1 r (po_running p)\<rparr>) (wg_done (po_tasks p))"

definition worker_signalled :: "pool \<Rightarrow> pool option" where
  "worker_signalled p =
     (case scale_down_received (po_manager p) of
        (fm, leave) \<Rightarrow> (let p1 = p\<lparr>po_manager := fm\<rparr> in if leave then routine_ends Worker p1 else Some p1))"

definition signal_stop_pool :: "pool \<Rightarrow> pool" where
  "signal_stop_pool p = p\<lparr>po_tasks := tasks_stop (po_tasks p), po_manager := fm_signal_stop (po_manager p)\<rparr>"

text \<open>The steps of the pool. The manager's queue may change at any moment, and with it what a tick does;
  the fields the pool depends on stay.\<close>

definition same_pool_settings :: "fmgr \<Rightarrow> fmgr \<Rightarrow> bool" where
  "same_pool_settings fm fm' \<longleftrightarrow>
     fm_worker_count fm' = fm_worker_count fm \<and> fm_base_workers fm' = fm_base_workers fm
     \<and> fm_max_workers fm' = fm_max_workers fm \<and> fm_scale_down fm' = fm_scale_down fm
     \<and> fm_stopped fm' = fm_stopped fm \<and> fm_config fm' = fm_config fm"

inductive pool_step :: "pool \<Rightarrow> pool \<Rightarrow> bool" where
  start: "pool_step p (fm_Start p)"
| scale_tick: "ScaleLoop \<in> set (po_running p) \<Longrightarrow> pool_step p (scale_pool p)"
| signalled: "Worker \<in> set (po_running p) \<Longrightarrow> 0 < fm_scale_down (po_manager p) \<Longrightarrow>
    worker_signalled p = Some p' \<Longrightarrow> pool_step p p'"
| stop: "pool_step p (signal_stop_pool p)"
| ends: "isStopping p \<Longrightarrow> r \<in> set (po_running p) \<Longrightarrow> routine_ends r p = Some p' \<Longrightarrow> pool_step p p'"
| cleared: "isStopping p \<Longrightarrow> wait_returns (po_tasks p) \<Longrightarrow>
    pool_step p (p\<lparr>po_manager := fm_clear (po_manager p)\<rparr>)"
| other_work: "same_pool_settings (po_manager p) fm \<Longrightarrow> pool_step p (p\<lparr>po_manager := fm\<rparr>)"

inductive pool_reachable :: "fmgr \<Rightarrow> pool \<Rightarrow> bool" for fm where
  fresh: "pool_reachable fm (new_pool fm)"
| move: "pool_reachable fm p \<Longrightarrow> pool_step p p' \<Longrightarrow> pool_reachable fm p'"

text \<open>The pool is a group of goroutines in the sense of \<open>Background\<close>.\<close>

interpretation po: task_group "\<lambda>p. ts_wg (po_tasks p) = length (po_running p)" po_running routine_ends
    "\<lambda>p. wait_returns (po_tasks p)"
  by unfold_locales
     (auto simp: routine_ends_def wg_done_def wait_returns_def length_remove1 length_pos_if_in_set)

section \<open>The invariant\<close>

definition pool_inv :: "fmgr \<Rightarrow> pool \<Rightarrow> bool" where
  "pool_inv fm0 p \<longleftrightarrow>
     (let fm = po_manager p; ts = po_tasks p; rs = po_running p in
      ts_wg ts = length rs \<and> ts_canceled ts = ts_stopped ts
      \<and> fm_base_workers fm = fm_base_workers fm0 \<and> fm_max_workers fm = fm_max_workers fm0
      \<and> fm_config fm = fm_config fm0
      \<and> (\<not> po_started p \<longrightarrow> rs = [])
      \<and> (\<not> ts_stopped ts \<longrightarrow>
           fm_base_workers fm0 \<le> fm_worker_count fm
           \<and> fm_worker_count fm \<le> max (fm_base_workers fm0) (fm_max_workers fm0)
           \<and> (\<not> po_started p \<longrightarrow> fm_worker_count fm = fm_base_workers fm0)
           \<and> (po_started p \<longrightarrow>
                int (count_list rs Worker) = fm_worker_count fm
                \<and> count_list rs ScaleLoop = 1 \<and> count_list rs SchedulerLoop = 1
                \<and> count_list rs StatsLoop = (if cf_stats_interval (fm_config fm0) > 0 then 1 else 0))))"

text \<open>The start-up checks leave what the pool is set up with.\<close>

definition pool_settings :: "fmgr \<Rightarrow> int \<times> int \<times> int \<times> config" where
  "pool_settings fm = (fm_base_workers fm, fm_max_workers fm, fm_worker_count fm, fm_config fm)"

lemma pool_settings_disable: "pool_settings (fst (disableForwarder now name reason s)) = pool_settings (fst s)"
  by (cases s) (simp add: pool_settings_def disableForwarder_def Let_def)

lemma pool_settings_sweep:
  "pool_settings (fst (fold (\<lambda>f s. case bad f of None \<Rightarrow> s
     | Some x \<Rightarrow> disableForwarder now (getName f) (reason x) s) fs s)) = pool_settings (fst s)"
  by (induction fs arbitrary: s) (auto simp: pool_settings_disable split: option.splits)

lemma new_manager_settings:
  "pool_settings (fst (NewForwarderManager lookup_ip now cfg fs)) = pool_settings (init_manager cfg)"
proof -
  have d: "pool_settings (removeDuplicateForwardersByDomain fm) = pool_settings fm" for fm
    by (simp add: removeDuplicateForwardersByDomain_def pool_settings_def split: option.splits)
  show ?thesis
    unfolding NewForwarderManager_def Let_def fst_conv d checkAndRemoveBlockedForwarders_def
      validateAndRemoveInvalidForwarders_def pool_settings_sweep by simp
qed

lemma new_manager_workers:
  assumes "NewForwarderManager lookup_ip now cfg fs0 = (fm, fs)"
  shows "fm_base_workers fm = cf_forwarder_workers cfg" "fm_worker_count fm = cf_forwarder_workers cfg"
    "fm_config fm = cfg"
  using new_manager_settings [of lookup_ip now cfg fs0]
  by (simp_all add: assms pool_settings_def init_manager_def Let_def)

lemma run_tasks_running:
  "\<not> ts_stopped (po_tasks p) \<Longrightarrow>
     fold run_task rs p = p\<lparr>po_tasks := (po_tasks p)\<lparr>ts_wg := ts_wg (po_tasks p) + length rs\<rparr>,
                           po_running := rev rs @ po_running p\<rparr>"
  by (induction rs arbitrary: p) (simp_all add: run_task_def tasks_begin_def)

lemma count_list_remove1: "count_list (remove1 x xs) y = (if x = y then count_list xs y - 1 else count_list xs y)"
  by (induction xs) auto

lemma count_list_in: "x \<in> set xs \<Longrightarrow> 0 < count_list xs x"
  by (induction xs) auto

lemma count_list_replicate: "count_list (replicate n x) y = (if x = y then n else 0)"
  by (induction n) auto

lemma count_list_rev [simp]: "count_list (rev xs) x = count_list xs x"
  by (induction xs) auto

lemma pool_inv_new: "pool_inv fm (new_pool fm)"
  if "fm_worker_count fm = fm_base_workers fm"
  using that by (simp add: pool_inv_def new_pool_def newBackgroundTasks_def)

lemma start_counts:
  "count_list (start_routines fm) Worker = nat (fm_base_workers fm)"
  "count_list (start_routines fm) ScaleLoop = 1" "count_list (start_routines fm) SchedulerLoop = 1"
  "count_list (start_routines fm) StatsLoop = (if cf_stats_interval (fm_config fm) > 0 then 1 else 0)"
  by (simp_all add: start_routines_def count_list_replicate)

lemma pool_inv_start: "0 \<le> fm_base_workers fm0 \<Longrightarrow> pool_inv fm0 p \<Longrightarrow> pool_inv fm0 (fm_Start p)"
  by (cases "ts_stopped (po_tasks p)")
     (auto simp: fm_Start_def Let_def pool_inv_def isStopping_def run_tasks_running start_counts)

lemma pool_inv_scale:
  assumes "pool_inv fm0 p" "ScaleLoop \<in> set (po_running p)"
  shows "pool_inv fm0 (scale_pool p)"
proof -
  have "po_started p" using assms by (auto simp: pool_inv_def Let_def)
  then show ?thesis
    using assms by (auto simp: pool_inv_def Let_def scale_pool_def scaleWorkers_tick_def run_task_def tasks_begin_def)
qed

lemma pool_inv_ends:
  assumes "pool_inv fm0 p" "isStopping p" "routine_ends r p = Some p'" "r \<in> set (po_running p)"
  shows "pool_inv fm0 p'"
proof -
  have "po_started p" using assms by (auto simp: pool_inv_def Let_def)
  then show ?thesis
    using assms by (auto simp: pool_inv_def Let_def routine_ends_def wg_done_def isStopping_def length_remove1 split: if_splits)
qed

lemma pool_inv_signalled:
  assumes "pool_inv fm0 p" "Worker \<in> set (po_running p)" "worker_signalled p = Some p'"
  shows "pool_inv fm0 p'"
proof -
  have st: "po_started p" using assms by (auto simp: pool_inv_def Let_def)
  let ?fm = "(po_manager p)\<lparr>fm_scale_down := fm_scale_down (po_manager p) - 1\<rparr>"
  show ?thesis
  proof (cases "fm_worker_count (po_manager p) > fm_base_workers (po_manager p)")
    case True
    then have p': "p' = p\<lparr>po_manager := ?fm\<lparr>fm_worker_count := fm_worker_count (po_manager p) - 1\<rparr>,
        po_tasks := (po_tasks p)\<lparr>ts_wg := ts_wg (po_tasks p) - 1\<rparr>, po_running := remove1 Worker (po_running p)\<rparr>"
      using assms(3) by (auto simp: worker_signalled_def scale_down_received_def routine_ends_def wg_done_def
          Let_def split: if_splits)
    from assms(1,2) st True count_list_in [OF assms(2)] show ?thesis
      unfolding pool_inv_def p' Let_def by (auto simp: count_list_remove1 length_remove1 of_nat_diff)
  next
    case False
    then have "p' = p\<lparr>po_manager := ?fm\<rparr>"
      using assms(3) by (simp add: worker_signalled_def scale_down_received_def Let_def)
    with assms(1) show ?thesis by (simp add: pool_inv_def Let_def)
  qed
qed

lemma pool_inv_step:
  assumes "0 \<le> fm_base_workers fm0"
  shows "pool_step p p' \<Longrightarrow> pool_inv fm0 p \<Longrightarrow> pool_inv fm0 p'"
proof (induction rule: pool_step.induct)
  case (start p)
  then show ?case by (rule pool_inv_start [OF assms])
next
  case (scale_tick p)
  from scale_tick(2,1) show ?case by (rule pool_inv_scale)
next
  case (signalled p p')
  from signalled(4,1,3) show ?case by (rule pool_inv_signalled)
next
  case (stop p)
  then show ?case by (simp add: pool_inv_def Let_def signal_stop_pool_def tasks_stop_def fm_signal_stop_def)
next
  case (ends p r p')
  from ends(4,1,3,2) show ?case by (rule pool_inv_ends)
next
  case (cleared p)
  then show ?case by (auto simp: pool_inv_def Let_def isStopping_def fm_clear_def)
next
  case (other_work p fm)
  then show ?case by (simp add: pool_inv_def Let_def same_pool_settings_def)
qed

lemma pool_reachable_inv:
  assumes "0 \<le> fm_base_workers fm" "fm_worker_count fm = fm_base_workers fm"
  shows "pool_reachable fm p \<Longrightarrow> pool_inv fm p"
  by (induction rule: pool_reachable.induct) (auto intro: pool_inv_new [OF assms(2)] pool_inv_step [OF assms(1)])

section \<open>The routines of the store\<close>

text \<open>A routine that waits for its ticker or for the end of its context: what each round of the \<open>select\<close>
  gives it.\<close>

datatype 'a tick = ContextDone | Tick 'a

fun purgeRoutine :: "gotime tick list \<Rightarrow> storage \<Rightarrow> storage" where
  "purgeRoutine [] st = st"
| "purgeRoutine (ContextDone # ts) st = st"
| "purgeRoutine (Tick now # ts) st = purgeRoutine ts (purgeExpired now st)"

text \<open>The store's statistics: nothing when they are switched off or left to the manager, whose flag is
  looked at again after every tick. The result is what is logged.\<close>

fun stats_rounds :: "(gotime \<times> bool \<times> storage) tick list \<Rightarrow> (nat \<times> (string \<times> nat \<times> int) list) list" where
  "stats_rounds [] = []"
| "stats_rounds (ContextDone # ts) = []"
| "stats_rounds (Tick (now, left_to_manager, st) # ts) =
     (if left_to_manager then [] else printClientStatsInline now st # stats_rounds ts)"

definition storage_statsRoutine ::
  "int \<Rightarrow> bool \<Rightarrow> (gotime \<times> bool \<times> storage) tick list \<Rightarrow> (nat \<times> (string \<times> nat \<times> int) list) list" where
  "storage_statsRoutine interval left_to_manager ts =
     (if interval \<le> 0 then [] else if left_to_manager then [] else stats_rounds ts)"

lemma purgeRoutine_wf: "storage_wf st \<Longrightarrow> storage_wf (purgeRoutine ts st)"
  by (induction ts st rule: purgeRoutine.induct) (auto intro: inv_intros)

text \<open>The connection limits of the shared HTTP client: those of the default transport, but at least as many
  as there are workers; None is a transport of another kind, which is used as it is.\<close>

definition newForwarderHTTPClient :: "(int \<times> int) option \<Rightarrow> int \<Rightarrow> (int \<times> int) option" where
  "newForwarderHTTPClient base maxWorkers =
     map_option (\<lambda>(idle, per_host). (max idle maxWorkers, max (max per_host 2) maxWorkers)) base"

section \<open>The UDP receiver\<close>

text \<open>The socket is there from the first start on, also after the close. Two goroutines serve it, and each
  datagram that is read gets one more, which the reader adds to the group itself.\<close>

datatype udp_routine = ConnectionCleaner | PacketReader | PacketHandler

record udp_life =
  ul_socket :: bool
  ul_closed :: bool
  ul_stop :: bool
  ul_wg :: nat
  ul_running :: "udp_routine list"

definition NewReceiverUDP :: udp_life where
  "NewReceiverUDP = \<lparr>ul_socket = False, ul_closed = False, ul_stop = False, ul_wg = 0, ul_running = []\<rparr>"

text \<open>The two arguments are the errors of the address's resolution and of the socket.\<close>

definition udp_Start :: "string option \<Rightarrow> string option \<Rightarrow> udp_life \<Rightarrow> udp_life \<times> string option" where
  "udp_Start resolve listen ul =
     (if ul_socket ul then (ul, Some ''UDP receiver already started'')
      else case resolve of
        Some e \<Rightarrow> (ul, Some (''failed to resolve UDP address: '' @ e))
      | None \<Rightarrow>
          (case listen of
             Some e \<Rightarrow> (ul, Some (''failed to listen on UDP: '' @ e))
           | None \<Rightarrow> (ul\<lparr>ul_socket := True, ul_stop := False, ul_wg := ul_wg ul + 2,
                         ul_running := [PacketReader, ConnectionCleaner] @ ul_running ul\<rparr>, None)))"

text \<open>A datagram that is long enough is handed to a goroutine of its own.\<close>

definition packet_handed :: "udp_life \<Rightarrow> udp_life" where
  "packet_handed ul = ul\<lparr>ul_wg := ul_wg ul + 1, ul_running := PacketHandler # ul_running ul\<rparr>"

text \<open>\<open>Close\<close> up to its wait; the boolean says that there is something to wait for. The cleaner ends when the
  stop channel is closed, the reader at any error of the socket, among them its end.\<close>

definition udp_Close :: "udp_life \<Rightarrow> udp_life \<times> bool" where
  "udp_Close ul =
     (if \<not> ul_socket ul \<or> ul_closed ul then (ul, False)
      else (ul\<lparr>ul_closed := True, ul_stop := True\<rparr>, True))"

definition udp_routine_ends :: "udp_routine \<Rightarrow> udp_life \<Rightarrow> udp_life option" where
  "udp_routine_ends r ul =
     (if r \<in> set (ul_running ul) \<and> 0 < ul_wg ul \<and> (r = ConnectionCleaner \<longrightarrow> ul_stop ul)
      then Some (ul\<lparr>ul_wg := ul_wg ul - 1, ul_running := remove1 r (ul_running ul)\<rparr>) else None)"

interpretation ul: task_group "\<lambda>ul. ul_stop ul \<and> ul_wg ul = length (ul_running ul)" ul_running udp_routine_ends
    "\<lambda>ul. ul_wg ul = 0"
  by unfold_locales (auto simp: udp_routine_ends_def length_remove1 length_pos_if_in_set)

inductive udp_life_step :: "udp_life \<Rightarrow> udp_life \<Rightarrow> bool" where
  started: "udp_Start resolve listen ul = (ul', err) \<Longrightarrow> udp_life_step ul ul'"
| packet: "PacketReader \<in> set (ul_running ul) \<Longrightarrow> udp_life_step ul (packet_handed ul)"
| closing: "udp_Close ul = (ul', waits) \<Longrightarrow> udp_life_step ul ul'"
| routine: "udp_routine_ends r ul = Some ul' \<Longrightarrow> udp_life_step ul ul'"

inductive udp_life_reachable :: "udp_life \<Rightarrow> bool" where
  new: "udp_life_reachable NewReceiverUDP"
| move: "udp_life_reachable ul \<Longrightarrow> udp_life_step ul ul' \<Longrightarrow> udp_life_reachable ul'"

definition udp_life_inv :: "udp_life \<Rightarrow> bool" where
  "udp_life_inv ul \<longleftrightarrow>
     ul_wg ul = length (ul_running ul) \<and> ul_stop ul = ul_closed ul
     \<and> (\<not> ul_socket ul \<longrightarrow> ul_running ul = [] \<and> \<not> ul_closed ul)
     \<and> count_list (ul_running ul) PacketReader \<le> 1 \<and> count_list (ul_running ul) ConnectionCleaner \<le> 1
     \<and> (ul_socket ul \<and> \<not> ul_closed ul \<longrightarrow> count_list (ul_running ul) ConnectionCleaner = 1)"

lemma udp_life_invariant: "udp_life_reachable ul \<Longrightarrow> udp_life_inv ul"
proof (induction rule: udp_life_reachable.induct)
  case new
  then show ?case by (simp add: udp_life_inv_def NewReceiverUDP_def)
next
  case (move ul ul')
  from move(2,3) show ?case
    by cases (auto simp: udp_life_inv_def udp_Start_def udp_Close_def udp_routine_ends_def packet_handed_def
        length_remove1 count_list_remove1 split: if_splits option.splits)
qed

section \<open>The receivers\<close>

text \<open>\<open>NewReceiver\<close> gives both receivers the same configuration, store and manager; the UDP receiver starts
  without connections. \<open>NewCore\<close> makes the receivers of its tracker.\<close>

record receivers =
  rv_announce :: tracker
  rv_udp :: udp_server

definition NewReceiverAnnounce :: "config \<Rightarrow> storage \<Rightarrow> fmgr option \<Rightarrow> tracker" where
  "NewReceiverAnnounce cfg st fm = \<lparr>tk_config = cfg, tk_storage = st, tk_manager = fm\<rparr>"

definition new_udp_server :: "config \<Rightarrow> storage \<Rightarrow> fmgr option \<Rightarrow> udp_server" where
  "new_udp_server cfg st fm = \<lparr>sv_connections = [], sv_tracker = \<lparr>tk_config = cfg, tk_storage = st, tk_manager = fm\<rparr>\<rparr>"

definition NewReceiver :: "config \<Rightarrow> storage \<Rightarrow> fmgr option \<Rightarrow> receivers" where
  "NewReceiver cfg st fm = \<lparr>rv_announce = NewReceiverAnnounce cfg st fm, rv_udp = new_udp_server cfg st fm\<rparr>"

lemma core_receivers:
  "\<exists>st fm. NewReceiver cfg st fm =
     \<lparr>rv_announce = co_tracker (NewCore lookup_ip now cfg),
      rv_udp = \<lparr>sv_connections = co_connections (NewCore lookup_ip now cfg), sv_tracker = co_tracker (NewCore lookup_ip now cfg)\<rparr>\<rparr>"
  by (auto simp: NewReceiver_def NewReceiverAnnounce_def new_udp_server_def NewCore_def Let_def split: prod.splits)

end
