(* ===== verification/Diagnostics.thy ===== *)
theory Diagnostics
  imports StatsText FwdAnnounce
begin

text \<open>
  The diagnostic side: \<open>tempStorage.go\<close>, and the log records of \<open>forwarderAnnounce.go\<close> with the answers
  that could not be parsed and the events that are passed on. What the file system answers is part of a
  directory entry or an argument; the local calendar's day before is the parameter \<open>day_before\<close>.
\<close>

section \<open>Records\<close>

datatype log_level = LevelDebug | LevelInfo | LevelWarn | LevelError

datatype log_value = LogText string | LogNum int | LogDuration duration | LogError "go_error option"

record log_record =
  lg_level :: log_level
  lg_message :: string
  lg_attrs :: "(string \<times> log_value) list"

definition plain_record :: "log_level \<Rightarrow> string \<Rightarrow> log_record" where
  "plain_record l m = \<lparr>lg_level = l, lg_message = m, lg_attrs = []\<rparr>"

definition logAnnounceResult :: "string \<Rightarrow> string \<Rightarrow> string \<Rightarrow> announce_result \<Rightarrow> log_record" where
  "logAnnounceResult protocol trackerURL hash res =
     (let attrs = [(''protocol'', LogText protocol), (''tracker'', LogText trackerURL),
                   (''info_hash'', LogText hash), (''response_bytes'', LogNum (int (ar_size res))),
                   (''duration'', LogDuration (ar_duration res)), (''interval'', LogNum (ar_interval res)),
                   (''peers'', LogNum (int (length (ar_peers res))))]
      in if ar_success res
         then \<lparr>lg_level = LevelInfo, lg_message = ''Forwarder announce succeeded'', lg_attrs = attrs\<rparr>
         else \<lparr>lg_level = LevelWarn, lg_message = ''Forwarder announce failed'',
               lg_attrs = attrs @ [(''error'', LogError (ar_error res))]\<rparr>)"

definition logRetryableAnnounceResult ::
  "string \<Rightarrow> string \<Rightarrow> string \<Rightarrow> announce_result \<Rightarrow> int \<Rightarrow> int \<Rightarrow> log_record" where
  "logRetryableAnnounceResult protocol trackerURL hash res fails threshold =
     \<lparr>lg_level = LevelWarn, lg_message = ''Forwarder announce will retry'',
      lg_attrs = [(''protocol'', LogText protocol), (''tracker'', LogText trackerURL), (''info_hash'', LogText hash),
                  (''duration'', LogDuration (ar_duration res)), (''error'', LogError (ar_error res)),
                  (''failure_count'', LogNum fails), (''failure_threshold'', LogNum threshold)]\<rparr>"

section \<open>Events\<close>

text \<open>\<open>executeEventAnnounce\<close>: \<open>udp\<close> gives the outcome of an announce over UDP, \<open>fetch\<close> the reply for an
  address.\<close>

definition executeEventAnnounce ::
  "bool \<Rightarrow> (url \<Rightarrow> string) \<Rightarrow> (forward \<Rightarrow> request \<Rightarrow> go_error option) \<Rightarrow> (string \<Rightarrow> http_reply) \<Rightarrow>
   info_hash \<Rightarrow> peer_id \<Rightarrow> forward \<times> request \<Rightarrow> log_record list" where
  "executeEventAnnounce debug render udp fetch h p = (\<lambda>(f, rq).
     (let hash = hex_string h; protocol = getProtocol f;
          err = (if protocol = protocol_udp then udp f rq else doHTTPEventRequest render fetch f rq)
      in (if debug then [plain_record LevelDebug (''Forwarding '' @ protocol @ '' '' @ rq_event rq
              @ '' event for '' @ hash @ '' (peer '' @ hex_string p @ '') to '' @ f_uri f)] else [])
         @ (case err of
              Some e \<Rightarrow> [plain_record LevelError (''Error forwarding '' @ rq_event rq @ '' event for ''
                           @ hash @ '' to '' @ f_uri f @ '': '' @ error_string e)]
            | None \<Rightarrow> (if debug then [plain_record LevelDebug (''Successfully forwarded '' @ rq_event rq
                           @ '' event for '' @ hash @ '' to '' @ f_uri f)] else []))))"

section \<open>Saved answers\<close>

text \<open>A file that could be created: its name, and what writing the two parts gave.\<close>

record temp_file =
  tf_name :: string
  tf_meta :: "string option"
  tf_payload :: "string option"

text \<open>The name is empty when nothing was created; then what the file holds: only a file that was written
  to its end has known contents.\<close>

definition SaveBencodeFromForwarder ::
  "(string \<Rightarrow> string + temp_file) \<Rightarrow> bytes \<Rightarrow> string \<Rightarrow> string \<Rightarrow> string \<times> bytes option" where
  "SaveBencodeFromForwarder create_temp payload hash uri =
     (case create_temp (hash @ ''_'') of
        Inl e \<Rightarrow> ([], None)
      | Inr f \<Rightarrow>
          (if tf_meta f \<noteq> None then (tf_name f, None)
           else if tf_payload f \<noteq> None then (tf_name f, None)
           else (tf_name f, Some (hash @ nl @ uri @ nl @ payload))))"

definition printable :: "char \<Rightarrow> bool" where
  "printable b \<longleftrightarrow> (32 \<le> byte_val b \<and> byte_val b < 127) \<or> byte_val b \<in> {10, 13, 9}"

definition is_text :: "bytes \<Rightarrow> bool" where
  "is_text payload \<longleftrightarrow>
     payload = [] \<or> f64 (8 / 10) \<le>
       f64 (f64 (of_nat (length (filter printable payload))) / f64 (of_nat (length payload)))"

definition truncated :: "bytes \<Rightarrow> string" where
  "truncated payload = (if length payload > 500 then take 500 payload @ ''... (truncated)'' else payload)"

definition logParseError ::
  "(string \<Rightarrow> string + temp_file) \<Rightarrow> bytes \<Rightarrow> string \<Rightarrow> string \<Rightarrow> go_error \<Rightarrow> log_record list" where
  "logParseError create_temp payload hash uri err =
     [plain_record LevelError (''Failed to parse response: '' @ error_string err)]
     @ (if is_text payload
        then [plain_record LevelError (''Raw response data: '' @ truncated payload)]
        else [plain_record LevelError (''Response is binary ('' @ itoa (int (length payload)) @ '' bytes)'')])
     @ (let name = fst (SaveBencodeFromForwarder create_temp payload hash uri)
        in if name \<noteq> [] then [plain_record LevelError (''Response saved to: '' @ name)] else [])"

section \<open>The directory\<close>

record dir_entry =
  de_name :: string
  de_is_dir :: bool
  de_modified :: "string + gotime"
  de_remove :: "string option"

text \<open>\<open>cleanExpired\<close>: the entries that stay, and the errors it logs.\<close>

fun clean_entries :: "gotime \<Rightarrow> dir_entry list \<Rightarrow> dir_entry list \<times> string list" where
  "clean_entries deadline [] = ([], [])"
| "clean_entries deadline (e # es) =
     (case clean_entries deadline es of
        (rest, errors) \<Rightarrow>
          (if de_is_dir e then (e # rest, errors)
           else case de_modified e of
             Inl err \<Rightarrow> (e # rest, err # errors)
           | Inr t \<Rightarrow>
               (if t < deadline
                then (case de_remove e of
                        Some err \<Rightarrow> (e # rest, err # errors)
                      | None \<Rightarrow> (rest, errors))
                else (e # rest, errors))))"

definition cleanExpired ::
  "(gotime \<Rightarrow> gotime) \<Rightarrow> gotime \<Rightarrow> string option \<Rightarrow> dir_entry list \<Rightarrow> dir_entry list \<times> string list" where
  "cleanExpired day_before now unreadable es =
     (case unreadable of
        Some err \<Rightarrow> (es, [err])
      | None \<Rightarrow> clean_entries (day_before now) es)"

text \<open>\<open>cleanRoutine\<close> cleans at once and then at every tick until it is stopped; the booleans say whether
  the context is cancelled at the head of each round.\<close>

fun cleanRoutine ::
  "(gotime \<Rightarrow> gotime) \<Rightarrow> (bool \<times> gotime \<times> string option) list \<Rightarrow> dir_entry list \<Rightarrow> dir_entry list \<times> string list" where
  "cleanRoutine day_before [] es = (es, [])"
| "cleanRoutine day_before ((stopped, now, unreadable) # rounds) es =
     (if stopped then (es, [])
      else case cleanExpired day_before now unreadable es of
        (es', errors) \<Rightarrow>
          (case cleanRoutine day_before rounds es' of (es'', more_errors) \<Rightarrow> (es'', errors @ more_errors)))"

record temp_storage =
  tp_path :: string
  tp_tasks :: tasks

text \<open>\<open>path.Join(os.TempDir(), "retracker")\<close> is the parameter \<open>default_path\<close>; the last argument is the
  outcome of creating the directory.\<close>

definition NewTempStorage :: "string \<Rightarrow> string \<Rightarrow> string option \<Rightarrow> temp_storage \<times> string option" where
  "NewTempStorage default_path path mkdir =
     (let ts = \<lparr>tp_path = (if path = [] then default_path else path), tp_tasks = newBackgroundTasks\<rparr>
      in case mkdir of
           Some e \<Rightarrow> (ts\<lparr>tp_tasks := tasks_stop (tp_tasks ts)\<rparr>, Some e)
         | None \<Rightarrow> (ts\<lparr>tp_tasks := fst (tasks_begin (tp_tasks ts))\<rparr>, None))"

definition temp_Close :: "temp_storage \<Rightarrow> temp_storage" where
  "temp_Close ts = ts\<lparr>tp_tasks := tasks_stop (tp_tasks ts)\<rparr>"

section \<open>What is cleaned and what is logged\<close>

definition expired_entry :: "gotime \<Rightarrow> dir_entry \<Rightarrow> bool" where
  "expired_entry deadline e \<longleftrightarrow> \<not> de_is_dir e \<and> (\<exists>t. de_modified e = Inr t \<and> t < deadline)"

lemma clean_entries_kept:
  "fst (clean_entries deadline es) = filter (\<lambda>e. \<not> (expired_entry deadline e \<and> de_remove e = None)) es"
  by (induction es) (auto simp: expired_entry_def split: prod.splits sum.splits option.splits)

lemma cleanRoutine_subset: "set (fst (cleanRoutine day_before rounds es)) \<subseteq> set es"
proof (induction rounds arbitrary: es)
  case (Cons x rounds)
  obtain stopped now u where x: "x = (stopped, now, u)" by (cases x)
  have "set (fst (cleanExpired day_before now u es)) \<subseteq> set es"
    by (auto simp: cleanExpired_def clean_entries_kept split: option.splits)
  with Cons [of "fst (cleanExpired day_before now u es)"] show ?case
    by (auto simp: x split: prod.splits)
qed simp

lemma truncated_length: "length (truncated payload) \<le> 515"
  by (auto simp: truncated_def)

end
