(* ===== verification/Metrics.thy ===== *)
theory Metrics
  imports StatsText
begin

text \<open>
  \<open>internal/observability/prometheus.go\<close> and the update of the metrics in forwarderManager.go. The metrics
  library is not part of the program: what a gauge and a vector of gauges are, and how they are set, are
  the parameters \<open>gset\<close>, \<open>vreset\<close> and \<open>vset\<close>. The locale \<open>gauge_vector\<close> states what the library documents
  of a vector: a reset deletes every label set, and setting a label set concerns only that one.
\<close>

section \<open>The metrics\<close>

record ('g, 'v) prometheus =
  pm_queue_depth :: 'g
  pm_queue_capacity :: 'g
  pm_queue_fill :: 'g
  pm_workers :: 'g
  pm_disabled :: 'g
  pm_suspended :: 'g
  pm_disabled_info :: 'v
  pm_disabled_failures :: 'v
  pm_disabled_since :: 'v
  pm_suspended_info :: 'v
  pm_suspended_remain :: 'v

text \<open>The metrics, with the name and the labels that \<open>NewPrometheus\<close> gives to each. The field \<open>RateLimited\<close> is
  \<open>RateLimitedInitial\<close> here, for the other name is an error class.\<close>

datatype metric =
    Requests | ForwarderStatus | QueueDepth | QueueCapacity | QueueFillPct | DroppedFull | RateLimitedInitial | Throttled
  | WorkerCount | DisabledForwarders | SuspendedForwarders | DisabledForwarderInfo | DisabledForwarderFailureCount
  | DisabledForwarderSecondsSince | SuspendedForwarderInfo | SuspendedForwarderSecondsRemain

definition forwarderNameLabel :: string where
  "forwarderNameLabel = ''name''"

fun descriptor :: "metric \<Rightarrow> string \<times> string list" where
  "descriptor Requests = (''requests'', [])"
| "descriptor ForwarderStatus = (''forwarder_status'', [forwarderNameLabel, ''status''])"
| "descriptor QueueDepth = (''queue_depth'', [])"
| "descriptor QueueCapacity = (''queue_capacity'', [])"
| "descriptor QueueFillPct = (''queue_fill_pct'', [])"
| "descriptor DroppedFull = (''queue_dropped_full'', [])"
| "descriptor RateLimitedInitial = (''queue_rate_limited'', [])"
| "descriptor Throttled = (''queue_throttled_forwarders'', [])"
| "descriptor WorkerCount = (''forwarder_workers'', [])"
| "descriptor DisabledForwarders = (''forwarders_disabled'', [])"
| "descriptor SuspendedForwarders = (''forwarders_suspended'', [])"
| "descriptor DisabledForwarderInfo = (''forwarder_disabled'', [forwarderNameLabel, ''reason''])"
| "descriptor DisabledForwarderFailureCount = (''forwarder_disabled_failure_count'', [forwarderNameLabel])"
| "descriptor DisabledForwarderSecondsSince = (''forwarder_disabled_seconds_since'', [forwarderNameLabel])"
| "descriptor SuspendedForwarderInfo = (''forwarder_suspended'', [forwarderNameLabel, ''reason''])"
| "descriptor SuspendedForwarderSecondsRemain = (''forwarder_suspended_seconds_remaining'', [forwarderNameLabel])"

text \<open>They are one collector: what it describes, and what it collects from values, is appended to a channel.\<close>

definition collectors :: "metric list" where
  "collectors =
     [Requests, ForwarderStatus, QueueDepth, QueueCapacity, QueueFillPct, DroppedFull, RateLimitedInitial, Throttled,
      WorkerCount, DisabledForwarders, SuspendedForwarders, DisabledForwarderInfo, DisabledForwarderFailureCount,
      DisabledForwarderSecondsSince, SuspendedForwarderInfo, SuspendedForwarderSecondsRemain]"

definition Describe :: "(string \<times> string list) list \<Rightarrow> (string \<times> string list) list" where
  "Describe ch = fold (\<lambda>m ch. ch @ [descriptor m]) collectors ch"

definition Collect_metrics :: "(metric \<Rightarrow> 'm list) \<Rightarrow> 'm list \<Rightarrow> 'm list" where
  "Collect_metrics values ch = fold (\<lambda>m ch. ch @ values m) collectors ch"

text \<open>The registry asks for the descriptions and takes all of the metrics or none; its answer is an argument.\<close>

definition NewPrometheus :: "((string \<times> string list) list \<Rightarrow> string option) \<Rightarrow> string + metric list" where
  "NewPrometheus register =
     (case register (Describe []) of
        Some e \<Rightarrow> Inl (''register tracker metrics: '' @ e)
      | None \<Rightarrow> Inr collectors)"

text \<open>No metric is forgotten in the list and none is in it twice; the names are different, so that the registry
  can keep them apart.\<close>

lemma collectors_complete: "set collectors = UNIV" "distinct collectors" "inj (fst \<circ> descriptor)"
proof -
  have "m \<in> set collectors" for m by (cases m) (simp_all add: collectors_def)
  then show all: "set collectors = UNIV" by blast
  have names: "distinct (map (fst \<circ> descriptor) collectors)" by (simp add: collectors_def)
  then show "distinct collectors" by (simp add: distinct_map)
  from names show "inj (fst \<circ> descriptor)" by (simp add: distinct_map all)
qed

lemma Collect_complete: "set (Collect_metrics values []) = (\<Union>m. set (values m))"
proof -
  have "set (fold (\<lambda>m ch. ch @ values m) ms ch) = set ch \<union> (\<Union>m \<in> set ms. set (values m))" for ms ch
    by (induction ms arbitrary: ch) auto
  then show ?thesis by (simp add: Collect_metrics_def collectors_complete)
qed

section \<open>The update\<close>

definition float_of :: "int \<Rightarrow> rat" where
  "float_of n = f64 (of_int n)"

fun update_disabled ::
  "(string list \<Rightarrow> rat \<Rightarrow> 'v \<Rightarrow> 'v) \<Rightarrow> disabled_info list \<Rightarrow> ('g, 'v) prometheus \<Rightarrow> ('g, 'v) prometheus" where
  "update_disabled vset [] pm = pm"
| "update_disabled vset (d # ds) pm =
     update_disabled vset ds
       (pm\<lparr>pm_disabled_info := vset [di_name d, di_reason d] 1 (pm_disabled_info pm),
           pm_disabled_failures := vset [di_name d] (float_of (di_failures d)) (pm_disabled_failures pm),
           pm_disabled_since := vset [di_name d] (float_of (di_seconds d)) (pm_disabled_since pm)\<rparr>)"

fun update_suspended ::
  "(string list \<Rightarrow> rat \<Rightarrow> 'v \<Rightarrow> 'v) \<Rightarrow> suspended_info list \<Rightarrow> ('g, 'v) prometheus \<Rightarrow> ('g, 'v) prometheus" where
  "update_suspended vset [] pm = pm"
| "update_suspended vset (d # ds) pm =
     update_suspended vset ds
       (pm\<lparr>pm_suspended_info := vset [si_name d, si_reason d] 1 (pm_suspended_info pm),
           pm_suspended_remain := vset [si_name d] (float_of (si_remaining d)) (pm_suspended_remain pm)\<rparr>)"

definition updatePrometheusQueue ::
  "(rat \<Rightarrow> 'g \<Rightarrow> 'g) \<Rightarrow> ('v \<Rightarrow> 'v) \<Rightarrow> (string list \<Rightarrow> rat \<Rightarrow> 'v \<Rightarrow> 'v) \<Rightarrow> stats \<Rightarrow>
   ('g, 'v) prometheus \<Rightarrow> ('g, 'v) prometheus" where
  "updatePrometheusQueue gset vreset vset s pm =
     (let pm1 = pm\<lparr>pm_queue_depth := gset (float_of (int (sx_depth s))) (pm_queue_depth pm),
                   pm_queue_capacity := gset (float_of (int (sx_capacity s))) (pm_queue_capacity pm),
                   pm_queue_fill := gset (float_of (sx_fill s)) (pm_queue_fill pm),
                   pm_workers := gset (float_of (sx_workers s)) (pm_workers pm),
                   pm_disabled := gset (float_of (int (sx_disabled s))) (pm_disabled pm),
                   pm_suspended := gset (float_of (int (sx_suspended s))) (pm_suspended pm)\<rparr>;
          pm2 = pm1\<lparr>pm_disabled_info := vreset (pm_disabled_info pm1),
                    pm_disabled_failures := vreset (pm_disabled_failures pm1),
                    pm_disabled_since := vreset (pm_disabled_since pm1)\<rparr>;
          pm3 = update_disabled vset (sx_disabled_details s) pm2;
          pm4 = pm3\<lparr>pm_suspended_info := vreset (pm_suspended_info pm3),
                    pm_suspended_remain := vreset (pm_suspended_remain pm3)\<rparr>
      in update_suspended vset (sx_suspended_details s) pm4)"

lemma update_disabled_fields:
  "pm_disabled_info (update_disabled vset ds pm) = fold (\<lambda>d. vset [di_name d, di_reason d] 1) ds (pm_disabled_info pm)"
  "pm_disabled_failures (update_disabled vset ds pm) =
     fold (\<lambda>d. vset [di_name d] (float_of (di_failures d))) ds (pm_disabled_failures pm)"
  "pm_disabled_since (update_disabled vset ds pm) =
     fold (\<lambda>d. vset [di_name d] (float_of (di_seconds d))) ds (pm_disabled_since pm)"
  "pm_suspended_info (update_disabled vset ds pm) = pm_suspended_info pm"
  "pm_suspended_remain (update_disabled vset ds pm) = pm_suspended_remain pm"
  by (induction ds arbitrary: pm) simp_all

lemma update_suspended_fields:
  "pm_suspended_info (update_suspended vset ds pm) = fold (\<lambda>d. vset [si_name d, si_reason d] 1) ds (pm_suspended_info pm)"
  "pm_suspended_remain (update_suspended vset ds pm) =
     fold (\<lambda>d. vset [si_name d] (float_of (si_remaining d))) ds (pm_suspended_remain pm)"
  "pm_disabled_info (update_suspended vset ds pm) = pm_disabled_info pm"
  "pm_disabled_failures (update_suspended vset ds pm) = pm_disabled_failures pm"
  "pm_disabled_since (update_suspended vset ds pm) = pm_disabled_since pm"
  by (induction ds arbitrary: pm) simp_all

lemma update_metrics_fields:
  "pm_disabled_info (updatePrometheusQueue gset vreset vset s pm) =
     fold (\<lambda>d. vset [di_name d, di_reason d] 1) (sx_disabled_details s) (vreset (pm_disabled_info pm))"
  "pm_disabled_failures (updatePrometheusQueue gset vreset vset s pm) =
     fold (\<lambda>d. vset [di_name d] (float_of (di_failures d))) (sx_disabled_details s) (vreset (pm_disabled_failures pm))"
  "pm_disabled_since (updatePrometheusQueue gset vreset vset s pm) =
     fold (\<lambda>d. vset [di_name d] (float_of (di_seconds d))) (sx_disabled_details s) (vreset (pm_disabled_since pm))"
  "pm_suspended_info (updatePrometheusQueue gset vreset vset s pm) =
     fold (\<lambda>d. vset [si_name d, si_reason d] 1) (sx_suspended_details s) (vreset (pm_suspended_info pm))"
  "pm_suspended_remain (updatePrometheusQueue gset vreset vset s pm) =
     fold (\<lambda>d. vset [si_name d] (float_of (si_remaining d))) (sx_suspended_details s) (vreset (pm_suspended_remain pm))"
  by (simp_all add: updatePrometheusQueue_def Let_def update_disabled_fields update_suspended_fields)

section \<open>Vectors of gauges\<close>

locale gauge_vector =
  fixes vreset :: "'v \<Rightarrow> 'v" and vset :: "string list \<Rightarrow> rat \<Rightarrow> 'v \<Rightarrow> 'v" and vread :: "'v \<Rightarrow> string list \<Rightarrow> rat option"
  assumes read_reset: "vread (vreset v) l = None"
    and read_set: "vread (vset l x v) l' = (if l = l' then Some x else vread v l')"
begin

text \<open>A vector that is filled from a list holds a label set's last value, and nothing for the others.\<close>

lemma read_fold: "vread (fold (\<lambda>d. vset (lab d) (val d)) ds v) l =
    (case map_of (rev (map (\<lambda>d. (lab d, val d)) ds)) l of Some x \<Rightarrow> Some x | None \<Rightarrow> vread v l)"
proof (induction ds arbitrary: v)
  case (Cons d ds)
  then show ?case by (auto simp: read_set map_add_def split: option.splits)
qed simp

lemma read_refilled: "vread (fold (\<lambda>d. vset (lab d) (val d)) ds (vreset v)) l =
    map_of (rev (map (\<lambda>d. (lab d, val d)) ds)) l"
  by (simp add: read_fold read_reset split: option.splits)

lemma read_constant: "vread (fold (\<lambda>d. vset (lab d) 1) ds (vreset v)) l = (if l \<in> lab ` set ds then Some 1 else None)"
proof -
  have "map_of (rev (map (\<lambda>d. (lab d, 1 :: rat)) ds)) l = (if l \<in> lab ` set ds then Some 1 else None)"
  proof (cases "l \<in> lab ` set ds")
    case True
    then have "map_of (rev (map (\<lambda>d. (lab d, 1 :: rat)) ds)) l \<noteq> None"
      by (auto simp: map_of_eq_None_iff image_iff)
    then obtain x where x: "map_of (rev (map (\<lambda>d. (lab d, 1 :: rat)) ds)) l = Some x" by blast
    from map_of_SomeD [OF this] have "x = 1" by auto
    with x True show ?thesis by simp
  next
    case False
    then have "map_of (rev (map (\<lambda>d. (lab d, 1 :: rat)) ds)) l = None"
      by (auto simp: map_of_eq_None_iff image_iff)
    with False show ?thesis by simp
  qed
  then show ?thesis by (simp add: read_refilled)
qed

lemma read_distinct:
  assumes "distinct (map lab ds)" "d \<in> set ds"
  shows "vread (fold (\<lambda>d. vset (lab d) (val d)) ds (vreset v)) (lab d) = Some (val d)"
proof -
  have "map fst (rev (map (\<lambda>d. (lab d, val d)) ds)) = rev (map lab ds)" by (simp add: rev_map comp_def)
  then have "distinct (map fst (rev (map (\<lambda>d. (lab d, val d)) ds)))" using assms(1) by simp
  moreover have "(lab d, val d) \<in> set (rev (map (\<lambda>d. (lab d, val d)) ds))" using assms(2) by auto
  ultimately show ?thesis by (simp only: read_refilled map_of_is_SomeI)
qed

end

text \<open>The maps of the model are such vectors.\<close>

interpretation gv: gauge_vector "\<lambda>_. []" gm_put gm_get
  by unfold_locales auto

section \<open>The statistics routine\<close>

text \<open>\<open>printStats\<close>, what a tick of \<open>statsRoutine\<close> does: the metrics are brought up to date and one record
  is logged for each counter. The statistics are collected twice.\<close>

definition printStats ::
  "(stats \<Rightarrow> ('g, 'v) prometheus \<Rightarrow> ('g, 'v) prometheus) \<Rightarrow> gotime \<Rightarrow> config \<Rightarrow> fwd_storage \<Rightarrow> storage \<Rightarrow>
   fmgr \<Rightarrow> ('g, 'v) prometheus option \<Rightarrow> fmgr \<times> ('g, 'v) prometheus option \<times> (string \<times> int) list" where
  "printStats update now cfg fs st fm pm =
     (case forwarderStatsProvider now cfg fs st fm of
        (fm1, full) \<Rightarrow>
          (case forwarderStatsProvider now cfg fs st fm1 of
             (fm2, simple) \<Rightarrow>
               (fm2, map_option (update (CollectStats full)) pm, printStats_records (CollectSimpleStats simple))))"

end
