(* ===== verification/ServiceTheorems.thy ===== *)
theory ServiceTheorems
  imports HttpServer Lifecycle Diagnostics Metrics Examples
begin

text \<open>
  The tracker as a service: its HTTP routes, the order of opening and releasing, the worker pool, the UDP
  receiver's life, the metrics and the diagnostic files.
\<close>

section \<open>HTTP\<close>

text \<open>C7. The HTTP server only does to the tracker what its handlers do. From a reachable state every request
  leads to a reachable state again, so all invariants hold while it serves. Only announces (at their own
  path, or at the root when the request names port 6969), the statistics and the addition of forwarders
  can change anything; the scrape, the other root requests, unknown paths and redirects change nothing.\<close>

theorem web_requests:
  assumes "reachable cfg s" "permutes (wb_shuffle w)"
    and "serve_request w now q (sy_core s) = (co', answer)"
  shows "reachable cfg (s\<lparr>sy_core := co'\<rparr>)
    \<and> (co' = sy_core s
       \<or> (\<not> hq_star q \<and> (match_segments (hq_path q) \<in> {[''announce''], [''stats''], [''add-forwarder'']}
            \<or> (match_segments (hq_path q) = [''/'']
                 \<and> map_option snd (split_host_port (hq_host q)) = Some ''6969''))))"
proof
  show "reachable cfg (s\<lparr>sy_core := co'\<rparr>)" by (rule serve_request_reachable [OF assms])
  show "co' = sy_core s
       \<or> (\<not> hq_star q \<and> (match_segments (hq_path q) \<in> {[''announce''], [''stats''], [''add-forwarder'']}
            \<or> (match_segments (hq_path q) = [''/'']
                 \<and> map_option snd (split_host_port (hq_host q)) = Some ''6969'')))"
    using assms(3)
    by (auto simp: serve_request_def find_route_def newMux_def serve_route_def root_handler_def Let_def
        split: mux_result.splits if_splits option.splits prod.splits root_action.splits)
qed

definition example_web :: web where
  "example_web = \<lparr>wb_bencode = \<lambda>_ r. Inr (rs_failure r), wb_bencode_scrape = \<lambda>_. Inr [], wb_err_text = \<lambda>_. ''bad'',
     wb_json = \<lambda>_. Inl ''no encoder'', wb_rfc3339 = \<lambda>_. [], wb_lookup = \<lambda>_. Inl ''no such host'', wb_shuffle = id,
     wb_favicon = [], wb_metrics = []\<rparr>"

definition example_http :: "string \<Rightarrow> string \<Rightarrow> http_request" where
  "example_http path host = \<lparr>hq_method = ''GET'', hq_star = False, hq_path = path, hq_query = ''port=6881'',
     hq_host = host, hq_remote = ''10.0.0.1:999'', hq_real_ip = [], hq_agent = [], hq_body = JsonEOF,
     hq_trailing = JsonEOF\<rparr>"

lemma example_routes:
  "find_route (newMux False) (example_http ''/%73tats'' []) = Matched StatsRoute"
  "find_route (newMux False) (example_http ''/x/../announce'' []) = MovedTo ''/announce''"
  "find_route (newMux False) (example_http ''/metrics'' []) = NoRoute"
  "root_handler ''[::1]:6969'' = RootAnnounce" "root_handler ''tracker.example.org'' = RootAlive"
  by code_simp+

lemma web_requests_witness:
  "reachable example_config (example_state\<lparr>sy_core := fst (serve_request example_web (example_now + hour)
      (example_http ''/'' ''[::1]:6969'') (sy_core example_state))\<rparr>)"
proof -
  obtain co' answer where e: "serve_request example_web (example_now + hour)
      (example_http ''/'' ''[::1]:6969'') (sy_core example_state) = (co', answer)" by fastforce
  have "permutes (wb_shuffle example_web)" by (simp add: example_web_def permutes_id)
  from web_requests [OF example_reachable this e] show ?thesis by (simp add: e)
qed

text \<open>A redirect leads to a path that is not redirected again, so a client that follows it gets an answer.\<close>

theorem redirected_once:
  assumes "find_route mux q = MovedTo p"
  shows "p = cleanPath (hq_path q) \<and> (\<forall>p'. find_route mux (q\<lparr>hq_path := p\<rparr>) \<noteq> MovedTo p')"
  using assms by (auto simp: find_route_def Let_def cleanPath_idem split: if_splits option.splits)

section \<open>Running\<close>

text \<open>C38. However a run ends, at a failed listen, a failed set-up, a failing server or a cancellation, everything
  it opened is released, each resource once and in the reverse of the order of opening; it serves only
  while the listener, the temporary files and the tracker are open, after the UDP socket and the metrics
  are in place if they are configured and the tracker has started; and a run without error was either
  cancelled or has served.\<close>

theorem run_releases:
  assumes "run env cfg = (events, errors)"
  shows "open_after events [] = Some []
    \<and> (\<forall>front after. events = front @ ServingHttp # after \<longrightarrow>
         open_after front [] = Some [Tracker, TempFiles, HttpListener] \<and> TrackerStarted \<in> set front
         \<and> (cf_udp_listen cfg \<noteq> [] \<longrightarrow> UdpListening \<in> set front)
         \<and> (cf_prometheus_enabled cfg \<longrightarrow> MetricsOn \<in> set front)
         \<and> errors = serve (ru_serve env))
    \<and> (errors = [] \<longrightarrow> ru_canceled env \<or> ServingHttp \<in> set events)"
proof (intro conjI allI impI)
  have e: "events = fst (run env cfg)" "errors = snd (run env cfg)" by (simp_all add: assms)
  show "open_after events [] = Some []" unfolding e by (rule run_nested)
  {
    fix front after assume "events = front @ ServingHttp # after"
    then have "fst (run env cfg) = front @ ServingHttp # after" by (simp add: e)
    note s = run_serving [OF this]
    show "open_after front [] = Some [Tracker, TempFiles, HttpListener]" "TrackerStarted \<in> set front"
      "errors = serve (ru_serve env)"
      using s by (simp_all add: e)
    show "UdpListening \<in> set front" if "cf_udp_listen cfg \<noteq> []" using s that by simp
    show "MetricsOn \<in> set front" if "cf_prometheus_enabled cfg" using s that by simp
  }
  show "ru_canceled env \<or> ServingHttp \<in> set events" if "errors = []"
    using that unfolding e
    by (auto simp: run_def run_core_def with_resource_def Let_def split: option.splits if_splits)
qed

definition example_run :: run_env where
  "example_run = \<lparr>ru_canceled = False, ru_listen = None, ru_temp = None, ru_metrics = None,
     ru_udp = None, ru_serve = Canceled [''drain timeout''] [] ServerClosed\<rparr>"

lemma run_releases_witness:
  "run example_run (defaultConfig\<lparr>cf_udp_listen := ''[::]:6969'', cf_prometheus_enabled := False\<rparr>) =
     ([Opened HttpListener, Opened TempFiles, Opened Tracker, UdpListening, TrackerStarted, ServingHttp,
       Closed Tracker, Closed TempFiles, Closed HttpListener], [''drain timeout''])
    \<and> open_after [Opened HttpListener, Opened TempFiles, Opened Tracker, UdpListening, TrackerStarted, ServingHttp,
       Closed Tracker, Closed TempFiles, Closed HttpListener] [] = Some []"
proof -
  have r: "run example_run (defaultConfig\<lparr>cf_udp_listen := ''[::]:6969'', cf_prometheus_enabled := False\<rparr>) =
     ([Opened HttpListener, Opened TempFiles, Opened Tracker, UdpListening, TrackerStarted, ServingHttp,
       Closed Tracker, Closed TempFiles, Closed HttpListener], [''drain timeout''])"
    by code_simp
  from run_releases [OF r] r show ?thesis by blast
qed

section \<open>The worker pool\<close>

text \<open>C16. The manager's count of workers is the number of goroutines that work. From the start until
  stopping begins, whatever ticks of the scaling loop and signals to leave come in between, as many
  workers run as the count says, never fewer than configured and never more than the larger of the
  configured number and the maximum, beside exactly one scaling loop and one scheduler and the statistics
  loop if it is configured. A second start, or a start after the stop, starts nothing; the goroutines can
  end in any order, and the stop's wait returns after the last of them and not before.\<close>

theorem worker_pool:
  assumes "NewForwarderManager (lookup_ip :: string \<Rightarrow> 'e + net_ip list) now cfg fs0 = (fm, fs)"
    and "0 \<le> cf_forwarder_workers cfg" and "pool_reachable fm p"
  shows "(po_started p \<and> \<not> isStopping p \<longrightarrow>
        int (count_list (po_running p) Worker) = fm_worker_count (po_manager p)
        \<and> cf_forwarder_workers cfg \<le> fm_worker_count (po_manager p)
        \<and> fm_worker_count (po_manager p) \<le> max (cf_forwarder_workers cfg) (fm_max_workers fm)
        \<and> count_list (po_running p) ScaleLoop = 1 \<and> count_list (po_running p) SchedulerLoop = 1
        \<and> count_list (po_running p) StatsLoop = (if 0 < cf_stats_interval cfg then 1 else 0))
    \<and> (po_started p \<or> isStopping p \<longrightarrow> po_running (fm_Start p) = po_running p)
    \<and> (\<forall>rs. mset rs = mset (po_running p) \<longrightarrow>
         (\<exists>p'. end_all routine_ends rs p = Some p' \<and> po_running p' = [] \<and> wait_returns (po_tasks p')))
    \<and> (\<forall>rs p'. mset rs \<subset># mset (po_running p) \<longrightarrow> end_all routine_ends rs p = Some p' \<longrightarrow>
         \<not> wait_returns (po_tasks p'))"
proof -
  have fm: "fm_base_workers fm = cf_forwarder_workers cfg" "fm_worker_count fm = cf_forwarder_workers cfg"
    "fm_config fm = cfg"
    by (simp_all add: new_manager_workers [OF assms(1)])
  have inv: "pool_inv fm p" using pool_reachable_inv [OF _ _ assms(3)] assms(2) fm by simp
  have wg: "ts_wg (po_tasks p) = length (po_running p)" "ts_canceled (po_tasks p) = ts_stopped (po_tasks p)"
    using inv by (simp_all add: pool_inv_def Let_def)
  have "po_running (fm_Start p) = po_running p" if "po_started p \<or> isStopping p"
    using that by (auto simp: fm_Start_def isStopping_def Let_def)
  moreover have "po_started p \<and> \<not> isStopping p \<longrightarrow>
      int (count_list (po_running p) Worker) = fm_worker_count (po_manager p)
      \<and> cf_forwarder_workers cfg \<le> fm_worker_count (po_manager p)
      \<and> fm_worker_count (po_manager p) \<le> max (cf_forwarder_workers cfg) (fm_max_workers fm)
      \<and> count_list (po_running p) ScaleLoop = 1 \<and> count_list (po_running p) SchedulerLoop = 1
      \<and> count_list (po_running p) StatsLoop = (if 0 < cf_stats_interval cfg then 1 else 0)"
    using inv fm wg(2) unfolding pool_inv_def Let_def isStopping_def by auto
  ultimately show ?thesis using po.any_order [OF wg(1)] po.not_before [OF wg(1)] by blast
qed

definition example_fresh :: "fmgr \<times> fwd_storage" where
  "example_fresh = NewForwarderManager (\<lambda>_. Inl ''no such host'' :: string + net_ip list) example_now example_config
     NewForwarderStorage"

definition example_pool :: pool where
  "example_pool = scale_pool (fm_Start (new_pool (fst example_fresh)))"

lemma example_pool_workers: "po_started example_pool \<and> \<not> isStopping example_pool \<and> 0 \<le> cf_forwarder_workers example_config
    \<and> ScaleLoop \<in> set (po_running (fm_Start (new_pool (fst example_fresh))))"
  by code_simp

lemma worker_pool_witness:
  "int (count_list (po_running example_pool) Worker) = fm_worker_count (po_manager example_pool)
    \<and> cf_forwarder_workers example_config \<le> fm_worker_count (po_manager example_pool)"
proof -
  obtain fm fs where e: "example_fresh = (fm, fs)" by (cases example_fresh)
  have "pool_reachable (fst example_fresh) (fm_Start (new_pool (fst example_fresh)))"
    by (rule pool_reachable.move [OF pool_reachable.fresh pool_step.start])
  then have "pool_reachable fm example_pool"
    unfolding example_pool_def using example_pool_workers by (auto simp: e intro: pool_reachable.move pool_step.scale_tick)
  from worker_pool [OF e [unfolded example_fresh_def] _ this] example_pool_workers show ?thesis by blast
qed

section \<open>The UDP receiver\<close>

text \<open>At most one socket is ever opened, with one reader at most and, until the close, exactly one cleaner. A
  datagram's goroutine is only added while the reader runs, so never after the close has stopped waiting. After
  the close the goroutines can end in any order, the wait returns after the last and not before, and nothing
  starts again.\<close>

theorem udp_receiver_life:
  assumes "udp_life_reachable ul"
  shows "ul_wg ul = length (ul_running ul) \<and> count_list (ul_running ul) PacketReader \<le> 1
    \<and> (ul_socket ul \<and> \<not> ul_closed ul \<longrightarrow> count_list (ul_running ul) ConnectionCleaner = 1)
    \<and> (ul_closed ul \<longrightarrow>
         (\<forall>resolve listen. udp_Start resolve listen ul = (ul, Some ''UDP receiver already started''))
         \<and> (\<forall>rs. mset rs = mset (ul_running ul) \<longrightarrow> (\<exists>ul'. end_all udp_routine_ends rs ul = Some ul' \<and> ul_wg ul' = 0))
         \<and> (\<forall>rs ul'. mset rs \<subset># mset (ul_running ul) \<longrightarrow> end_all udp_routine_ends rs ul = Some ul' \<longrightarrow> ul_wg ul' \<noteq> 0)
         \<and> (ul_wg ul = 0 \<longrightarrow> (\<forall>ul'. udp_life_step ul ul' \<longrightarrow> ul' = ul)))
    \<and> udp_Close (fst (udp_Close ul)) = (fst (udp_Close ul), False)"
proof -
  have inv: "udp_life_inv ul" by (rule udp_life_invariant [OF assms])
  have group: "ul_stop ul \<and> ul_wg ul = length (ul_running ul)" if "ul_closed ul"
    using inv that by (simp add: udp_life_inv_def)
  have still: "ul' = ul" if "ul_closed ul" "ul_wg ul = 0" "udp_life_step ul ul'" for ul'
    using that(3) inv that(1,2)
    by cases (auto simp: udp_life_inv_def udp_Start_def udp_Close_def udp_routine_ends_def split: if_splits)
  have order: "\<forall>rs. mset rs = mset (ul_running ul) \<longrightarrow> (\<exists>ul'. end_all udp_routine_ends rs ul = Some ul' \<and> ul_wg ul' = 0)"
    if "ul_closed ul"
    using ul.any_order [OF group [OF that]] by blast
  have waits: "\<forall>rs ul'. mset rs \<subset># mset (ul_running ul) \<longrightarrow> end_all udp_routine_ends rs ul = Some ul' \<longrightarrow> ul_wg ul' \<noteq> 0"
    if "ul_closed ul"
    using ul.not_before [OF group [OF that]] by blast
  have once: "udp_Start resolve listen ul = (ul, Some ''UDP receiver already started'')" if "ul_closed ul" for resolve listen
    using inv that by (auto simp: udp_life_inv_def udp_Start_def)
  have close: "udp_Close (fst (udp_Close ul)) = (fst (udp_Close ul), False)"
    by (simp add: udp_Close_def)
  show ?thesis
    using inv order waits still once close unfolding udp_life_inv_def by blast
qed

section \<open>Metrics\<close>

text \<open>After an update the labelled metrics describe exactly the upstreams that are disabled or suspended at
  the moment: a marker for the name and reason of each, its counts under its name, and no label of an
  upstream that is not among them any more.\<close>

theorem metrics_current:
  assumes "gauge_vector vreset vset vread"
    and "pm' = updatePrometheusQueue gset vreset vset s pm"
    and "distinct (map di_name (sx_disabled_details s))" "distinct (map si_name (sx_suspended_details s))"
  shows "(\<forall>l. vread (pm_disabled_info pm') l =
        (if l \<in> (\<lambda>d. [di_name d, di_reason d]) ` set (sx_disabled_details s) then Some 1 else None))
    \<and> (\<forall>d \<in> set (sx_disabled_details s).
         vread (pm_disabled_failures pm') [di_name d] = Some (float_of (di_failures d))
         \<and> vread (pm_disabled_since pm') [di_name d] = Some (float_of (di_seconds d)))
    \<and> (\<forall>l. vread (pm_suspended_info pm') l =
        (if l \<in> (\<lambda>d. [si_name d, si_reason d]) ` set (sx_suspended_details s) then Some 1 else None))
    \<and> (\<forall>d \<in> set (sx_suspended_details s).
         vread (pm_suspended_remain pm') [si_name d] = Some (float_of (si_remaining d)))"
proof -
  have d: "distinct (map (\<lambda>d. [di_name d]) (sx_disabled_details s))"
    "distinct (map (\<lambda>d. [si_name d]) (sx_suspended_details s))"
    using assms(3,4) by (simp_all add: distinct_map inj_on_def)
  show ?thesis
    unfolding assms(2) update_metrics_fields gauge_vector.read_constant [OF assms(1)]
    using gauge_vector.read_distinct [OF assms(1) d(1)] gauge_vector.read_distinct [OF assms(1) d(2)] by simp
qed

section \<open>Diagnostic files\<close>

text \<open>A clean-up of a readable directory removes exactly the files that are older than a day and can be
  removed; directories, files that are younger and files whose age is unknown stay, in their order. The
  routine never adds an entry, whatever happens in between.\<close>

theorem expired_files:
  "cleanExpired day_before now None es = (kept, errors) \<Longrightarrow>
     kept = filter (\<lambda>e. \<not> (expired_entry (day_before now) e \<and> de_remove e = None)) es
     \<and> set (fst (cleanRoutine day_before rounds es)) \<subseteq> set es"
  using clean_entries_kept [of "day_before now" es] cleanRoutine_subset by (simp add: cleanExpired_def)

end
