(* ===== verification/Registry.thy ===== *)
theory Registry
  imports Examples
begin

text \<open>
  What the tracker promises about its clients, as a specification of its own: a registry maps a torrent
  and a peer to the last announce, and each event of a client or of the clock determines the next registry.
  The system refines it step by step: the local store with its two-level maps, sessions and cache, behind two
  receivers, a queue and a shutdown, does with every labelled step what the event of that step prescribes,
  and the store of any run is what the specification computes from the run's events.
\<close>

section \<open>The specification\<close>

type_synonym registry = "info_hash \<times> peer_id \<Rightarrow> request option"

datatype registry_event =
    Joins request
  | Leaves info_hash peer_id
  | Expires gotime
  | Quiet

text \<open>A client joins or renews its entry, leaves, or is dropped with all others that have been silent for
  longer than the age (in minutes).\<close>

fun registry_next :: "rat \<Rightarrow> registry_event \<Rightarrow> registry \<Rightarrow> registry" where
  "registry_next age (Joins r) m = m((rq_hash r, rq_peer_id r) \<mapsto> r)"
| "registry_next age (Leaves h p) m = m((h, p) := None)"
| "registry_next age (Expires now) m =
     (\<lambda>k. case m k of None \<Rightarrow> None | Some r \<Rightarrow> if timeStampDelta now r > age then None else Some r)"
| "registry_next age Quiet m = m"

section \<open>The event of a step\<close>

text \<open>An announce that is not acceptable is no event. The announce of a datagram is read at its fixed
  offsets, from a datagram that is long enough and comes with a known connection id.\<close>

definition announce_event :: "request_error + request \<Rightarrow> registry_event" where
  "announce_event res =
     (case res of
        Inl e \<Rightarrow> Quiet
      | Inr r \<Rightarrow> if rq_event r = ''stopped'' then Leaves (rq_hash r) (rq_peer_id r) else Joins r)"

definition event_name :: "u32 \<Rightarrow> string" where
  "event_name n = (if n = 1 then ''completed'' else if n = 2 then ''started'' else if n = 3 then ''stopped'' else [])"

definition packet_request :: "gotime \<Rightarrow> net_ip \<Rightarrow> bytes \<Rightarrow> request_error + request" where
  "packet_request now ip d =
     makeRequest now (ip_string ip) (bytes_at 16 20 d) (bytes_at 36 20 d) (itoa (uint (get_u16 (bytes_at 96 2 d))))
       (nat_digits (unat (get_u64 (bytes_at 72 8 d)))) (nat_digits (unat (get_u64 (bytes_at 56 8 d))))
       (nat_digits (unat (get_u64 (bytes_at 64 8 d))))
       (if get_u32 (bytes_at 84 4 d) = 0 then [] else ip_string (bytes_at 84 4 d))
       (itoa (sint (get_u32 (bytes_at 92 4 d)))) (event_name (get_u32 (bytes_at 80 4 d))) [] [] []"

definition packet_event :: "connections \<Rightarrow> gotime \<Rightarrow> net_ip \<Rightarrow> bytes \<Rightarrow> registry_event" where
  "packet_event cs now ip d =
     (if 98 \<le> length d \<and> get_u64 (bytes_at 0 8 d) \<noteq> udp_connect_magic \<and> gm_mem (get_u64 (bytes_at 0 8 d)) cs
         \<and> get_u32 (bytes_at 8 4 d) = udp_action_announce
      then announce_event (packet_request now ip d) else Quiet)"

fun client_event :: "system \<Rightarrow> sys_label \<Rightarrow> registry_event" where
  "client_event s (HttpAnnounce now remote xrealip ua get) =
     announce_event (makeRequest now (getRemoteAddr (tk_config (sy_tracker s)) remote xrealip) (get ''info_hash'')
       (get ''peer_id'') (get ''port'') (get ''uploaded'') (get ''downloaded'') (get ''left'') (get ''ip'')
       (get ''numwant'') (get ''event'') ua (get ''compact'') (get ''no_peer_id''))"
| "client_event s (UdpDatagram now data ip) = packet_event (co_connections (sy_core s)) now ip (take 4096 data)"
| "client_event s (PurgeTick now) = Expires now"
| "client_event s _ = Quiet"

section \<open>The store as a registry\<close>

definition registry_of :: "tracker \<Rightarrow> registry" where
  "registry_of tk = (\<lambda>(h, p). st_get (tk_storage tk) h p)"

definition same_registry :: "tracker \<Rightarrow> tracker \<Rightarrow> bool" where
  "same_registry tk tk' \<longleftrightarrow>
     st_requests (tk_storage tk') = st_requests (tk_storage tk) \<and> st_age (tk_storage tk') = st_age (tk_storage tk)"

lemma same_registry_refl [simp]: "same_registry tk tk"
  by (simp add: same_registry_def)

lemma same_registry_trans: "same_registry a b \<Longrightarrow> same_registry b c \<Longrightarrow> same_registry a c"
  by (simp add: same_registry_def)

lemma same_registry_of: "same_registry tk tk' \<Longrightarrow> registry_of tk' = registry_of tk"
  by (auto simp: same_registry_def registry_of_def st_get_def st_inner_def)

lemma same_registry_manager: "same_registry tk (tk\<lparr>tk_manager := m\<rparr>)"
  by (simp add: same_registry_def)

lemma same_registry_with_manager: "same_registry tk (with_manager f tk)"
  by (auto simp: with_manager_def same_registry_def split: option.splits prod.splits)

lemma same_registry_close: "same_registry tk (tk\<lparr>tk_storage := storage_close (tk_storage tk)\<rparr>)"
proof -
  have "st_requests (storage_close st) = st_requests st \<and> st_age (storage_close st) = st_age st" for st
    unfolding storage_close_def by (rule fold_keeps) (auto simp: end_session_def Let_def split: option.splits)
  then show ?thesis by (simp add: same_registry_def)
qed

lemma same_registry_stats: "same_registry tk (fst (stats_provider_of now tk))"
  by (auto simp: stats_provider_of_def Let_def same_registry_manager split: option.splits prod.splits)

lemma same_registry_ensure:
  "ensureForwarderManager lookup_ip now co = (co', r) \<Longrightarrow> same_registry (co_tracker co) (co_tracker co')"
  by (auto simp: ensureForwarderManager_def Let_def same_registry_def split: if_splits option.splits prod.splits)

lemma same_registry_add:
  assumes "HTTPAddForwarderHandler lookup_ip now meth raw first trailing co = (co', status, body)"
  shows "same_registry (co_tracker co) (co_tracker co')"
proof -
  obtain co1 r where e: "ensureForwarderManager lookup_ip now co = (co1, r)" by (metis surj_pair)
  have "co_tracker co' \<in> {co_tracker co, co_tracker co1} \<or> (\<exists>m. co_tracker co' = (co_tracker co1)\<lparr>tk_manager := m\<rparr>)"
    using assms unfolding HTTPAddForwarderHandler_def Let_def e
    by (auto split: if_splits sum.splits option.splits prod.splits)
  then show ?thesis
    using same_registry_ensure [OF e] same_registry_manager same_registry_trans by fastforce
qed

section \<open>Every step of the system\<close>

lemma sy_tracker_set: "sy_tracker (s\<lparr>sy_core := set_handler_state sv (sy_core s)\<rparr>) = sv_tracker sv"
  by (simp add: sy_tracker_def set_handler_state_def)

text \<open>A tracker does what the event prescribes, and keeps its age.\<close>

definition follows :: "rat \<Rightarrow> registry_event \<Rightarrow> tracker \<Rightarrow> tracker \<Rightarrow> bool" where
  "follows age ev tk tk' \<longleftrightarrow> registry_of tk' = registry_next age ev (registry_of tk)
     \<and> st_age (tk_storage tk') = st_age (tk_storage tk)"

lemma same_follows: "same_registry tk tk' \<Longrightarrow> follows age Quiet tk tk'"
  using same_registry_of [of tk tk'] by (simp add: follows_def same_registry_def)

lemma follows_event:
  "follows age (if rq_event rq = ''stopped'' then Leaves (rq_hash rq) (rq_peer_id rq) else Joins rq)
     tk (fst (handle_event shuffle now rq tk))"
proof -
  have "st_age (tk_storage (fst (handle_event shuffle now rq tk))) = st_age (tk_storage tk)"
    by (auto simp: handle_event_storage Let_def frame_simps update_sessions)
  then show ?thesis
    by (auto simp: follows_def registry_of_def handle_event_get ev_stopped_def fun_eq_iff)
qed

lemma follows_process:
  "follows age (announce_event (makeRequest now a b c d e f g h i j k l m)) tk
     (fst (ProcessAnnounce shuffle fam now a b c d e f g h i j k l m tk))"
proof (cases "makeRequest now a b c d e f g h i j k l m")
  case (Inr rq)
  then show ?thesis
    using follows_event [of age rq tk shuffle now] by (simp add: ProcessAnnounce_def announce_event_def case_prod_beta)
qed (simp add: ProcessAnnounce_def announce_event_def same_follows)

lemma read_announce_at:
  "read_announce cid action tid (drop 16 d) =
     (if 98 \<le> length d
      then Some \<lparr>ua_connection_id = cid, ua_action = action, ua_transaction_id = tid, ua_info_hash = bytes_at 16 20 d,
             ua_peer_id = bytes_at 36 20 d, ua_downloaded = get_u64 (bytes_at 56 8 d), ua_left = get_u64 (bytes_at 64 8 d),
             ua_uploaded = get_u64 (bytes_at 72 8 d), ua_event = get_u32 (bytes_at 80 4 d), ua_ip = get_u32 (bytes_at 84 4 d),
             ua_key = get_u32 (bytes_at 88 4 d), ua_num_want = get_u32 (bytes_at 92 4 d), ua_port = get_u16 (bytes_at 96 2 d)\<rparr>
      else None)"
proof -
  have rd: "0 < n \<Longrightarrow> rd n (drop i d) = (if i + n \<le> length d then Some (bytes_at i n d, drop (i + n) d) else None)" for n i
    by (auto simp: rd_def bytes_at_def add.commute)
  show ?thesis
  proof (cases "98 \<le> length d")
    case True
    then show ?thesis by (simp add: read_announce_def rd)
  next
    case False
    then show ?thesis by (simp add: read_announce_def rd)
  qed
qed

lemma follows_packet:
  "follows age (packet_event (sv_connections sv) now ip (take 4096 data)) (sv_tracker sv)
     (sv_tracker (fst (handlePackets err_text shuffle random now data ip sv)))"
proof -
  define d where "d = take 4096 data"
  have name: "event_string n = event_name n" for n
    by (simp add: event_string_def event_name_def ev_completed_def ev_started_def ev_stopped_def)
  have own_ip: "put_u32 (get_u32 (bytes_at 84 4 d)) = bytes_at 84 4 d" if "98 \<le> length d"
    using that by (intro put_get) (simp add: bytes_at_def)
  show ?thesis
  proof (cases "98 \<le> length d \<and> get_u64 (bytes_at 0 8 d) \<noteq> udp_connect_magic
      \<and> gm_mem (get_u64 (bytes_at 0 8 d)) (sv_connections sv) \<and> get_u32 (bytes_at 8 4 d) = udp_action_announce")
    case True
    define res where "res = udp_ProcessAnnounce shuffle now ip
        (the (read_announce (get_u64 (bytes_at 0 8 d)) (get_u32 (bytes_at 8 4 d)) (get_u32 (bytes_at 12 4 d)) (drop 16 d)))
        (sv_tracker sv)"
    have "sv_tracker (fst (handlePackets err_text shuffle random now data ip sv)) = fst res"
      using True
      by (auto simp: handlePackets_def handlePacket_def handleAnnounce_def Let_def d_def [symmetric] res_def
          read_announce_at split: sum.split prod.split)
    moreover have "follows age (announce_event (packet_request now ip d)) (sv_tracker sv) (fst res)"
      using True follows_process
      by (simp add: res_def udp_ProcessAnnounce_def read_announce_at packet_request_def name own_ip Let_def)
    ultimately show ?thesis using True by (simp add: packet_event_def d_def [symmetric])
  next
    case False
    then have "sv_tracker (fst (handlePackets err_text shuffle random now data ip sv)) = sv_tracker sv"
      by (auto simp: handlePackets_def handlePacket_def handleAnnounce_def Let_def d_def [symmetric]
          read_announce_at case_prod_beta)
    moreover have "packet_event (sv_connections sv) now ip d = Quiet"
      unfolding packet_event_def by (rule if_not_P [OF False])
    ultimately show ?thesis by (simp add: d_def [symmetric] same_follows)
  qed
qed

lemma follows_purge:
  assumes "requests_wf (tk_storage tk)" "st_age (tk_storage tk) = age"
  shows "follows age (Expires now) tk (tk\<lparr>tk_storage := purgeExpired now (tk_storage tk)\<rparr>)"
proof -
  have "st_age (purgeExpired now st) = st_age st" for st
    unfolding purgeExpired_def by (rule fold_keeps) (auto simp: frame_simps)
  with assms show ?thesis
    by (auto simp: follows_def registry_of_def st_get_purge)
qed

lemma follows_step:
  assumes "sys_op s l s'" "requests_wf (tk_storage (sy_tracker s))" "st_age (tk_storage (sy_tracker s)) = age"
  shows "follows age (client_event s l) (sy_tracker s) (sy_tracker s')"
  using assms
proof (induction rule: sys_op.induct)
  case (http_announce shuffle bencode err_text now remote xrealip ua get s tk' status body)
  then have "tk' = fst (HTTPHandler bencode err_text shuffle now remote xrealip ua get (sy_tracker s))" by simp
  then show ?case
    using follows_process by (simp add: HTTPHandler_def case_prod_beta split: sum.split)
next
  case (datagram shuffle s err_text random now data ip sv' reply)
  then show ?case
    using follows_packet [of age "\<lparr>sv_connections = co_connections (sy_core s), sv_tracker = sy_tracker s\<rparr>"]
    by (metis client_event.simps(2) fst_conv sy_tracker_set udp_server.select_convs)
next
  case add_forwarder
  then show ?case by (auto simp: sy_tracker_def intro: same_follows same_registry_add)
next
  case purge
  then show ?case by (simp add: follows_purge)
qed (simp_all add: same_follows same_registry_stats same_registry_with_manager same_registry_manager
  same_registry_close, simp_all add: sy_tracker_def same_follows)

section \<open>Every reachable state\<close>

lemma init_registry:
  "registry_of (sy_tracker (sys_init lookup_ip now cfg)) = (\<lambda>_. None)"
  "st_age (tk_storage (sy_tracker (sys_init lookup_ip now cfg))) = cf_age cfg"
  by (simp_all add: sys_init_def NewCore_def Let_def sy_tracker_def registry_of_def NewStorage_def st_get_def
      st_inner_def gm_get_or_def fun_eq_iff split: prod.split)

text \<open>The runs of the system with the events of their steps.\<close>

inductive traced :: "config \<Rightarrow> registry_event list \<Rightarrow> system \<Rightarrow> bool" for cfg where
  start: "traced cfg [] (sys_init lookup_ip now cfg)"
| move: "traced cfg evs s \<Longrightarrow> sys_op s l s' \<Longrightarrow> traced cfg (evs @ [client_event s l]) s'"

lemma traced_reachable: "reachable cfg s \<longleftrightarrow> (\<exists>evs. traced cfg evs s)"
proof
  show "reachable cfg s \<Longrightarrow> \<exists>evs. traced cfg evs s"
    by (induction rule: reachable.induct) (auto simp: sys_step_def intro: traced.intros)
  have "traced cfg evs s \<Longrightarrow> reachable cfg s" for evs
    by (induction rule: traced.induct) (auto intro: reachable.intros sys_stepI)
  then show "\<exists>evs. traced cfg evs s \<Longrightarrow> reachable cfg s" by blast
qed

lemma traced_registry:
  assumes "traced cfg evs s" "\<forall>f \<in> set (cf_forwards cfg). getName f \<noteq> []"
  shows "st_age (tk_storage (sy_tracker s)) = cf_age cfg
     \<and> registry_of (sy_tracker s) = fold (registry_next (cf_age cfg)) evs (\<lambda>_. None)"
  using assms(1)
proof (induction rule: traced.induct)
  case start
  show ?case by (simp add: init_registry)
next
  case (move evs s l s')
  then have "reachable cfg s" using traced_reachable by blast
  then have "follows (cf_age cfg) (client_event s l) (sy_tracker s) (sy_tracker s')"
    using reachable_ok [OF _ assms(2)] move follows_step
    by (simp add: sys_ok_def tk_ok_def tk_wf_def storage_wf_def)
  with move.IH show ?case by (simp add: follows_def)
qed

text \<open>What a client may rely on.\<close>

definition registry_sound :: "registry \<Rightarrow> bool" where
  "registry_sound m \<longleftrightarrow> (\<forall>k r. m k = Some r \<longrightarrow>
     k = (rq_hash r, rq_peer_id r) \<and> request_ok r \<and> rq_event r \<noteq> ''stopped'')"

definition sound_event :: "registry_event \<Rightarrow> bool" where
  "sound_event ev \<longleftrightarrow> (case ev of Joins r \<Rightarrow> request_ok r \<and> rq_event r \<noteq> ''stopped'' | _ \<Rightarrow> True)"

lemma sound_client_event: "sound_event (client_event s l)"
  by (cases l) (auto simp: sound_event_def announce_event_def packet_event_def packet_request_def
      dest: makeRequest_ok split: sum.split)

lemma registry_sound_next: "sound_event ev \<Longrightarrow> registry_sound m \<Longrightarrow> registry_sound (registry_next age ev m)"
  by (cases ev) (auto simp: registry_sound_def sound_event_def split: option.splits if_splits)

lemma traced_sound: "traced cfg evs s \<Longrightarrow> registry_sound (fold (registry_next age) evs (\<lambda>_. None))"
proof (induction rule: traced.induct)
  case start
  show ?case by (simp add: registry_sound_def)
qed (simp add: registry_sound_next sound_client_event)

text \<open>C3. The local tracker implements a registry of announces, step by step. Each step of the system, in
  whatever order the two receivers, the workers, the scheduler, the purge and the shutdown take them, changes the
  stored announces exactly as its event prescribes: an announce that is acceptable, over HTTP or in a datagram
  with a known connection id, files its request under its torrent and peer, unless it is a stop, which removes
  that entry; a purge drops exactly the entries silent for longer than the configured age; an announce that is
  refused and every other step change nothing. So the store of every run is what the specification computes from
  the events of the run, and its entries are accepted requests under their own torrent and peer, none a stop.\<close>

theorem registry_refinement:
  assumes "traced cfg evs s" "\<forall>f \<in> set (cf_forwards cfg). getName f \<noteq> []" "sys_op s l s'"
  shows "registry_of (sy_tracker s) = fold (registry_next (cf_age cfg)) evs (\<lambda>_. None)
     \<and> registry_of (sy_tracker s') = registry_next (cf_age cfg) (client_event s l) (registry_of (sy_tracker s))
     \<and> registry_sound (registry_of (sy_tracker s'))"
proof -
  note now = traced_registry [OF assms(1,2)]
  note after = traced_registry [OF traced.move [OF assms(1,3)] assms(2)]
  show ?thesis
    using now after traced_sound [OF traced.move [OF assms(1,3)]] by simp
qed

lemma registry_refinement_witness:
  "registry_of (sy_tracker example_state) = (\<lambda>_. None)((example_hash, example_peer) \<mapsto> example_request)"
proof -
  have start: "traced example_config [] example_start" unfolding example_start_def by (rule traced.start)
  have step: "sys_op example_start (HttpAnnounce (example_now + hour) ''10.0.0.1:999'' [] [] example_query) example_state"
    by (rule example_op)
  have "client_event example_start (HttpAnnounce (example_now + hour) ''10.0.0.1:999'' [] [] example_query) =
      Joins example_request"
    by code_simp
  with registry_refinement [OF start example_names step] show ?thesis
    by (simp add: example_request_def)
qed

end
