(* ===== verification/Shutdown.thy ===== *)
theory Shutdown
  imports Examples
begin

text \<open>
  The end of the service (\<open>Core.Close\<close> in core.go and \<open>ForwarderManager.Stop\<close> in forwarderManager.go) on the
  transition system: once the tracker is closed and the manager has been told to stop, the work that is left
  only shrinks, and a way to its end is always open.
\<close>

section \<open>A stopped manager\<close>

definition shut_down :: "system \<Rightarrow> bool" where
  "shut_down s \<longleftrightarrow> co_closed (sy_core s) \<and> pred_option fm_stopped (tk_manager (sy_tracker s))"

text \<open>What is left: a queued job can still be taken and then finished, a scheduled one only dropped.\<close>

definition work_left :: "system \<Rightarrow> nat" where
  "work_left s =
     (case tk_manager (sy_tracker s) of
        None \<Rightarrow> 0 | Some fm \<Rightarrow> 2 * length (fm_queue fm) + length (scheduled_list fm)) + length (sy_running s)"

definition calm :: "fmgr \<Rightarrow> fmgr \<Rightarrow> bool" where
  "calm fm fm' \<longleftrightarrow> fm_stopped fm' \<and> length (fm_queue fm') \<le> length (fm_queue fm)
     \<and> length (scheduled_list fm') \<le> length (scheduled_list fm)"

definition calm_tracker :: "tracker \<Rightarrow> tracker \<Rightarrow> bool" where
  "calm_tracker tk tk' \<longleftrightarrow> rel_option calm (tk_manager tk) (tk_manager tk')"

lemma calm_refl: "fm_stopped fm \<Longrightarrow> calm fm fm"
  by (simp add: calm_def)

lemma calm_tracker_refl: "pred_option fm_stopped (tk_manager tk) \<Longrightarrow> tk_manager tk' = tk_manager tk \<Longrightarrow> calm_tracker tk tk'"
  by (cases "tk_manager tk") (simp_all add: calm_tracker_def calm_refl)

lemma calm_tracker_some: "tk_manager tk = Some fm \<Longrightarrow> tk_manager tk' = Some fm' \<Longrightarrow> calm fm fm' \<Longrightarrow> calm_tracker tk tk'"
  by (simp add: calm_tracker_def)

text \<open>A worker of a stopped manager only gives its job back, whatever its action would have been.\<close>

lemma schedule_stopped: "fm_stopped fm \<Longrightarrow> schedule_or_finish don job fm = finishJob job fm"
  by (simp add: schedule_or_finish_def scheduleJob_def)

lemma worker_stopped: "fm_stopped fm \<Longrightarrow> worker_step e job (fm, fs) = (finishJob job fm, fs)"
  by (simp add: worker_step_def executeAnnounce_def schedule_stopped split: worker_action.split)

lemma finish_fields: "fm_stopped (finishJob job fm) = fm_stopped fm" "fm_queue (finishJob job fm) = fm_queue fm"
  "scheduled_list (finishJob job fm) = scheduled_list fm"
  by (simp_all add: finishJob_def scheduled_list_def split: option.split)

text \<open>The answer to an announce that was on the wire when the manager stopped changes nothing.\<close>

lemma retry_stopped: "fm_stopped (fst s) \<Longrightarrow> fst (handleRetryError don now job reason retryIn s) = s"
  by (cases s) (simp add: handleRetryError_def)

lemma loop_stopped: "fm_stopped (fst s) \<Longrightarrow> fst (http_loop decode job env retry left lastErr acts s) = s"
proof (induction left arbitrary: retry lastErr acts)
  case (Suc left)
  have "fst (doSingleHTTPRequest decode job (env retry) s) = s"
    using doSingle_state [of decode job "env retry" s] retry_stopped [OF Suc.prems] by metis
  then obtain r where "doSingleHTTPRequest decode job (env retry) s = (s, r)" by (metis prod.collapse)
  with Suc show ?case by (simp add: Let_def)
qed simp

lemma finish_stopped: "fm_stopped fm \<Longrightarrow> finish_announce e job (fm, fs) = (finishJob job fm, fs)"
proof -
  assume st: "fm_stopped fm"
  have "fst (run_protocol e job (fm, fs)) = (fm, fs)"
    using run_protocol_state [of e job "(fm, fs)"] loop_stopped [of "(fm, fs)"] st by (metis fst_conv)
  with st show ?thesis by (simp add: finish_announce_def run_announce_def case_prod_beta result_eq)
qed

lemma calm_finish: "fm_stopped fm \<Longrightarrow> calm fm (finishJob job fm)"
  by (simp add: calm_def finish_fields)

lemma scheduled_filtered: "length (concat (map snd (filter_scheduled P m))) \<le> length (concat (map snd m))"
  by (rule list_emb_length [OF filter_scheduled_subseq])

lemma calm_tick:
  assumes "fm_stopped fm" shows "calm fm (fst (scheduler_tick don now (fm, fs)))"
proof -
  have ready: "fold (processScheduledReadyJob don now) js f = fold finishJob js f" if "fm_stopped f" for js f
    using that by (induction js arbitrary: f) (simp_all add: processScheduledReadyJob_def finish_fields)
  have fold: "calm f f' \<Longrightarrow> calm f (fold finishJob js f')" for js f f'
    by (induction js arbitrary: f') (simp_all add: calm_def finish_fields)
  have "fm_stopped (fold finishJob js f) = fm_stopped f" for js f
    by (induction js arbitrary: f) (simp_all add: finish_fields)
  moreover have "calm fm (fm\<lparr>fm_scheduled := filter_scheduled (sched_keep don now) (fm_scheduled fm)\<rparr>)"
    using assms scheduled_filtered by (simp add: calm_def scheduled_list_def)
  ultimately show ?thesis using assms by (simp add: scheduler_tick_def Let_def ready fold)
qed

lemma calm_cancel: "fm_stopped fm \<Longrightarrow> calm fm (cancelPendingJobs h p c fm)"
  using scheduled_filtered by (simp add: calm_def cancelPendingJobs_def scheduled_list_def)

lemma calm_queue: "fm_stopped fm \<Longrightarrow> queueEligibleAnnounces shuffle don now h rq ctx fs fm = fm"
  by (simp add: queueEligibleAnnounces_def)

lemma calm_event:
  assumes "pred_option fm_stopped (tk_manager tk)"
  shows "calm_tracker tk (fst (handle_event shuffle now rq tk))"
proof (cases "tk_manager tk")
  case None
  then show ?thesis
    by (auto simp: calm_tracker_def handle_event_def handleStoppedEvent_def handleCompletedEvent_def
        handleRegularAnnounce_def handleFirstAnnounce_def handleSubsequentAnnounce_def Let_def split: prod.splits)
next
  case (Some fm)
  with assms have st: "fm_stopped fm" by simp
  have "calm fm (fm\<lparr>fm_limiter := tb\<rparr>)" "calm fm (fm\<lparr>fm_rate_limited := n\<rparr>)" "calm fm (fm\<lparr>fm_dropped_full := n\<rparr>)"
    "calm fm (fm\<lparr>fm_limiter := tb, fm_rate_limited := n\<rparr>)" "calm fm (fm\<lparr>fm_limiter := tb, fm_dropped_full := n\<rparr>)" for tb n
    using st by (simp_all add: calm_def scheduled_list_def)
  with Some st calm_cancel [OF st] calm_refl [OF st] show ?thesis
    by (auto simp: calm_tracker_def handle_event_def handleStoppedEvent_def handleCompletedEvent_def tk_queue_def
        handleRegularAnnounce_def handleFirstAnnounce_def handleSubsequentAnnounce_def calm_queue Let_def
        split: prod.splits option.splits)
qed

lemma calm_process:
  "pred_option fm_stopped (tk_manager tk) \<Longrightarrow>
     calm_tracker tk (fst (ProcessAnnounce shuffle fam now a b c d e f g h i j k l m tk))"
  by (auto simp: ProcessAnnounce_def case_prod_beta calm_event calm_tracker_refl split: sum.split)

lemma calm_http:
  assumes "HTTPHandler bencode err_text shuffle now remote xrealip ua get tk = (tk', status, body)"
    and "pred_option fm_stopped (tk_manager tk)"
  shows "calm_tracker tk tk'"
proof -
  have "tk' = fst (HTTPHandler bencode err_text shuffle now remote xrealip ua get tk)" using assms(1) by simp
  then show ?thesis
    using calm_process [OF assms(2)] by (simp add: HTTPHandler_def case_prod_beta split: sum.split)
qed

lemma calm_packet:
  assumes "pred_option fm_stopped (tk_manager (sv_tracker sv))"
  shows "calm_tracker (sv_tracker sv) (sv_tracker (fst (handlePackets err_text shuffle random now data ip sv)))"
proof -
  have "calm_tracker (sv_tracker sv) (fst (handleAnnounce err_text shuffle now data ip (sv_tracker sv)))" for data
    using assms calm_process
    by (simp add: handleAnnounce_def Let_def udp_ProcessAnnounce_def case_prod_beta calm_tracker_refl
        split: option.split sum.split)
  then show ?thesis
    using assms by (simp add: handlePackets_def handlePacket_def Let_def case_prod_beta calm_tracker_refl)
qed

lemma calm_with_manager:
  assumes "pred_option fm_stopped (tk_manager tk)" "\<And>fm fs. fm_stopped fm \<Longrightarrow> calm fm (fst (f (fm, fs)))"
  shows "calm_tracker tk (with_manager f tk)"
proof (cases "tk_manager tk")
  case (Some fm)
  with assms(1) have st: "fm_stopped fm" by simp
  then have "calm fm fm'" if "f (fm, fs) = (fm', fs')" for fs fm' fs' using assms(2) [of fm fs] that by simp
  with Some st show ?thesis
    by (auto simp: calm_tracker_def with_manager_def calm_refl split: option.split prod.split)
qed (simp add: calm_tracker_def with_manager_def)

lemma calm_stats:
  assumes "pred_option fm_stopped (tk_manager tk)" shows "calm_tracker tk (fst (stats_provider_of now tk))"
proof (cases "tk_manager tk")
  case (Some fm)
  moreover have "calm fm (fst (GetSuspendedForwarderDetails now fm))"
    using assms Some by (simp add: calm_def GetSuspendedForwarderDetails_def Let_def scheduled_list_def)
  ultimately show ?thesis
    by (simp add: calm_tracker_def stats_provider_of_def forwarderStatsProvider_def Let_def case_prod_beta)
qed (simp add: calm_tracker_def stats_provider_of_def)

lemma add_closed:
  assumes "HTTPAddForwarderHandler lookup_ip now meth raw first trailing co = (co', status, body)" "co_closed co"
    and "pred_option fm_stopped (tk_manager (co_tracker co))"
  shows "co' = co"
  using assms by (auto simp: HTTPAddForwarderHandler_def ensureForwarderManager_def Let_def
      split: if_splits sum.splits option.splits prod.splits)

section \<open>Every step\<close>

lemma calm_work:
  assumes "calm_tracker (sy_tracker s) (sy_tracker s')" "co_closed (sy_core s')" "sy_running s' = sy_running s"
  shows "shut_down s' \<and> work_left s' \<le> work_left s"
  using assms
  by (cases "tk_manager (sy_tracker s)"; cases "tk_manager (sy_tracker s')")
     (auto simp: calm_tracker_def calm_def shut_down_def work_left_def)

lemma work_step:
  assumes "sys_step s s'" "shut_down s" "tk_manager (sy_tracker s) = None \<longrightarrow> sy_running s = []"
    and "tk_manager (sy_tracker s) \<noteq> None \<longrightarrow> st_fwd (tk_storage (sy_tracker s)) \<noteq> None"
  shows "shut_down s' \<and> work_left s' \<le> work_left s \<and> (sy_running s' \<noteq> sy_running s \<longrightarrow> work_left s' < work_left s)"
proof -
  have st: "pred_option fm_stopped (tk_manager (sy_tracker s))" and cl: "co_closed (sy_core s)"
    using assms(2) by (simp_all add: shut_down_def)
  have quiet: ?thesis
    if "calm_tracker (sy_tracker s) (sy_tracker s')" "co_closed (sy_core s')" "sy_running s' = sy_running s"
    using calm_work [OF that] that(3) by simp
  from assms(1) obtain l where "sys_op s l s'" by (auto simp: sys_step_def)
  then show ?thesis
  proof cases
    case (http_announce shuffle bencode err_text now remote xrealip ua get tk' status body)
    with calm_http [OF http_announce(4) st] cl show ?thesis by (intro quiet) simp_all
  next
    case (datagram shuffle err_text random now data ip sv' reply)
    let ?sv = "\<lparr>sv_connections = co_connections (sy_core s), sv_tracker = sy_tracker s\<rparr>"
    have "calm_tracker (sy_tracker s) (sv_tracker sv')"
      using calm_packet [of ?sv err_text shuffle random now data ip] st datagram(5) by simp
    with datagram(2) cl show ?thesis by (intro quiet) (simp_all add: sy_tracker_def set_handler_state_def)
  next
    case (add_forwarder lookup_ip now meth raw first trailing co' status body)
    with add_closed [OF add_forwarder(3) cl] st have "s' = s" by (simp add: sy_tracker_def)
    with assms(2) show ?thesis by simp
  next
    case show_stats
    with cl calm_stats [OF st] show ?thesis by (intro quiet) simp_all
  next
    case (take_job fm job q)
    with st cl show ?thesis by (simp add: shut_down_def work_left_def scheduled_list_def)
  next
    case (complete_job pre job post e)
    then obtain fm where fm: "tk_manager (sy_tracker s) = Some fm" using assms(3) by auto
    then obtain fs where fs: "st_fwd (tk_storage (sy_tracker s)) = Some fs" using assms(4) by auto
    have "fm_stopped fm" using st fm by simp
    with complete_job cl fm fs show ?thesis
      by (simp add: shut_down_def work_left_def with_manager_def worker_stopped finish_fields)
  next
    case (admit_job job fm don now fm')
    with st have "fm_stopped fm" by simp
    with admit_job(7) show ?thesis by (simp add: admit_announce_def Let_def)
  next
    case (finish_job pre job post e)
    then obtain fm where fm: "tk_manager (sy_tracker s) = Some fm" using assms(3) by auto
    then obtain fs where fs: "st_fwd (tk_storage (sy_tracker s)) = Some fs" using assms(4) by auto
    have "fm_stopped fm" using st fm by simp
    with finish_job cl fm fs show ?thesis
      by (simp add: shut_down_def work_left_def with_manager_def finish_stopped finish_fields)
  next
    case (tick now)
    with cl show ?thesis by (intro quiet) (simp_all add: calm_with_manager [OF st calm_tick])
  next
    case scale
    have "calm fm (fst (scaleWorkers_tick fm))" if "fm_stopped fm" for fm
      using that by (simp add: calm_def scaleWorkers_tick_def Let_def scheduled_list_def)
    with scale cl calm_with_manager [OF st, of "\<lambda>(fm, fs). (fst (scaleWorkers_tick fm), fs)"] show ?thesis
      by (intro quiet) simp_all
  next
    case stop_manager
    have "calm fm (fm_signal_stop fm)" for fm by (simp add: calm_def fm_signal_stop_def scheduled_list_def)
    with stop_manager cl calm_with_manager [OF st, of "\<lambda>(fm, fs). (fm_signal_stop fm, fs)"] show ?thesis
      by (intro quiet) simp_all
  next
    case clear_manager
    have "calm fm (fm_clear fm)" if "fm_stopped fm" for fm using that by (simp add: calm_def fm_clear_def scheduled_list_def)
    with clear_manager cl calm_with_manager [OF st, of "\<lambda>(fm, fs). (fm_clear fm, fs)"] show ?thesis
      by (intro quiet) simp_all
  next
    case purge
    with st cl show ?thesis by (intro quiet calm_tracker_refl) simp_all
  next
    case close_storage
    with st cl show ?thesis by (intro quiet calm_tracker_refl) simp_all
  qed (use st cl in \<open>simp_all add: shut_down_def work_left_def sy_tracker_def\<close>)
qed

section \<open>The way to the end\<close>

lemma reachable_steps: "sys_step\<^sup>*\<^sup>* s s' \<Longrightarrow> reachable cfg s \<Longrightarrow> reachable cfg s'"
  by (induction rule: rtranclp_induct) (auto intro: reachable.move)

lemma reachable_parts:
  assumes "reachable cfg s" "\<forall>f \<in> set (cf_forwards cfg). getName f \<noteq> []"
  shows "tk_manager (sy_tracker s) = None \<longrightarrow> sy_running s = []"
    and "tk_manager (sy_tracker s) \<noteq> None \<longrightarrow> st_fwd (tk_storage (sy_tracker s)) \<noteq> None"
  using reachable_ok [OF assms] by (auto simp: sys_ok_def tk_ok_def tk_wf_def)

lemma env_times_exists: "\<exists>e. env_times e"
proof
  show "env_times (e\<lparr>ae_attempts := \<lambda>_ _. a\<lparr>ha_now := time_zero\<rparr>\<rparr>)" for e a by (simp add: env_times_def)
qed

text \<open>The workers finish what they hold.\<close>

lemma workers_finish:
  assumes "reachable cfg s" "\<forall>f \<in> set (cf_forwards cfg). getName f \<noteq> []" "shut_down s"
  shows "\<exists>s'. sys_step\<^sup>*\<^sup>* s s' \<and> shut_down s' \<and> sy_running s' = []"
  using assms(1,3)
proof (induction "sy_running s" arbitrary: s)
  case Nil
  then show ?case by (intro exI [of _ s]) simp
next
  case (Cons job post)
  obtain e where e: "env_times e" using env_times_exists by blast
  define s1 where "s1 = (if job \<in> set (sy_admitted s)
      then with_tracker (with_manager (finish_announce e job))
        (s\<lparr>sy_running := [] @ post, sy_admitted := remove1 job (sy_admitted s)\<rparr>)
      else with_tracker (with_manager (worker_step e job)) (s\<lparr>sy_running := [] @ post\<rparr>))"
  have "sy_running s = [] @ job # post" using Cons.hyps(2) by simp
  then have step: "sys_step s s1"
    unfolding s1_def by (auto intro: sys_stepI [OF sys_op.finish_job [OF _ _ e]] sys_stepI [OF sys_op.complete_job [OF _ _ e]] simp del: append_Nil)
  have down: "shut_down s1"
    using work_step [OF step Cons.prems(2) reachable_parts [OF Cons.prems(1) assms(2)]] by blast
  have "post = sy_running s1" by (simp add: s1_def)
  from Cons.hyps(1) [OF this reachable.move [OF Cons.prems(1) step] down]
  obtain s' where "sys_step\<^sup>*\<^sup>* s1 s'" "shut_down s'" "sy_running s' = []" by blast
  with step show ?case by (blast intro: converse_rtranclp_into_rtranclp)
qed

text \<open>The stop of the manager, from any state.\<close>

lemma stop_reached:
  assumes "reachable cfg s" "\<forall>f \<in> set (cf_forwards cfg). getName f \<noteq> []"
  shows "\<exists>s'. sys_step\<^sup>*\<^sup>* s s' \<and> shut_down s'"
proof -
  define s1 where "s1 = s\<lparr>sy_core := (sy_core s)\<lparr>co_closed := True, co_udp_closed := True\<rparr>\<rparr>"
  define s2 where "s2 = with_tracker (with_manager (\<lambda>(fm, fs). (fm_signal_stop fm, fs))) s1"
  have 1: "sys_step s s1" unfolding s1_def by (rule sys_stepI [OF sys_op.close_intake])
  have 2: "sys_step s1 s2" unfolding s2_def by (rule sys_stepI [OF sys_op.stop_manager]) (simp add: s1_def)
  have parts: "tk_manager (sy_tracker s1) \<noteq> None \<longrightarrow> st_fwd (tk_storage (sy_tracker s1)) \<noteq> None"
    using reachable_parts(2) [OF reachable.move [OF assms(1) 1] assms(2)] .
  have "co_closed (sy_core s2)" by (simp add: s2_def s1_def)
  moreover have "pred_option fm_stopped (tk_manager (sy_tracker s2))"
    using parts by (auto simp: s2_def with_manager_def fm_signal_stop_def split: option.splits)
  ultimately have "shut_down s2" by (simp add: shut_down_def)
  with 1 2 show ?thesis by (meson converse_rtranclp_into_rtranclp r_into_rtranclp)
qed

lemma cleared:
  assumes "reachable cfg s" "\<forall>f \<in> set (cf_forwards cfg). getName f \<noteq> []" "shut_down s" "sy_running s = []"
  shows "\<exists>s'. sys_step\<^sup>*\<^sup>* s s' \<and> shut_down s' \<and> work_left s' = 0"
proof (cases "tk_manager (sy_tracker s)")
  case None
  with assms(3,4) show ?thesis by (intro exI [of _ s]) (simp add: work_left_def)
next
  case (Some fm)
  let ?s = "with_tracker (with_manager (\<lambda>(fm, fs). (fm_clear fm, fs))) s"
  have st: "fm_stopped fm" "co_closed (sy_core s)" using assms(3) Some by (simp_all add: shut_down_def)
  then have step: "sys_step s ?s" using Some assms(4) by (intro sys_stepI [OF sys_op.clear_manager])
  obtain fs where "st_fwd (tk_storage (sy_tracker s)) = Some fs"
    using reachable_parts(2) [OF assms(1,2)] Some by auto
  with Some st assms(4) have "shut_down ?s \<and> work_left ?s = 0"
    by (simp add: shut_down_def work_left_def with_manager_def fm_clear_def scheduled_list_def)
  with step show ?thesis by blast
qed

lemma stays_idle:
  assumes "sys_step\<^sup>*\<^sup>* s s'" "reachable cfg s" "\<forall>f \<in> set (cf_forwards cfg). getName f \<noteq> []"
    and "shut_down s" "work_left s = 0"
  shows "shut_down s' \<and> work_left s' = 0"
  using assms(1)
proof (induction rule: rtranclp_induct)
  case (step t u)
  with work_step [OF step(2) _ reachable_parts [OF reachable_steps [OF step(1) assms(2)] assms(3)]] show ?case by auto
qed (use assms(4,5) in simp)

lemma idle_unmarked:
  assumes "reachable cfg s" "\<forall>f \<in> set (cf_forwards cfg). getName f \<noteq> []" "work_left s = 0"
    and "tk_manager (sy_tracker s) = Some fm"
  shows "\<not> isJobPending fm h n p"
proof
  assume p: "isJobPending fm h n p"
  have "jobs_inv fm (set (sy_running s))"
    using tk_ok_mgr [OF _ assms(4)] reachable_ok [OF assms(1,2)] by (simp add: sys_ok_def mgr_ok_def)
  from pending_owner [OF this p] assms(3,4) show False by (simp add: held_jobs_def work_left_def)
qed

section \<open>The property\<close>

text \<open>C4. The shutdown comes to an end. From every reachable state the service can be brought, by its own
  steps, to a state where it is closed, its manager is stopped, and no job is queued, scheduled or in a worker.
  Once the manager is stopped, and whatever announces, ticks, statistics and requests to add upstreams still
  arrive in whatever order, it stays stopped and the work that is left never grows, and every job a worker
  takes or finishes makes it smaller, so only finitely many follow. And once nothing is left, nothing ever
  comes back, and no upstream is marked as pending.\<close>

theorem shutdown_drains:
  assumes "reachable cfg s" "\<forall>f \<in> set (cf_forwards cfg). getName f \<noteq> []"
  shows "(\<exists>s'. sys_step\<^sup>*\<^sup>* s s' \<and> shut_down s' \<and> work_left s' = 0)
    \<and> (shut_down s \<longrightarrow> (\<forall>s'. sys_step s s' \<longrightarrow> shut_down s' \<and> work_left s' \<le> work_left s
         \<and> (sy_running s' \<noteq> sy_running s \<longrightarrow> work_left s' < work_left s)))
    \<and> (shut_down s \<and> work_left s = 0 \<longrightarrow> (\<forall>s'. sys_step\<^sup>*\<^sup>* s s' \<longrightarrow> work_left s' = 0
         \<and> (\<forall>fm h n p. tk_manager (sy_tracker s') = Some fm \<longrightarrow> \<not> isJobPending fm h n p)))"
proof (intro conjI impI allI)
  obtain s1 where 1: "sys_step\<^sup>*\<^sup>* s s1" "shut_down s1" using stop_reached [OF assms] by blast
  note r1 = reachable_steps [OF 1(1) assms(1)]
  obtain s2 where 2: "sys_step\<^sup>*\<^sup>* s1 s2" "shut_down s2" "sy_running s2 = []"
    using workers_finish [OF r1 assms(2) 1(2)] by blast
  from cleared [OF reachable_steps [OF 2(1) r1] assms(2) 2(2,3)] 1(1) 2(1)
  show "\<exists>s'. sys_step\<^sup>*\<^sup>* s s' \<and> shut_down s' \<and> work_left s' = 0" by (meson rtranclp_trans)
next
  fix s' assume "shut_down s" "sys_step s s'"
  note work = work_step [OF this(2,1) reachable_parts [OF assms]]
  show "shut_down s'" "work_left s' \<le> work_left s" using work by simp_all
  show "work_left s' < work_left s" if "sy_running s' \<noteq> sy_running s" using work that by simp
next
  fix s' assume idle: "shut_down s \<and> work_left s = 0" and steps: "sys_step\<^sup>*\<^sup>* s s'"
  then show left: "work_left s' = 0" using stays_idle [OF steps assms] by blast
  show "\<not> isJobPending fm h n p" if "tk_manager (sy_tracker s') = Some fm" for fm h n p
    using idle_unmarked [OF reachable_steps [OF steps assms(1)] assms(2) left that] .
qed

lemma shutdown_drains_witness:
  "work_left example_state = 2 \<and> (\<exists>s'. sys_step\<^sup>*\<^sup>* example_state s' \<and> shut_down s' \<and> work_left s' = 0)"
proof -
  have "sy_running example_state = []" by (simp add: example_state_def example_start_def sys_init_def)
  then have "work_left example_state = 2"
    by (simp add: work_left_def example_has_manager example_queue scheduled_list_def example_manager_fields(4))
  with shutdown_drains [OF example_reachable example_names] show ?thesis by blast
qed

end
