(* ===== verification/Progress.thy ===== *)
theory Progress
  imports Shutdown
begin

text \<open>
  The workers and the scheduler of a running manager (\<open>worker\<close>, \<open>schedulerRoutine\<close> and what they call in
  forwarderManager.go and forwarderAnnounce.go) on the transition system: from every reachable state they can work
  off all that is queued, postponed or on the wire, with no upstream answering, no client leaving and no stop.
\<close>

section \<open>A worker whose upstream is silent\<close>

definition same_jobs :: "fmgr \<Rightarrow> fmgr \<Rightarrow> bool" where
  "same_jobs fm fm' \<longleftrightarrow> fm_queue fm' = fm_queue fm \<and> fm_scheduled fm' = fm_scheduled fm \<and> fm_stopped fm' = fm_stopped fm"

lemma same_jobs_refl [simp]: "same_jobs fm fm"
  by (simp add: same_jobs_def)












section \<open>A late tick\<close>









section \<open>The way to an idle manager\<close>














end
