(* ===== verification/Counters.thy ===== *)
theory Counters
  imports Metrics
begin

text \<open>
  The counters that the handlers increase (receiverAnnounce.go, receiverUDP.go, forwarderAnnounce.go,
  forwarderManager.go). A counter and a vector of counters belong to the metrics library; how they are
  increased are the parameters \<open>cinc\<close> and \<open>vinc\<close>. A tracker without metrics has none, so every function
  works on an optional record.
\<close>

section \<open>Requests\<close>

record ('c, 'w) counters =
  cn_requests :: 'c
  cn_status :: 'w
  cn_dropped :: 'c
  cn_limited :: 'c

definition count_request :: "('c \<Rightarrow> 'c) \<Rightarrow> ('c, 'w) counters option \<Rightarrow> ('c, 'w) counters option" where
  "count_request cinc = map_option (\<lambda>c. c\<lparr>cn_requests := cinc (cn_requests c)\<rparr>)"

text \<open>Every HTTP announce counts, and every datagram that is not too short, whatever it asks for.\<close>

definition HTTPHandler_counted ::
  "('c \<Rightarrow> 'c) \<Rightarrow> (bool \<Rightarrow> response \<Rightarrow> 'e + string) \<Rightarrow> (request_error \<Rightarrow> string) \<Rightarrow> (forward list \<Rightarrow> forward list) \<Rightarrow>
   gotime \<Rightarrow> string \<Rightarrow> string \<Rightarrow> string \<Rightarrow> (string \<Rightarrow> string) \<Rightarrow> tracker \<times> ('c, 'w) counters option \<Rightarrow>
   (tracker \<times> nat \<times> string) \<times> ('c, 'w) counters option" where
  "HTTPHandler_counted cinc bencode err_text shuffle now remote xrealip userAgent get = (\<lambda>(tk, cn).
     (HTTPHandler bencode err_text shuffle now remote xrealip userAgent get tk, count_request cinc cn))"

definition handlePacket_counted ::
  "('c \<Rightarrow> 'c) \<Rightarrow> (request_error \<Rightarrow> string) \<Rightarrow> (forward list \<Rightarrow> forward list) \<Rightarrow> u64 option \<Rightarrow> gotime \<Rightarrow> bytes \<Rightarrow>
   net_ip \<Rightarrow> udp_server \<times> ('c, 'w) counters option \<Rightarrow> (udp_server \<times> bytes option) \<times> ('c, 'w) counters option" where
  "handlePacket_counted cinc err_text shuffle random now data clientIP = (\<lambda>(sv, cn).
     (handlePacket err_text shuffle random now data clientIP sv, count_request cinc cn))"

section \<open>Answers of upstreams\<close>

text \<open>The labels that are counted: the upstream's name and its answer. An HTTP answer counts by its status.\<close>

definition reply_status :: "string \<Rightarrow> http_reply \<Rightarrow> string list list" where
  "reply_status name reply =
     (case reply of HttpReply code status contentLength b \<Rightarrow> [[name, itoa code]] | _ \<Rightarrow> [])"

text \<open>Over the attempts of an announce, in the control flow of \<open>http_loop\<close>.\<close>

fun loop_statuses ::
  "(bytes \<Rightarrow> go_error + response) \<Rightarrow> announce_job \<Rightarrow> (nat \<Rightarrow> http_attempt) \<Rightarrow> nat \<Rightarrow> nat \<Rightarrow> fmgr \<times> fwd_storage \<Rightarrow>
   string list list" where
  "loop_statuses decode job env retry 0 s = []"
| "loop_statuses decode job env retry (Suc left) s =
     (let a = env retry in
      if ha_stopping a \<or> ha_canceled a \<or> (retry > 0 \<and> ha_wait a \<noteq> TimerFired) then []
      else case doSingleHTTPRequest decode job a s of
        (s', r) \<Rightarrow> reply_status (getName (aj_forwarder job)) (ha_reply a)
          @ (if ar_success r \<or> ar_deferred r \<or> ar_non_retryable r \<or> ar_suspend r then []
             else loop_statuses decode job env (retry + 1) left s'))"

definition protocol_statuses :: "announce_env \<Rightarrow> announce_job \<Rightarrow> fmgr \<times> fwd_storage \<Rightarrow> string list list" where
  "protocol_statuses e job s =
     (if getProtocol (aj_forwarder job) = protocol_udp then []
      else loop_statuses (ae_load e) job
        (ae_attempts e (buildAnnounceURI (ae_render e) (aj_forwarder job) (aj_request job) [])) 0
        (http_attempts (fm_config (fst s))) s)"

text \<open>In \<open>handleAnnounceResult\<close>: a success counts for UDP upstreams when it is published, a failure that is not
  a suspension counts as an error.\<close>

definition result_statuses ::
  "(nat \<Rightarrow> session \<Rightarrow> bool) \<Rightarrow> announce_job \<Rightarrow> announce_result \<Rightarrow> fmgr \<times> fwd_storage \<Rightarrow> string list list" where
  "result_statuses don job result0 s =
     (if ar_deferred result0 \<or> canceled (don 0) job \<or> fm_stopped (fst s) then []
      else (let name = getName (aj_forwarder job); result = route_filter result0 in
        if ar_success result then
          (if canceled (don 1) job \<or> fm_stopped (fst s) then []
           else if getProtocol (aj_forwarder job) = protocol_udp then [[name, ''200'']] else [])
        else if ar_suspend result then []
        else if canceled (don 1) job \<or> fm_stopped (fst s) then []
        else [[name, ''error'']]))"

definition announce_statuses :: "announce_env \<Rightarrow> announce_job \<Rightarrow> fmgr \<times> fwd_storage \<Rightarrow> string list list" where
  "announce_statuses e job s =
     (case run_protocol e job s of
        (s', r) \<Rightarrow> protocol_statuses e job s @ result_statuses (ae_done_result e) job r s')"

definition executeAnnounce_counted ::
  "(string list \<Rightarrow> 'w \<Rightarrow> 'w) \<Rightarrow> announce_env \<Rightarrow> announce_job \<Rightarrow> (fmgr \<times> fwd_storage) \<times> ('c, 'w) counters option \<Rightarrow>
   (fmgr \<times> fwd_storage) \<times> ('c, 'w) counters option" where
  "executeAnnounce_counted vinc e job = (\<lambda>((fm, fs), cn).
     (case admit_announce (ae_done e) (ae_now e) job fm of
        (fm1, False) \<Rightarrow> ((fm1, fs), cn)
      | (fm1, True) \<Rightarrow>
          (run_announce e job (fm1, fs),
           map_option (\<lambda>c. c\<lparr>cn_status := fold vinc (announce_statuses e job (fm1, fs)) (cn_status c)\<rparr>) cn)))"

lemma executeAnnounce_counted_state: "fst (executeAnnounce_counted vinc e job (s, cn)) = executeAnnounce e job s"
  by (cases s) (simp add: executeAnnounce_counted_def executeAnnounce_halves split: prod.split bool.split)

lemma loop_statuses_named:
  "length (loop_statuses decode job env retry left s) \<le> left
   \<and> set (loop_statuses decode job env retry left s) \<subseteq> {[getName (aj_forwarder job), itoa code] | code. True}"
proof (induction left arbitrary: retry s)
  case (Suc left)
  have reply: "length (reply_status n r) \<le> 1" "set (reply_status n r) \<subseteq> {[n, itoa code] | code. True}" for n r
    by (auto simp: reply_status_def split: http_reply.splits)
  obtain s' r where d: "doSingleHTTPRequest decode job (env retry) s = (s', r)" by fastforce
  show ?case
    using Suc.IH [of "retry + 1" s'] reply [of "getName (aj_forwarder job)" "ha_reply (env retry)"]
    by (auto simp: Let_def d)
qed simp

text \<open>An announce counts under its own upstream's name only: one status for each HTTP attempt at most, and at
  most one more for its outcome. A UDP announce counts once at most.\<close>

lemma announce_statuses_bound:
  "length (announce_statuses e job s) \<le>
     (if getProtocol (aj_forwarder job) = protocol_udp then 0 else http_attempts (fm_config (fst s))) + 1"
  "set (announce_statuses e job s) \<subseteq> {[getName (aj_forwarder job), status] | status. True}"
proof -
  have r: "length (result_statuses don job r s') \<le> 1"
    "set (result_statuses don job r s') \<subseteq> {[getName (aj_forwarder job), status] | status. True}" for don r s'
    by (auto simp: result_statuses_def Let_def)
  have p: "length (protocol_statuses e job s) \<le>
      (if getProtocol (aj_forwarder job) = protocol_udp then 0 else http_attempts (fm_config (fst s)))"
    "set (protocol_statuses e job s) \<subseteq> {[getName (aj_forwarder job), status] | status. True}"
    using loop_statuses_named [of "ae_load e" job "ae_attempts e (buildAnnounceURI (ae_render e) (aj_forwarder job) (aj_request job) [])" 0 "http_attempts (fm_config (fst s))" s]
    by (auto simp: protocol_statuses_def)
  obtain s' res where run: "run_protocol e job s = (s', res)" by fastforce
  show "length (announce_statuses e job s) \<le>
     (if getProtocol (aj_forwarder job) = protocol_udp then 0 else http_attempts (fm_config (fst s))) + 1"
    using p(1) r(1) [of "ae_done_result e" res s'] by (simp add: announce_statuses_def run)
  show "set (announce_statuses e job s) \<subseteq> {[getName (aj_forwarder job), status] | status. True}"
    using p(2) r(2) [of "ae_done_result e" res s'] by (simp add: announce_statuses_def run)
qed

text \<open>No status of an upstream is spelled as the label of an error, so the errors of an upstream count the
  results that were registered as failures or disabled it.\<close>

lemma error_counted:
  "[getName (aj_forwarder job), ''error''] \<in> set (result_statuses don job r s) \<longleftrightarrow>
     \<not> ar_deferred r \<and> \<not> canceled (don 0) job \<and> \<not> canceled (don 1) job \<and> \<not> fm_stopped (fst s)
     \<and> \<not> ar_success (route_filter r) \<and> \<not> ar_suspend (route_filter r)"
  by (auto simp: result_statuses_def Let_def)

section \<open>Rejected and dropped announces\<close>

text \<open>The metrics of dropped and limited announces are increased together with the manager's own counters.\<close>

definition count_drops :: "('c \<Rightarrow> 'c) \<Rightarrow> fmgr \<Rightarrow> fmgr \<Rightarrow> ('c, 'w) counters option \<Rightarrow> ('c, 'w) counters option" where
  "count_drops cinc fm fm' =
     map_option (\<lambda>c. c\<lparr>cn_dropped := (cinc ^^ (fm_dropped_full fm' - fm_dropped_full fm)) (cn_dropped c),
                       cn_limited := (cinc ^^ (fm_rate_limited fm' - fm_rate_limited fm)) (cn_limited c)\<rparr>)"

definition drops :: "fmgr \<Rightarrow> nat \<times> nat" where
  "drops fm = (fm_dropped_full fm, fm_rate_limited fm)"

lemma drops_idle:
  "drops (fst (isSuspended now name fm)) = drops fm" "drops (finishJob job fm) = drops fm"
  "drops (fst (announce_limit fm)) = drops fm"
  by (simp_all add: drops_def isSuspended_def getSuspendedUntil_def finishJob_def unmarkJobPending_def announce_limit_def shouldLogQueueThrottle_def
      resetQueueThrottleLogState_def Let_def split: option.splits)

lemma drops_classify: "drops (fst (classify_all now h p fs idx l s)) = drops (fst s)"
proof (induction l arbitrary: idx s)
  case (Cons f l)
  obtain fm new due where s: "s = (fm, new, due)" by (cases s)
  have "drops (fst (classify_forwarder now h p fs idx f s)) = drops fm"
    using drops_idle(1) [of now "getName f" fm]
    by (auto simp: classify_forwarder_def s Let_def split: prod.splits)
  with Cons.IH show ?case by (simp add: s)
qed simp

lemma drops_enqueue:
  "enqueue don h rq ctx limit c s = (s', go) \<Longrightarrow>
     fm_rate_limited (fst s') = fm_rate_limited (fst s)
     \<and> fm_dropped_full (fst s') \<in> (if go then {fm_dropped_full (fst s)} else {fm_dropped_full (fst s), fm_dropped_full (fst s) + 1})"
  using drops_idle(2)
  by (cases s) (auto simp: enqueue_def try_send_def Let_def drops_def split: if_splits option.splits)

lemma drops_enqueue_all:
  "enqueue_all don h rq ctx limit cs s = (s', go) \<Longrightarrow>
     fm_rate_limited (fst s') = fm_rate_limited (fst s)
     \<and> fm_dropped_full (fst s') \<in> (if go then {fm_dropped_full (fst s)} else {fm_dropped_full (fst s), fm_dropped_full (fst s) + 1})"
proof (induction cs arbitrary: s)
  case (Cons c cs)
  obtain s1 go1 where e: "enqueue don h rq ctx limit c s = (s1, go1)" by fastforce
  show ?case
    using Cons.prems Cons.IH [of s1] drops_enqueue [OF e] by (cases go1) (auto simp: e split: if_splits)
qed simp

text \<open>An announce for the upstreams drops at most one job: the first that finds no place ends the queueing.\<close>

lemma queueEligible_drops:
  "fm_rate_limited (queueEligibleAnnounces shuffle don now h rq ctx fs fm) = fm_rate_limited fm
   \<and> fm_dropped_full (queueEligibleAnnounces shuffle don now h rq ctx fs fm) \<in> {fm_dropped_full fm, fm_dropped_full fm + 1}"
proof (cases "fm_stopped fm \<or> fm_forwarders fm = []")
  case True
  then show ?thesis by (auto simp: queueEligibleAnnounces_def)
next
  case False
  obtain fm1 limit where l: "announce_limit fm = (fm1, limit)" by fastforce
  obtain fm2 new due where c:
    "classify_all now h (rq_peer_id rq) fs 0 (shuffle (fm_forwarders fm)) (fm1, [], []) = (fm2, new, due)"
    by (metis prod_cases3)
  obtain s3 go where e: "enqueue_all don h rq ctx limit (new @ sort_due due) (fm2, 0) = (s3, go)" by fastforce
  have "drops fm2 = drops fm"
    using drops_classify [of now h "rq_peer_id rq" fs 0 "shuffle (fm_forwarders fm)" "(fm1, [], [])"]
      drops_idle(3) [of fm] by (simp add: c l)
  then show ?thesis
    using False drops_enqueue_all [OF e] queueEligible_unfold [where shuffle = shuffle and fm = fm, OF _ _ l c] e
    by (auto simp: drops_def split: if_splits)
qed

text \<open>A first announce that is refused increases the counter that its reason names; the limited announces are
  exactly the refused ones that are not refused for a full queue.\<close>

lemma first_announce_drops:
  assumes "tk_manager tk = Some fm" "handleFirstAnnounce shuffle now rq c (tk, resp) = (tk', resp')" "rs_failure resp = []"
  shows "\<exists>fm'. tk_manager tk' = Some fm'
    \<and> fm_rate_limited fm' = fm_rate_limited fm + (if rs_failure resp' \<noteq> [] \<and> rs_failure resp' \<noteq> queue_full_reason then 1 else 0)
    \<and> (rs_failure resp' = queue_full_reason \<longrightarrow> fm_dropped_full fm' = fm_dropped_full fm + 1)
    \<and> fm_dropped_full fm' \<in> {fm_dropped_full fm, fm_dropped_full fm + 1}"
proof -
  have neq: "tracker_busy n \<noteq> []" "tracker_busy n \<noteq> queue_full_reason" "queue_full_reason \<noteq> []" for n
    by (simp_all add: tracker_busy_def queue_full_reason_def)
  obtain fm1 limited where g: "(if shouldRateLimitInitial fm then (case allow now (fm_limiter fm) of (tb, ok) \<Rightarrow>
      (fm\<lparr>fm_limiter := tb\<rparr>, \<not> ok)) else (fm, False)) = (fm1, limited)" by fastforce
  have same: "fm_dropped_full fm1 = fm_dropped_full fm" "fm_rate_limited fm1 = fm_rate_limited fm"
    using g by (auto split: if_splits prod.splits)
  consider "limited" | "\<not> limited" "isQueueFull fm1" | "\<not> limited" "\<not> isQueueFull fm1" by blast
  then show ?thesis
  proof cases
    case 1
    then show ?thesis using assms(2) neq by (auto simp: handleFirstAnnounce_def Let_def assms(1,3) g same)
  next
    case 2
    then show ?thesis using assms(2) neq by (auto simp: handleFirstAnnounce_def Let_def assms(1,3) g same)
  next
    case 3
    have "tk' = tk_queue shuffle now rq c fm1 tk" "rs_failure resp' = []"
      using assms(2,3) 3 by (auto simp: handleFirstAnnounce_def Let_def assms(1) g)
    then show ?thesis
      using queueEligible_drops [of shuffle "session_done (tk_storage tk)" now "rq_hash rq" rq "Some c" _ fm1] neq same
      by (simp add: tk_queue_def split: option.splits)
  qed
qed

end
