(* ===== verification/Spec2Isabelle.thy ===== *)
theory Spec2Isabelle
  imports TrackerTheorems ForwarderTheorems UdpTheorems WireTheorems SetupTheorems StatsTheorems
    ServiceTheorems Registry Progress Counters
begin

text \<open>
  retracker, a BitTorrent tracker that also asks other trackers.

  The program. Clients announce themselves over HTTP or UDP. The tracker keeps, for each torrent (an
  info hash) and peer id, the last announce and a session; it answers with the peers it knows. When it
  is configured with forwarders, that is upstream trackers, it also queues an announce to each of them
  on behalf of the client; workers take these jobs, send them over HTTP or UDP, and put the peers of
  the answers into a cache from which later clients are served. An upstream may refuse, fail, limit
  the rate or ask for a retry; the manager then disables it, counts failures, suspends it or
  schedules the retry. Sessions tie the two sides together: when a client stops or expires its session
  ends, and the work queued for it is cancelled or ignored.

  Theories and files.
  Foundations: \<open>Prelude\<close> (Go maps as association lists with distinct keys, times and durations,
  wrap-around, shared lemmas), \<open>Float64\<close> (the float arithmetic of durations), \<open>GoStrings\<close>, \<open>Runes\<close>, \<open>GoUrl\<close>,
  \<open>UrlQuery\<close>, \<open>NetIP\<close> (what the code uses of the packages strings, strconv, net/url, net and net/netip)
  and \<open>Wire\<close> (big-endian fields).
  Data of the protocol: \<open>Protocol\<close>, \<open>Request\<close>, \<open>Response\<close> (the files under src/bittorrent).
  Local peers: \<open>Storage\<close> (storage.go); counting and scraping: \<open>Scrape\<close> (scrape.go).
  Forwarders: \<open>Forwards\<close> (common/forwards.go and the start-up checks of forwarderManager.go),
  \<open>Errors\<close> (errors.go), \<open>FwdStorage\<close> (forwarderStorage.go, the cache and the jobs),
  \<open>RateLimit\<close>, \<open>Manager\<close> and \<open>JobQueue\<close> (forwarderManager.go: the token bucket; the state, failures,
  suspension and start-up; the queue, the scheduler, retries and workers), \<open>Routable\<close> and \<open>FwdAnnounce\<close>
  (forwarderAnnounce.go and forwarderHTTP.go), \<open>UdpClient\<close> (udpForwarder.go), \<open>Background\<close>
  (background.go).
  Receivers: \<open>Announce\<close> (receiverAnnounce.go) and \<open>UdpServer\<close> (receiverUDP.go).
  The whole: \<open>Config\<close> (the configuration and its sources), \<open>Core\<close> (core.go), \<open>StatsView\<close>
  (forwarderStats.go, the two providers and observability/stats.go), and \<open>System\<close>, the tracker as a
  transition system whose steps (\<open>sys_op\<close>) are the handlers, the workers' steps, the ticks and the stages of a
  shutdown, each labelled with its operation and the inputs of clients and clock.
  The service around it: \<open>StatsText\<close> (the texts and the JSON of the statistics, the printed configuration,
  console.go and logging.go), \<open>HttpServer\<close> (server.go: the routes, the order of opening and releasing, and
  main.go), \<open>Lifecycle\<close> (the start and the worker pool of the manager, the store's goroutines, the UDP
  receiver's start and close, and receiver.go), \<open>Diagnostics\<close> (tempStorage.go and the log records of announces), \<open>Metrics\<close>
  (prometheus.go and the update of the gauges) and \<open>Counters\<close> (the counters that the handlers increase).

  State and operations. Each Go struct is a record with its fields and each method a function from the
  state to the new state and the result, with every branch and early return. Maps shared by pointer are
  part of the record that owns them; the job's shared state is a token compared by identity.
  Clocks, DNS, sockets, the bencode and JSON codecs, the random numbers and Go's map order are
  parameters: the functions take the time as an argument, the network as a record of what arrives, and
  a shuffle that is any permutation. Errors are sums or options, integers that the code keeps at a
  width are words or are wrapped explicitly (\<open>wrap64\<close>).

  Lemmas. \<open>JobLemmas\<close>: the bookkeeping of jobs (\<open>jobs_inv\<close>) is kept by every operation; \<open>QueueLemmas\<close>:
  what one announce queues; \<open>FwdLemmas\<close>: reading limits, retries and the treatment of each answer;
  \<open>UdpLemmas\<close>: what one end of the UDP protocol writes the other reads. The locale \<open>cooldown\<close> states what
  the queue relies on in the cache, and \<open>sessions\<close> what forwarding relies on in the local peers; both
  are interpreted on the code's own structures, in \<open>FwdStorage\<close> and \<open>Storage\<close>; \<open>task_group\<close> is the contract of
  the owners of goroutines when they close, interpreted on the background tasks, the worker pool and the
  UDP receiver; \<open>gauge_vector\<close> in \<open>Metrics\<close>
  states what the metrics library documents, and the model's maps are an instance. \<open>Runes\<close> shows that
  strings decompose into runes and come back, \<open>Lifecycle\<close> the invariants of the pool and of the receiver,
  \<open>HttpServer\<close> that every request is a step of \<open>System\<close> or changes nothing. \<open>Examples\<close> holds the concrete
  tracker on which the witnesses of the properties run.

  Properties. The two theorems of this file span the components: the invariant of all reachable states, and
  where the peers of an answer come from. \<open>Registry\<close> holds a specification of what clients see, a map of
  announces and, for each event of a client or of the clock, the next map, and the refinement: each labelled
  step of the system does to the store what the event of its label prescribes, and the store of a run is the
  fold of its events; \<open>Progress\<close> shows that a running manager can always work off what it holds, with no
  upstream answering; \<open>Shutdown\<close> shows that the service can always be brought to its end and what
  cannot happen any more on the way. \<open>UdpTheorems\<close> holds the UDP protocol's round
  trips and bounds, \<open>ForwarderTheorems\<close> the treatment of upstreams, the queue and the cache,
  \<open>TrackerTheorems\<close> the answers, the counts, the sessions and the statistics, \<open>WireTheorems\<close> the formats,
  the error classes and the address ranges, \<open>SetupTheorems\<close> the start-up, the configuration, the
  limiter and the shutdown of goroutines, \<open>ServiceTheorems\<close> the HTTP server, the run, the worker pool, the
  metrics and the diagnostic files, and \<open>StatsTheorems\<close> the statistics and the log lines.

  Bounds. No definition uses fuel: the retry loops count down the configured number of attempts, the
  announce loop over UDP ends by a lexicographic measure (attempts left, then whether it may still
  reconnect), and the readers consume their input. \<open>Progress\<close> descends by the number of scheduled jobs, then by
  the queued and the running ones. Waits, and reads until a deadline, end with what
  arrived, a list.

  Interleaving. A worker's job is one step when nothing happens while it waits for the network, and
  otherwise two, \<open>admit_announce\<close> before and \<open>finish_announce\<close> after the wait, with any other steps between
  them; \<open>executeAnnounce_halves\<close> shows that the code's function is the one after the other. Sessions may end at
  every look that \<open>handleRetryError\<close> (four) and \<open>handleAnnounceResult\<close> (three) take at them: \<open>don i\<close> is the view at
  look \<open>i\<close>, with no relation between the looks. A datagram's goroutine is a routine
  of its own in \<open>Lifecycle\<close>.

  Not modelled. The interleaving of goroutines inside the other handlers, each of which is one step, and the
  races of unlocked reads. The bencode, JSON and YAML codecs, sockets, TLS, the file system, log/slog's encoder
  and the metrics library are parameters. The flag package and the signals of \<open>main.go\<close> are library calls.
\<close>

text \<open>C1. In every state the tracker can reach, whatever the order of announces, datagrams, worker
  steps, scheduler ticks, clean-ups and shutdown stages: the job queue is within its capacity, at most
  one retry is scheduled for each torrent and upstream, a pending marker belongs to a job that is
  queued, scheduled or in a worker, every registered request is filed under its own torrent and peer,
  and every cached upstream peer has a routable address.\<close>

theorem reachable_invariant:
  assumes "reachable cfg s" and "\<forall>f \<in> set (cf_forwards cfg). getName f \<noteq> []"
    and "tk_manager (sy_tracker s) = Some fm"
  shows "length (fm_queue fm) \<le> fm_capacity fm
    \<and> distinct (map (\<lambda>j. (aj_hash j, aj_fwd j)) (scheduled_list fm))
    \<and> (\<forall>h n p. isJobPending fm h n p \<longrightarrow>
         (\<exists>job \<in> set (fm_queue fm) \<union> set (scheduled_list fm) \<union> set (sy_running s).
            aj_hash job = h \<and> aj_fwd job = n \<and> aj_peer job = p))
    \<and> (\<forall>h p r. st_get (tk_storage (sy_tracker s)) h p = Some r \<longrightarrow> rq_hash r = h \<and> rq_peer_id r = p)
    \<and> (\<forall>fs h n e q. st_fwd (tk_storage (sy_tracker s)) = Some fs \<longrightarrow> fs_get fs h n = Some e \<longrightarrow>
         q \<in> set (fe_peers e) \<longrightarrow> isRoutablePeerAddress (p_ip q))"
proof -
  have ok: "tk_ok (set (sy_running s)) (sy_tracker s)"
    using reachable_ok [OF assms(1,2)] by (simp add: sys_ok_def)
  then have inv: "jobs_inv fm (set (sy_running s))"
    using tk_ok_mgr [OF ok assms(3)] by (simp add: mgr_ok_def)
  have "storage_wf (tk_storage (sy_tracker s))" "pred_option fs_ok (st_fwd (tk_storage (sy_tracker s)))"
    using ok by (simp_all add: tk_ok_def tk_wf_def)
  moreover have "\<exists>job \<in> held_jobs fm \<union> set (sy_running s). aj_hash job = h \<and> aj_fwd job = n \<and> aj_peer job = p"
    if "isJobPending fm h n p" for h n p
    using pending_owner [OF inv that] .
  ultimately show ?thesis
    using inv by (auto simp: jobs_inv_def sched_unique_def held_jobs_def storage_wf_def requests_wf_def
        fs_ok_def fs_routable_def)
qed

lemma reachable_invariant_witness:
  "\<exists>job \<in> set (fm_queue example_manager) \<union> set (scheduled_list example_manager) \<union> set (sy_running example_state).
     aj_hash job = example_hash \<and> aj_fwd job = ''tracker.example.org'' \<and> aj_peer job = example_peer"
  using reachable_invariant [OF example_reachable example_names example_has_manager]
    example_manager_fields(1) by blast







end
